theory Spec2Isabelle
  imports Complex_Main
begin

section \<open>Tensors\<close>

text \<open>
  A tensor is its shape and its elements in row-major order (a contiguous torch tensor).
  Elements are exact real numbers: rounding, overflow and NaN of the float32 arithmetic
  are outside this development.
\<close>

record tensor =
  shape :: "nat list"
  data :: "real list"

definition wf_tensor :: "tensor \<Rightarrow> bool" where
  "wf_tensor t \<longleftrightarrow> length (data t) = prod_list (shape t)"

text \<open>
  The exceptions of the notebooks, as values. \<open>Unmodelled\<close> answers an input whose rank
  lies outside the ranks an operation is used with in the notebooks.
\<close>

datatype error =
  RuntimeError | ValueError | IndexError | NameError | StopIteration | ZeroDivisionError
  | Unmodelled

fun bind_err :: "error + 'a \<Rightarrow> ('a \<Rightarrow> error + 'b) \<Rightarrow> error + 'b" where
  "bind_err (Inl e) f = Inl e"
| "bind_err (Inr x) f = f x"

definition tabulate1 :: "nat \<Rightarrow> (nat \<Rightarrow> real) \<Rightarrow> tensor" where
  "tabulate1 N f = \<lparr>shape = [N], data = map f [0..<N]\<rparr>"

definition tabulate2 :: "nat \<Rightarrow> nat \<Rightarrow> (nat \<Rightarrow> nat \<Rightarrow> real) \<Rightarrow> tensor" where
  "tabulate2 N M f =
     \<lparr>shape = [N, M], data = map (\<lambda>i. f (i div M) (i mod M)) [0..<N * M]\<rparr>"

definition tabulate4 ::
  "nat \<Rightarrow> nat \<Rightarrow> nat \<Rightarrow> nat \<Rightarrow> (nat \<Rightarrow> nat \<Rightarrow> nat \<Rightarrow> nat \<Rightarrow> real) \<Rightarrow> tensor" where
  "tabulate4 N C H W f =
     \<lparr>shape = [N, C, H, W],
      data = map (\<lambda>i. f (i div (C * H * W)) (i div (H * W) mod C) (i div W mod H) (i mod W))
               [0..<N * C * H * W]\<rparr>"

definition tabulate5 ::
  "nat \<Rightarrow> nat \<Rightarrow> nat \<Rightarrow> nat \<Rightarrow> nat \<Rightarrow> (nat \<Rightarrow> nat \<Rightarrow> nat \<Rightarrow> nat \<Rightarrow> nat \<Rightarrow> real) \<Rightarrow> tensor" where
  "tabulate5 B N C H W f =
     \<lparr>shape = [B, N, C, H, W],
      data = map (\<lambda>i. f (i div (N * C * H * W)) (i div (C * H * W) mod N)
                        (i div (H * W) mod C) (i div W mod H) (i mod W))
               [0..<B * N * C * H * W]\<rparr>"

text \<open>\<open>torch.full(sh, v)\<close>: every element is \<open>v\<close>.\<close>

definition full :: "nat list \<Rightarrow> real \<Rightarrow> tensor" where
  "full sh v = \<lparr>shape = sh, data = replicate (prod_list sh) v\<rparr>"

definition at1 :: "tensor \<Rightarrow> nat \<Rightarrow> real" where
  "at1 t i = data t ! i"

definition at2 :: "tensor \<Rightarrow> nat \<Rightarrow> nat \<Rightarrow> real" where
  "at2 t i j = (case shape t of [N, M] \<Rightarrow> data t ! (i * M + j) | _ \<Rightarrow> 0)"

definition at4 :: "tensor \<Rightarrow> nat \<Rightarrow> nat \<Rightarrow> nat \<Rightarrow> nat \<Rightarrow> real" where
  "at4 t n c y x =
     (case shape t of [N, C, H, W] \<Rightarrow> data t ! (((n * C + c) * H + y) * W + x) | _ \<Rightarrow> 0)"

definition at5 :: "tensor \<Rightarrow> nat \<Rightarrow> nat \<Rightarrow> nat \<Rightarrow> nat \<Rightarrow> nat \<Rightarrow> real" where
  "at5 t b n c y x =
     (case shape t of
        [B, N, C, H, W] \<Rightarrow> data t ! ((((b * N + n) * C + c) * H + y) * W + x)
      | _ \<Rightarrow> 0)"

text \<open>\<open>t[i]\<close>: the \<open>i\<close>-th slice along the first dimension.\<close>

definition select0 :: "tensor \<Rightarrow> nat \<Rightarrow> error + tensor" where
  "select0 t i =
     (case shape t of
        [] \<Rightarrow> Inl IndexError
      | d # rest \<Rightarrow>
          if i < d
          then Inr \<lparr>shape = rest,
                    data = take (prod_list rest) (drop (i * prod_list rest) (data t))\<rparr>
          else Inl IndexError)"

text \<open>\<open>t[None]\<close>: a new first dimension of size one.\<close>

definition unsqueeze0 :: "tensor \<Rightarrow> tensor" where
  "unsqueeze0 t = t\<lparr>shape := 1 # shape t\<rparr>"

text \<open>
  \<open>t.view(*dims)\<close> keeps the elements and changes the shape; torch refuses a shape with
  another number of elements.
\<close>

definition view :: "tensor \<Rightarrow> nat list \<Rightarrow> error + tensor" where
  "view t dims =
     (if prod_list dims = prod_list (shape t) then Inr (t\<lparr>shape := dims\<rparr>)
      else Inl RuntimeError)"

text \<open>\<open>torch.cat(ts)\<close> along dimension 0; an empty list is refused.\<close>

definition cat0 :: "tensor list \<Rightarrow> error + tensor" where
  "cat0 ts =
     (case ts of
        [] \<Rightarrow> Inl RuntimeError
      | t # _ \<Rightarrow>
          (case shape t of
             [] \<Rightarrow> Inl RuntimeError
           | _ # rest \<Rightarrow>
               if list_all (\<lambda>u. shape u \<noteq> [] \<and> tl (shape u) = rest) ts
               then Inr \<lparr>shape = sum_list (map (\<lambda>u. hd (shape u)) ts) # rest,
                         data = concat (map data ts)\<rparr>
               else Inl RuntimeError))"

text \<open>
  \<open>F.linear(x, W, b)\<close> for a vector \<open>x\<close> of shape \<open>[k]\<close> or a batch of shape \<open>[n, k]\<close>,
  \<open>W\<close> of shape \<open>[m, k]\<close> and \<open>b\<close> of shape \<open>[m]\<close>.
\<close>

definition linear :: "tensor \<Rightarrow> tensor \<Rightarrow> tensor \<Rightarrow> error + tensor" where
  "linear x W b =
     (case shape W of
        [m, k] \<Rightarrow>
          if shape b = [m] then
            (case shape x of
               [k'] \<Rightarrow>
                 if k' = k
                 then Inr (tabulate1 m (\<lambda>j. (\<Sum>l\<leftarrow>[0..<k]. at1 x l * at2 W j l) + at1 b j))
                 else Inl RuntimeError
             | [n, k'] \<Rightarrow>
                 if k' = k
                 then Inr (tabulate2 n m
                        (\<lambda>i j. (\<Sum>l\<leftarrow>[0..<k]. at2 x i l * at2 W j l) + at1 b j))
                 else Inl RuntimeError
             | _ \<Rightarrow> Inl Unmodelled)
          else Inl RuntimeError
      | _ \<Rightarrow> Inl RuntimeError)"

text \<open>
  \<open>F.conv2d(x, w, bias, padding=p, groups=g)\<close> with stride 1: a cross-correlation over
  the zero-padded input. With \<open>g\<close> groups, output channel \<open>o\<close> reads the input channels of
  group \<open>o div (OC div g)\<close>.
\<close>

definition padded_at :: "tensor \<Rightarrow> nat \<Rightarrow> nat \<Rightarrow> nat \<Rightarrow> nat \<Rightarrow> nat \<Rightarrow> real" where
  "padded_at t p n c y x =
     (case shape t of
        [N, C, H, W] \<Rightarrow>
          if p \<le> y \<and> y < H + p \<and> p \<le> x \<and> x < W + p then at4 t n c (y - p) (x - p) else 0
      | _ \<Rightarrow> 0)"

definition conv2d :: "tensor \<Rightarrow> tensor \<Rightarrow> tensor option \<Rightarrow> nat \<Rightarrow> nat \<Rightarrow> error + tensor" where
  "conv2d x w b p g =
     (case shape x of
        [N, C, H, W] \<Rightarrow>
          (case shape w of
             [OC, IC, KH, KW] \<Rightarrow>
               if 0 < g \<and> C mod g = 0 \<and> OC mod g = 0 \<and> C = IC * g
                  \<and> KH \<le> H + 2 * p \<and> KW \<le> W + 2 * p
                  \<and> (case b of None \<Rightarrow> True | Some bt \<Rightarrow> shape bt = [OC])
               then Inr (tabulate4 N OC (H + 2 * p - KH + 1) (W + 2 * p - KW + 1)
                      (\<lambda>n o' y x'.
                         (\<Sum>c\<leftarrow>[0..<IC]. \<Sum>ky\<leftarrow>[0..<KH]. \<Sum>kx\<leftarrow>[0..<KW].
                            padded_at x p n (o' div (OC div g) * IC + c) (y + ky) (x' + kx)
                              * at4 w o' c ky kx)
                         + (case b of None \<Rightarrow> 0 | Some bt \<Rightarrow> at1 bt o')))
               else Inl RuntimeError
           | _ \<Rightarrow> Inl RuntimeError)
      | _ \<Rightarrow> Inl RuntimeError)"

section \<open>Modulated convolution (StyleGAN2 notebook)\<close>

text \<open>
  \<open>ModulatedConv2d.__init__\<close>: \<open>conv_weight\<close> of shape \<open>[out, in, k, k]\<close>, the linear layer
  \<open>style_scale_transform\<close> from \<open>w_dim\<close> to \<open>in\<close>, \<open>eps = 1e-6\<close> and the padding.
\<close>

record ModulatedConv2d =
  conv_weight :: tensor
  style_scale_weight :: tensor
  style_scale_bias :: tensor
  padding :: nat

definition eps :: real where
  "eps = 1 / 1000000"

definition ModulatedConv2d_wf :: "nat \<Rightarrow> nat \<Rightarrow> nat \<Rightarrow> nat \<Rightarrow> ModulatedConv2d \<Rightarrow> bool" where
  "ModulatedConv2d_wf w_dim in_channels out_channels kernel_size M \<longleftrightarrow>
     shape (conv_weight M) = [out_channels, in_channels, kernel_size, kernel_size]
     \<and> wf_tensor (conv_weight M)
     \<and> shape (style_scale_weight M) = [in_channels, w_dim]
     \<and> wf_tensor (style_scale_weight M)
     \<and> shape (style_scale_bias M) = [in_channels]
     \<and> wf_tensor (style_scale_bias M)"

text \<open>
  \<open>self.conv_weight * style_scale[None, :, None, None]\<close> for a style vector of shape
  \<open>[I']\<close>: broadcasting needs \<open>I' = IC\<close> or one of the two to be 1.
\<close>

definition modulate :: "tensor \<Rightarrow> tensor \<Rightarrow> error + tensor" where
  "modulate cw style_scale =
     (case shape cw of
        [OC, IC, KH, KW] \<Rightarrow>
          (case shape style_scale of
             [I'] \<Rightarrow>
               if I' = IC \<or> IC = 1 \<or> I' = 1
               then Inr (tabulate4 OC (max IC I') KH KW
                      (\<lambda>o' c ky kx. at4 cw o' (if IC = 1 then 0 else c) ky kx
                                      * at1 style_scale (if I' = 1 then 0 else c)))
               else Inl RuntimeError
           | _ \<Rightarrow> Inl Unmodelled)
      | _ \<Rightarrow> Inl Unmodelled)"

text \<open>\<open>(w_prime ** 2).sum([1, 2, 3]) + self.eps\<close>, of shape \<open>[OC]\<close>.\<close>

definition demod_denominator :: "tensor \<Rightarrow> error + tensor" where
  "demod_denominator w_prime =
     (case shape w_prime of
        [OC, IC, KH, KW] \<Rightarrow>
          Inr (tabulate1 OC
            (\<lambda>o'. (\<Sum>c\<leftarrow>[0..<IC]. \<Sum>ky\<leftarrow>[0..<KH]. \<Sum>kx\<leftarrow>[0..<KW]. (at4 w_prime o' c ky kx)\<^sup>2)
                   + eps))
      | _ \<Rightarrow> Inl Unmodelled)"

text \<open>\<open>w_prime / torch.sqrt(denominator[:, None, None, None])\<close>.\<close>

definition demodulate :: "tensor \<Rightarrow> error + tensor" where
  "demodulate w_prime =
     bind_err (demod_denominator w_prime) (\<lambda>den.
       case shape w_prime of
         [OC, IC, KH, KW] \<Rightarrow>
           Inr (tabulate4 OC IC KH KW (\<lambda>o' c ky kx. at4 w_prime o' c ky kx / sqrt (at1 den o')))
       | _ \<Rightarrow> Inl Unmodelled)"

text \<open>
  \<open>ModulatedConv2d.forward\<close>: one image and one style vector at a time
  (\<open>for i, w_cur in enumerate(w)\<close>), the outputs appended to \<open>images\<close> and concatenated.
\<close>

fun forward_loop ::
  "ModulatedConv2d \<Rightarrow> tensor \<Rightarrow> tensor \<Rightarrow> nat list \<Rightarrow> tensor list \<Rightarrow> error + tensor list" where
  "forward_loop M img w [] images = Inr images"
| "forward_loop M img w (i # rest) images =
     bind_err (select0 w i) (\<lambda>w_cur.
     bind_err (linear w_cur (style_scale_weight M) (style_scale_bias M)) (\<lambda>style_scale.
     bind_err (modulate (conv_weight M) style_scale) (\<lambda>w_prime.
     bind_err (demodulate w_prime) (\<lambda>w_prime_prime.
     bind_err (select0 img i) (\<lambda>image_i.
     bind_err (conv2d (unsqueeze0 image_i) w_prime_prime None (padding M) 1) (\<lambda>out.
     forward_loop M img w rest (images @ [out])))))))"

definition ModulatedConv2d_forward :: "ModulatedConv2d \<Rightarrow> tensor \<Rightarrow> tensor \<Rightarrow> error + tensor" where
  "ModulatedConv2d_forward M img w =
     (case shape w of
        [b, w_dim] \<Rightarrow> bind_err (forward_loop M img w [0..<b] []) cat0
      | _ \<Rightarrow> Inl Unmodelled)"

text \<open>
  \<open>ModulatedConv2d.forward_efficient\<close>: the whole batch at once. The weights get a batch
  dimension, \<open>[b, OC, IC, KH, KW]\<close>; images and filters are then viewed as one image and one
  filter bank and convolved with \<open>groups = batchsize\<close>. \<open>out_channels\<close> is read from
  \<open>w_prime_prime.shape[2]\<close>, and the result is viewed with the height and width of the
  input image, as the source does.
\<close>

definition modulate_batch :: "tensor \<Rightarrow> tensor \<Rightarrow> error + tensor" where
  "modulate_batch cw style_scale =
     (case shape cw of
        [OC, IC, KH, KW] \<Rightarrow>
          (case shape style_scale of
             [b, I'] \<Rightarrow>
               if I' = IC \<or> IC = 1 \<or> I' = 1
               then Inr (tabulate5 b OC (max IC I') KH KW
                      (\<lambda>n o' c ky kx. at4 cw o' (if IC = 1 then 0 else c) ky kx
                                        * at2 style_scale n (if I' = 1 then 0 else c)))
               else Inl RuntimeError
           | _ \<Rightarrow> Inl IndexError)
      | _ \<Rightarrow> Inl Unmodelled)"

definition demod_denominator_batch :: "tensor \<Rightarrow> error + tensor" where
  "demod_denominator_batch w_prime =
     (case shape w_prime of
        [b, OC, IC, KH, KW] \<Rightarrow>
          Inr (tabulate2 b OC
            (\<lambda>n o'. (\<Sum>c\<leftarrow>[0..<IC]. \<Sum>ky\<leftarrow>[0..<KH]. \<Sum>kx\<leftarrow>[0..<KW]. (at5 w_prime n o' c ky kx)\<^sup>2)
                     + eps))
      | _ \<Rightarrow> Inl Unmodelled)"

definition demodulate_batch :: "tensor \<Rightarrow> error + tensor" where
  "demodulate_batch w_prime =
     bind_err (demod_denominator_batch w_prime) (\<lambda>den.
       case shape w_prime of
         [b, OC, IC, KH, KW] \<Rightarrow>
           Inr (tabulate5 b OC IC KH KW
                  (\<lambda>n o' c ky kx. at5 w_prime n o' c ky kx / sqrt (at2 den n o')))
       | _ \<Rightarrow> Inl Unmodelled)"

definition ModulatedConv2d_forward_efficient ::
  "ModulatedConv2d \<Rightarrow> tensor \<Rightarrow> tensor \<Rightarrow> error + tensor" where
  "ModulatedConv2d_forward_efficient M img w =
     bind_err (linear w (style_scale_weight M) (style_scale_bias M)) (\<lambda>style_scale.
     bind_err (modulate_batch (conv_weight M) style_scale) (\<lambda>w_prime.
     bind_err (demodulate_batch w_prime) (\<lambda>w_prime_prime.
       case shape img of
         [batchsize, in_channels, height, width] \<Rightarrow>
           (let out_channels = shape w_prime_prime ! 2 in
            bind_err (view img [1, batchsize * in_channels, height, width])
              (\<lambda>efficient_image.
            bind_err (view w_prime_prime
                        ([batchsize * out_channels, in_channels] @ drop 3 (shape w_prime_prime)))
              (\<lambda>efficient_filter.
            bind_err (conv2d efficient_image efficient_filter None (padding M) batchsize)
              (\<lambda>efficient_out.
            view efficient_out ([batchsize, out_channels] @ drop 2 (shape img))))))
       | _ \<Rightarrow> Inl ValueError)))"

text \<open>
  The modulated convolution element by element, as the text of the notebook states it:
  the style \<open>s\<close> of sample \<open>i\<close> scales the weights, \<open>w' = s * w\<close>; the weights are
  demodulated, \<open>w'' = w' / sqrt (sum w'\<^sup>2 + eps)\<close>, the sum running over the input channels
  and the kernel; image \<open>i\<close> is convolved with them. The two evaluations of the module
  are compared with it.
\<close>

definition style_scale_at :: "ModulatedConv2d \<Rightarrow> tensor \<Rightarrow> nat \<Rightarrow> nat \<Rightarrow> real" where
  "style_scale_at M w i c =
     (\<Sum>l\<leftarrow>[0..<shape (style_scale_weight M) ! 1]. at2 w i l * at2 (style_scale_weight M) c l)
     + at1 (style_scale_bias M) c"

definition modulated_weight ::
  "ModulatedConv2d \<Rightarrow> tensor \<Rightarrow> nat \<Rightarrow> nat \<Rightarrow> nat \<Rightarrow> nat \<Rightarrow> nat \<Rightarrow> real" where
  "modulated_weight M w i o' c ky kx = at4 (conv_weight M) o' c ky kx * style_scale_at M w i c"

definition demodulated_weight ::
  "ModulatedConv2d \<Rightarrow> tensor \<Rightarrow> nat \<Rightarrow> nat \<Rightarrow> nat \<Rightarrow> nat \<Rightarrow> nat \<Rightarrow> real" where
  "demodulated_weight M w i o' c ky kx =
     modulated_weight M w i o' c ky kx
     / sqrt ((\<Sum>c\<leftarrow>[0..<shape (conv_weight M) ! 1]. \<Sum>ky\<leftarrow>[0..<shape (conv_weight M) ! 2].
                \<Sum>kx\<leftarrow>[0..<shape (conv_weight M) ! 3]. (modulated_weight M w i o' c ky kx)\<^sup>2)
             + eps)"

definition modulated_conv ::
  "ModulatedConv2d \<Rightarrow> tensor \<Rightarrow> tensor \<Rightarrow> nat \<Rightarrow> nat \<Rightarrow> nat \<Rightarrow> nat \<Rightarrow> real" where
  "modulated_conv M img w i o' y x =
     (\<Sum>c\<leftarrow>[0..<shape (conv_weight M) ! 1]. \<Sum>ky\<leftarrow>[0..<shape (conv_weight M) ! 2].
        \<Sum>kx\<leftarrow>[0..<shape (conv_weight M) ! 3].
          padded_at img (padding M) i c (y + ky) (x + kx) * demodulated_weight M w i o' c ky kx)"

text \<open>
  \<open>ModulatedConv2d(w_dim=128, in_channels=3, out_channels=4, kernel_size=3)\<close>, the
  module of the notebook's example with one more output channel, every weight set to one
  and the bias to zero.
\<close>

definition widening_conv :: ModulatedConv2d where
  "widening_conv =
     \<lparr>conv_weight = full [4, 3, 3, 3] 1, style_scale_weight = full [3, 128] 1,
      style_scale_bias = full [3] 0, padding = 1\<rparr>"

section \<open>Layers of the Generative Teaching Network notebook\<close>

text \<open>The notebook's parameters (second code cell).\<close>

definition num_classes :: nat where "num_classes = 10"
definition noise_size :: nat where "noise_size = 64"
definition img_size :: nat where "img_size = 28"
definition inner_loop_iterations :: nat where "inner_loop_iterations = 32"
definition outer_loop_iterations :: nat where "outer_loop_iterations = 5"
definition inner_loop_batch_size :: nat where "inner_loop_batch_size = 128"
definition outer_loop_batch_size :: nat where "outer_loop_batch_size = 128"
definition mnist_mean :: real where "mnist_mean = 1307 / 10000"
definition mnist_std :: real where "mnist_std = 3081 / 10000"

record Linear =
  lin_weight :: tensor
  lin_bias :: tensor

record Conv2d =
  conv_w :: tensor
  conv_b :: tensor

text \<open>
  A batch normalisation layer: the parameters \<open>weight\<close> and \<open>bias\<close>, and the buffers
  \<open>running_mean\<close>, \<open>running_var\<close> and \<open>num_batches_tracked\<close>.
\<close>

record BatchNorm =
  bn_weight :: tensor
  bn_bias :: tensor
  running_mean :: tensor
  running_var :: tensor
  num_batches_tracked :: nat

definition leaky_relu :: "tensor \<Rightarrow> real \<Rightarrow> tensor" where
  "leaky_relu x negative_slope =
     x\<lparr>data := map (\<lambda>v. if 0 \<le> v then v else negative_slope * v) (data x)\<rparr>"

text \<open>\<open>torch.cat([x, y], dim=1)\<close> of two matrices.\<close>

definition cat1 :: "tensor \<Rightarrow> tensor \<Rightarrow> error + tensor" where
  "cat1 x y =
     (case shape x of
        [N, A] \<Rightarrow>
          (case shape y of
             [N', B] \<Rightarrow>
               if N' = N
               then Inr (tabulate2 N (A + B)
                      (\<lambda>n j. if j < A then at2 x n j else at2 y n (j - A)))
               else Inl RuntimeError
           | _ \<Rightarrow> Inl RuntimeError)
      | _ \<Rightarrow> Inl Unmodelled)"

text \<open>
  \<open>x.view(-1, *dims)\<close>: the first dimension is inferred; torch refuses when the number of
  elements is no multiple of the product of \<open>dims\<close>, or when that product is 0.
\<close>

definition view_infer :: "tensor \<Rightarrow> nat list \<Rightarrow> error + tensor" where
  "view_infer t dims =
     (if 0 < prod_list dims \<and> prod_list (shape t) mod prod_list dims = 0
      then Inr (t\<lparr>shape := (prod_list (shape t) div prod_list dims) # dims\<rparr>)
      else Inl RuntimeError)"

text \<open>\<open>torch.flatten(x, 1)\<close>.\<close>

definition flatten1 :: "tensor \<Rightarrow> error + tensor" where
  "flatten1 t =
     (case shape t of
        N # d # rest \<Rightarrow> Inr (t\<lparr>shape := [N, prod_list (d # rest)]\<rparr>)
      | _ \<Rightarrow> Inl IndexError)"

text \<open>\<open>F.max_pool2d(x, k)\<close>: windows of size \<open>k\<close> with stride \<open>k\<close>, no padding.\<close>

fun max_list :: "real list \<Rightarrow> real" where
  "max_list [] = 0"
| "max_list (v # vs) = fold max vs v"

definition max_pool2d :: "tensor \<Rightarrow> nat \<Rightarrow> error + tensor" where
  "max_pool2d x k =
     (case shape x of
        [N, C, H, W] \<Rightarrow>
          if 0 < k \<and> k \<le> H \<and> k \<le> W
          then Inr (tabulate4 N C ((H - k) div k + 1) ((W - k) div k + 1)
                 (\<lambda>n c y x'.
                    max_list (concat (map (\<lambda>dy. map (\<lambda>dx. at4 x n c (y * k + dy) (x' * k + dx))
                                                  [0..<k]) [0..<k]))))
          else Inl RuntimeError
      | _ \<Rightarrow> Inl Unmodelled)"

text \<open>
  Batch normalisation of a module in training mode (\<open>teacher.train()\<close>, \<open>learner.train()\<close>;
  the notebook never switches a module to evaluation mode), with \<open>momentum = 0.1\<close> and the
  default \<open>eps = 1e-5\<close>. The input has shape \<open>N # C # rest\<close>; channel \<open>c\<close> is normalised
  with the mean and the biased variance of its own values in the batch, and the running
  statistics move towards the batch statistics. torch refuses a training batch that
  holds a single value per channel (\<open>Expected more than 1 value per channel when
  training\<close>) before it looks at the parameters. The running statistics are buffers
  the constructor creates with \<open>C\<close> elements and torch only ever updates in place, so
  their shapes are not checked again.
\<close>

definition bn_eps :: real where "bn_eps = 1 / 100000"
definition bn_momentum :: real where "bn_momentum = 1 / 10"

definition channel_of :: "nat list \<Rightarrow> nat \<Rightarrow> nat" where
  "channel_of sh i = (case sh of N # C # rest \<Rightarrow> i div prod_list rest mod C | _ \<Rightarrow> 0)"

definition channel_values :: "tensor \<Rightarrow> nat \<Rightarrow> real list" where
  "channel_values x c =
     map snd (filter (\<lambda>(i, v). channel_of (shape x) i = c)
                (zip [0..<length (data x)] (data x)))"

definition mean :: "real list \<Rightarrow> real" where
  "mean vs = sum_list vs / real (length vs)"

definition var_biased :: "real list \<Rightarrow> real" where
  "var_biased vs = (\<Sum>v\<leftarrow>vs. (v - mean vs)\<^sup>2) / real (length vs)"

definition var_unbiased :: "real list \<Rightarrow> real" where
  "var_unbiased vs = (\<Sum>v\<leftarrow>vs. (v - mean vs)\<^sup>2) / (real (length vs) - 1)"

definition batch_norm_output :: "tensor \<Rightarrow> tensor \<Rightarrow> tensor \<Rightarrow> tensor" where
  "batch_norm_output w b x =
     x\<lparr>data := map (\<lambda>(i, v).
                   (v - mean (channel_values x (channel_of (shape x) i)))
                     / sqrt (var_biased (channel_values x (channel_of (shape x) i)) + bn_eps)
                     * at1 w (channel_of (shape x) i)
                   + at1 b (channel_of (shape x) i))
                (zip [0..<length (data x)] (data x))\<rparr>"

definition batch_norm :: "BatchNorm \<Rightarrow> tensor \<Rightarrow> error + tensor \<times> BatchNorm" where
  "batch_norm bn x =
     (case shape x of
        N # C # rest \<Rightarrow>
          if N * prod_list rest = 1 then Inl ValueError
          else if shape (bn_weight bn) = [C] \<and> shape (bn_bias bn) = [C]
          then Inr (batch_norm_output (bn_weight bn) (bn_bias bn) x,
                    bn\<lparr>running_mean := tabulate1 C (\<lambda>c.
                          (1 - bn_momentum) * at1 (running_mean bn) c
                          + bn_momentum * mean (channel_values x c)),
                       running_var := tabulate1 C (\<lambda>c.
                          (1 - bn_momentum) * at1 (running_var bn) c
                          + bn_momentum * var_unbiased (channel_values x c)),
                       num_batches_tracked := num_batches_tracked bn + 1\<rparr>)
          else Inl RuntimeError
      | _ \<Rightarrow> Inl ValueError)"

text \<open>\<open>nn.BatchNorm1d\<close> takes 2-D or 3-D input, \<open>nn.BatchNorm2d\<close> 4-D input.\<close>

definition BatchNorm1d :: "BatchNorm \<Rightarrow> tensor \<Rightarrow> error + tensor \<times> BatchNorm" where
  "BatchNorm1d bn x =
     (if length (shape x) = 2 \<or> length (shape x) = 3 then batch_norm bn x else Inl ValueError)"

definition BatchNorm2d :: "BatchNorm \<Rightarrow> tensor \<Rightarrow> error + tensor \<times> BatchNorm" where
  "BatchNorm2d bn x = (if length (shape x) = 4 then batch_norm bn x else Inl ValueError)"

text \<open>
  A batch normalisation layer as its constructor leaves it: weight and running variance
  one, bias and running mean zero.
\<close>

definition BatchNorm_init :: "nat \<Rightarrow> BatchNorm" where
  "BatchNorm_init num_features =
     \<lparr>bn_weight = full [num_features] 1, bn_bias = full [num_features] 0,
      running_mean = full [num_features] 0, running_var = full [num_features] 1,
      num_batches_tracked = 0\<rparr>"

definition Linear_forward :: "Linear \<Rightarrow> tensor \<Rightarrow> error + tensor" where
  "Linear_forward l x = linear x (lin_weight l) (lin_bias l)"

text \<open>
  A convolution layer with kernel size 3 and stride 1; \<open>pad\<close> is the padding its
  constructor was given (\<open>3 // 2\<close> in the teacher, none in the learner).
\<close>

definition Conv2d_forward :: "Conv2d \<Rightarrow> nat \<Rightarrow> tensor \<Rightarrow> error + tensor" where
  "Conv2d_forward c pad x = conv2d x (conv_w c) (Some (conv_b c)) pad 1"

section \<open>The teacher (generator)\<close>

text \<open>
  \<open>Teacher.__init__\<close>: two fully connected blocks, two convolutional blocks and the
  two learnable scalars for the learner's optimiser.
\<close>

definition fc1_size :: nat where "fc1_size = 1024"
definition fc2_filters :: nat where "fc2_filters = 128"
definition fc2_width :: nat where "fc2_width = img_size"
definition fc2_size :: nat where "fc2_size = fc2_filters * fc2_width * fc2_width"
definition conv1_filters :: nat where "conv1_filters = 64"

record Teacher =
  learner_optim_params :: tensor
  fc1 :: Linear
  bn_fc1 :: BatchNorm
  fc2 :: Linear
  bn_fc2 :: BatchNorm
  conv1 :: Conv2d
  bn_conv1 :: BatchNorm
  conv2 :: Conv2d
  bn_conv2 :: BatchNorm

definition Linear_wf :: "nat \<Rightarrow> nat \<Rightarrow> Linear \<Rightarrow> bool" where
  "Linear_wf in_features out_features l \<longleftrightarrow>
     shape (lin_weight l) = [out_features, in_features] \<and> wf_tensor (lin_weight l)
     \<and> shape (lin_bias l) = [out_features] \<and> wf_tensor (lin_bias l)"

definition Conv2d_wf :: "nat \<Rightarrow> nat \<Rightarrow> nat \<Rightarrow> Conv2d \<Rightarrow> bool" where
  "Conv2d_wf in_channels out_channels kernel_size c \<longleftrightarrow>
     shape (conv_w c) = [out_channels, in_channels, kernel_size, kernel_size]
     \<and> wf_tensor (conv_w c)
     \<and> shape (conv_b c) = [out_channels] \<and> wf_tensor (conv_b c)"

definition BatchNorm_wf :: "nat \<Rightarrow> BatchNorm \<Rightarrow> bool" where
  "BatchNorm_wf num_features bn \<longleftrightarrow>
     shape (bn_weight bn) = [num_features] \<and> wf_tensor (bn_weight bn)
     \<and> shape (bn_bias bn) = [num_features] \<and> wf_tensor (bn_bias bn)
     \<and> shape (running_mean bn) = [num_features] \<and> wf_tensor (running_mean bn)
     \<and> shape (running_var bn) = [num_features] \<and> wf_tensor (running_var bn)"

text \<open>The shapes \<open>Teacher.__init__\<close> gives the layers.\<close>

definition Teacher_wf :: "Teacher \<Rightarrow> bool" where
  "Teacher_wf T \<longleftrightarrow>
     shape (learner_optim_params T) = [2] \<and> wf_tensor (learner_optim_params T)
     \<and> Linear_wf (noise_size + num_classes) fc1_size (fc1 T)
     \<and> BatchNorm_wf fc1_size (bn_fc1 T)
     \<and> Linear_wf fc1_size fc2_size (fc2 T)
     \<and> BatchNorm_wf fc2_filters (bn_fc2 T)
     \<and> Conv2d_wf fc2_filters conv1_filters 3 (conv1 T)
     \<and> BatchNorm_wf conv1_filters (bn_conv1 T)
     \<and> Conv2d_wf conv1_filters 1 3 (conv2 T)
     \<and> BatchNorm_wf 1 (bn_conv2 T)"

text \<open>
  \<open>Teacher()\<close>: the constructor draws the weights of the linear and convolutional layers
  at random (they are the arguments here) and sets \<open>learner_optim_params\<close> to
  \<open>[0.02, 0.5]\<close>.
\<close>

definition Teacher_init :: "Linear \<Rightarrow> Linear \<Rightarrow> Conv2d \<Rightarrow> Conv2d \<Rightarrow> Teacher" where
  "Teacher_init l1 l2 c1 c2 =
     \<lparr>learner_optim_params = \<lparr>shape = [2], data = [2 / 100, 5 / 10]\<rparr>,
      fc1 = l1, bn_fc1 = BatchNorm_init fc1_size,
      fc2 = l2, bn_fc2 = BatchNorm_init fc2_filters,
      conv1 = c1, bn_conv1 = BatchNorm_init conv1_filters,
      conv2 = c2, bn_conv2 = BatchNorm_init 1\<rparr>"

text \<open>A teacher whose linear and convolutional weights are all zero.\<close>

definition zero_teacher :: Teacher where
  "zero_teacher =
     Teacher_init
       \<lparr>lin_weight = full [fc1_size, noise_size + num_classes] 0, lin_bias = full [fc1_size] 0\<rparr>
       \<lparr>lin_weight = full [fc2_size, fc1_size] 0, lin_bias = full [fc2_size] 0\<rparr>
       \<lparr>conv_w = full [conv1_filters, fc2_filters, 3, 3] 0, conv_b = full [conv1_filters] 0\<rparr>
       \<lparr>conv_w = full [1, conv1_filters, 3, 3] 0, conv_b = full [1] 0\<rparr>"

text \<open>\<open>teacher.parameters()\<close>: the tensors an optimiser may train, without the buffers.\<close>

definition Teacher_parameters :: "Teacher \<Rightarrow> tensor list" where
  "Teacher_parameters T =
     [learner_optim_params T,
      lin_weight (fc1 T), lin_bias (fc1 T), bn_weight (bn_fc1 T), bn_bias (bn_fc1 T),
      lin_weight (fc2 T), lin_bias (fc2 T), bn_weight (bn_fc2 T), bn_bias (bn_fc2 T),
      conv_w (conv1 T), conv_b (conv1 T), bn_weight (bn_conv1 T), bn_bias (bn_conv1 T),
      conv_w (conv2 T), conv_b (conv2 T), bn_weight (bn_conv2 T), bn_bias (bn_conv2 T)]"

text \<open>
  The last line of \<open>Teacher.forward\<close>:
  \<open>(self.tanh(x) + 1 - 2 * mnist_mean) / (2 * mnist_std)\<close>, elementwise.
\<close>

definition tanh_normalize :: "tensor \<Rightarrow> tensor" where
  "tanh_normalize x =
     x\<lparr>data := map (\<lambda>v. (tanh v + 1 - 2 * mnist_mean) / (2 * mnist_std)) (data x)\<rparr>"

text \<open>
  \<open>Teacher.forward(x, target)\<close> returns \<open>(x, target)\<close>; the model also returns the teacher
  with the running statistics its four batch normalisation layers have updated.
\<close>

definition Teacher_forward ::
  "Teacher \<Rightarrow> tensor \<Rightarrow> tensor \<Rightarrow> error + (tensor \<times> tensor) \<times> Teacher" where
  "Teacher_forward T x target =
     bind_err (cat1 x target) (\<lambda>x.
     bind_err (Linear_forward (fc1 T) x) (\<lambda>x.
     bind_err (BatchNorm1d (bn_fc1 T) (leaky_relu x (1 / 10))) (\<lambda>(x, bn_fc1').
     bind_err (Linear_forward (fc2 T) x) (\<lambda>x.
     bind_err (view_infer (leaky_relu x (1 / 10)) [fc2_filters, fc2_width, fc2_width]) (\<lambda>x.
     bind_err (BatchNorm2d (bn_fc2 T) x) (\<lambda>(x, bn_fc2').
     bind_err (Conv2d_forward (conv1 T) (3 div 2) x) (\<lambda>x.
     bind_err (BatchNorm2d (bn_conv1 T) x) (\<lambda>(x, bn_conv1').
     bind_err (Conv2d_forward (conv2 T) (3 div 2) (leaky_relu x (1 / 10))) (\<lambda>x.
     bind_err (BatchNorm2d (bn_conv2 T) x) (\<lambda>(x, bn_conv2').
     Inr ((tanh_normalize x, target),
          T\<lparr>bn_fc1 := bn_fc1', bn_fc2 := bn_fc2',
            bn_conv1 := bn_conv1', bn_conv2 := bn_conv2'\<rparr>)))))))))))"

section \<open>The learner (student classifier)\<close>

record Learner =
  l_conv1 :: Conv2d
  bn1 :: BatchNorm
  l_conv2 :: Conv2d
  bn2 :: BatchNorm
  fc :: Linear
  bn3 :: BatchNorm

text \<open>
  \<open>Learner.__init__(num_conv1=None, num_conv2=None)\<close>: a width that is not given is drawn
  with \<open>np.random.randint\<close>; \<open>r1\<close> and \<open>r2\<close> are the numbers drawn.
\<close>

definition Learner_filters :: "nat option \<Rightarrow> nat option \<Rightarrow> nat \<Rightarrow> nat \<Rightarrow> nat \<times> nat" where
  "Learner_filters num_conv1 num_conv2 r1 r2 =
     (case num_conv1 of None \<Rightarrow> r1 | Some n \<Rightarrow> n,
      case num_conv2 of None \<Rightarrow> r2 | Some n \<Rightarrow> n)"

definition c1_size :: nat where "c1_size = (img_size - 3 + 1) div 2"
definition c2_size :: nat where "c2_size = (c1_size - 3 + 1) div 2"

text \<open>The shapes \<open>Learner.__init__\<close> gives the layers for the two widths.\<close>

definition Learner_wf :: "nat \<times> nat \<Rightarrow> Learner \<Rightarrow> bool" where
  "Learner_wf filters L \<longleftrightarrow>
     Conv2d_wf 1 (fst filters) 3 (l_conv1 L)
     \<and> BatchNorm_wf (fst filters) (bn1 L)
     \<and> Conv2d_wf (fst filters) (snd filters) 3 (l_conv2 L)
     \<and> BatchNorm_wf (snd filters) (bn2 L)
     \<and> Linear_wf (snd filters * c2_size * c2_size) num_classes (fc L)
     \<and> BatchNorm_wf num_classes (bn3 L)"

text \<open>
  \<open>Learner(num_conv1, num_conv2)\<close> for the widths \<open>filters\<close>, with the weights drawn for the
  two convolutions and the linear layer as arguments; and a learner whose weights are
  all zero.
\<close>

definition Learner_init :: "nat \<times> nat \<Rightarrow> Conv2d \<Rightarrow> Conv2d \<Rightarrow> Linear \<Rightarrow> Learner" where
  "Learner_init filters c1 c2 l =
     \<lparr>l_conv1 = c1, bn1 = BatchNorm_init (fst filters),
      l_conv2 = c2, bn2 = BatchNorm_init (snd filters),
      fc = l, bn3 = BatchNorm_init num_classes\<rparr>"

definition zero_learner :: "nat \<times> nat \<Rightarrow> Learner" where
  "zero_learner filters =
     Learner_init filters
       \<lparr>conv_w = full [fst filters, 1, 3, 3] 0, conv_b = full [fst filters] 0\<rparr>
       \<lparr>conv_w = full [snd filters, fst filters, 3, 3] 0, conv_b = full [snd filters] 0\<rparr>
       \<lparr>lin_weight = full [num_classes, snd filters * c2_size * c2_size] 0,
        lin_bias = full [num_classes] 0\<rparr>"

text \<open>\<open>Learner.forward\<close> up to \<open>torch.flatten(x, 1)\<close>, and the whole of it.\<close>

definition Learner_features :: "Learner \<Rightarrow> tensor \<Rightarrow> error + tensor \<times> Learner" where
  "Learner_features L x =
     bind_err (Conv2d_forward (l_conv1 L) 0 x) (\<lambda>x.
     bind_err (BatchNorm2d (bn1 L) (leaky_relu x (1 / 10))) (\<lambda>(x, bn1').
     bind_err (max_pool2d x 2) (\<lambda>x.
     bind_err (Conv2d_forward (l_conv2 L) 0 x) (\<lambda>x.
     bind_err (BatchNorm2d (bn2 L) (leaky_relu x (1 / 10))) (\<lambda>(x, bn2').
     bind_err (max_pool2d x 2) (\<lambda>x.
     bind_err (flatten1 x) (\<lambda>x.
     Inr (x, L\<lparr>bn1 := bn1', bn2 := bn2'\<rparr>))))))))"

definition Learner_forward :: "Learner \<Rightarrow> tensor \<Rightarrow> error + tensor \<times> Learner" where
  "Learner_forward L x =
     bind_err (Learner_features L x) (\<lambda>(x, L').
     bind_err (Linear_forward (fc L') x) (\<lambda>x.
     bind_err (BatchNorm1d (bn3 L') x) (\<lambda>(x, bn3').
     Inr (x, L'\<lparr>bn3 := bn3'\<rparr>))))"

section \<open>The inner loop: unrolled SGD on synthetic data\<close>

text \<open>
  The student enters the loops through \<open>higher\<close>'s functional copy \<open>flearner\<close>: its fast
  weights are one list of reals \<open>\<theta>\<close>, and what torch computes from them is taken as
  given. For a learner with the convolutional widths \<open>arch\<close>:
  \<^item> \<open>loss_value arch \<theta> x y\<close> is \<open>loss_fn(flearner(x), y).item()\<close>;
  \<^item> \<open>loss_grad arch \<theta> x y\<close> is the gradient of that loss with respect to \<open>\<theta>\<close>, which
    \<open>diffopt.step(loss)\<close> asks autograd for;
  \<^item> \<open>correct_count arch \<theta> x y\<close> is \<open>pred.eq(target.view_as(pred)).sum().item()\<close> for
    \<open>pred = flearner(x).argmax(dim=1, keepdim=True)\<close>;
  \<^item> \<open>outer_grad arch T curriculum \<theta>\<^sub>0 real_data k i\<close> is element \<open>i\<close> of the gradient that
    \<open>loss.backward()\<close> leaves on the \<open>k\<close>-th tensor of \<open>params_to_train\<close>, the outer loss
    differentiated through the unrolled inner loop.
\<close>

record autograd =
  loss_value :: "nat \<times> nat \<Rightarrow> real list \<Rightarrow> tensor \<Rightarrow> tensor \<Rightarrow> real"
  loss_grad :: "nat \<times> nat \<Rightarrow> real list \<Rightarrow> tensor \<Rightarrow> tensor \<Rightarrow> real list"
  correct_count :: "nat \<times> nat \<Rightarrow> real list \<Rightarrow> tensor \<Rightarrow> tensor \<Rightarrow> nat"
  outer_grad ::
    "nat \<times> nat \<Rightarrow> Teacher \<Rightarrow> tensor \<Rightarrow> real list \<Rightarrow> tensor \<times> tensor \<Rightarrow> nat \<Rightarrow> nat \<Rightarrow> real"


definition quadratic_student :: autograd where
  "quadratic_student =
     \<lparr>loss_value = (\<lambda>arch \<theta> x y. 25 * (\<Sum>p\<leftarrow>\<theta>. p\<^sup>2)),
      loss_grad = (\<lambda>arch \<theta> x y. map (\<lambda>p. 50 * p) \<theta>),
      correct_count = (\<lambda>arch \<theta> x y. length (data y)),
      outer_grad = (\<lambda>arch T c \<theta> d k i. 0)\<rparr>"

text \<open>
  \<open>label = torch.tensor([x % num_classes for x in range(inner_loop_batch_size)])\<close> and
  \<open>F.one_hot(label, num_classes)\<close>.
\<close>

definition label :: tensor where
  "label = tabulate1 inner_loop_batch_size (\<lambda>x. real (x mod num_classes))"

definition one_hot :: "tensor \<Rightarrow> nat \<Rightarrow> error + tensor" where
  "one_hot l n =
     (case shape l of
        [N] \<Rightarrow>
          if list_all (\<lambda>v. v < real n) (data l)
          then Inr (tabulate2 N n (\<lambda>i j. if at1 l i = real j then 1 else 0))
          else Inl RuntimeError
      | _ \<Rightarrow> Inl Unmodelled)"

text \<open>\<open>t[i].item()\<close> for a vector \<open>t\<close>.\<close>

definition item_at :: "tensor \<Rightarrow> nat \<Rightarrow> error + real" where
  "item_at t i =
     (case shape t of
        [n] \<Rightarrow> if i < n then Inr (at1 t i) else Inl IndexError
      | _ \<Rightarrow> Inl Unmodelled)"

text \<open>
  \<open>optim.SGD(learner.parameters(), lr=..., momentum=...)\<close> refuses a negative learning
  rate and a negative momentum.
\<close>

definition SGD_init :: "real \<Rightarrow> real \<Rightarrow> error + unit" where
  "SGD_init lr momentum = (if lr < 0 \<or> momentum < 0 then Inl ValueError else Inr ())"

text \<open>
  \<open>diffopt.step(loss)\<close> with the gradient \<open>g\<close> of the loss: the update of SGD with
  momentum (no weight decay, no dampening, no Nesterov momentum, as \<open>optim.SGD\<close> was
  built), on the fast weights and the momentum buffer. The buffer does not exist before
  the first step, and is not touched when the momentum is 0.
\<close>

definition diffopt_step ::
  "real \<Rightarrow> real \<Rightarrow> real list \<Rightarrow> real list \<times> real list option \<Rightarrow> real list \<times> real list option" where
  "diffopt_step lr momentum g s =
     (if momentum \<noteq> 0 then
        (let buf = (case snd s of
                      None \<Rightarrow> g
                    | Some b \<Rightarrow> map2 (\<lambda>b g. b * momentum + g) b g)
         in (map2 (\<lambda>p d. p + (- lr) * d) (fst s) buf, Some buf))
      else (map2 (\<lambda>p d. p + (- lr) * d) (fst s) g, snd s))"

text \<open>
  The state of the inner loop: the teacher (its running statistics change with every
  forward pass), the current fast weights and momentum buffer, every snapshot of the
  fast weights so far with the momentum buffer of that time (the initial one first;
  \<open>higher\<close> keeps them all, so that the outer loss can be differentiated through
  them), and \<open>inner_losses\<close>.
\<close>

record inner_state =
  in_teacher :: Teacher
  fast_weights :: "real list"
  momentum_buffer :: "real list option"
  snapshots :: "(real list \<times> real list option) list"
  inner_losses :: "real list"

definition inner_init :: "Teacher \<Rightarrow> real list \<Rightarrow> inner_state" where
  "inner_init T \<theta> =
     \<lparr>in_teacher = T, fast_weights = \<theta>, momentum_buffer = None,
      snapshots = [(\<theta>, None)],
      inner_losses = []\<rparr>"

text \<open>
  The synthetic batch of a step: \<open>teacher(curriculum[step], one_hot)[0]\<close>.
\<close>

definition teacher_output :: "Teacher \<Rightarrow> tensor \<Rightarrow> nat \<Rightarrow> error + tensor" where
  "teacher_output T curriculum step =
     bind_err (select0 curriculum step) (\<lambda>z_vec.
     bind_err (one_hot label num_classes) (\<lambda>one_hot.
     bind_err (Teacher_forward T z_vec one_hot) (\<lambda>r. Inr (fst (fst r)))))"

text \<open>
  One step of \<open>for step in range(inner_loop_iterations)\<close>. \<open>use_curriculum\<close> is \<open>True\<close> in
  the notebook, so \<open>z_vec = curriculum[step]\<close>; the pictures the loop displays are left out.
\<close>

definition inner_step ::
  "autograd \<Rightarrow> nat \<times> nat \<Rightarrow> real \<Rightarrow> real \<Rightarrow> tensor \<Rightarrow> nat \<Rightarrow> inner_state \<Rightarrow> error + inner_state" where
  "inner_step ag arch lr momentum curriculum step s =
     bind_err (select0 curriculum step) (\<lambda>z_vec.
     bind_err (one_hot label num_classes) (\<lambda>one_hot.
     bind_err (Teacher_forward (in_teacher s) z_vec one_hot) (\<lambda>((teacher_output, teacher_target), T').
       let loss = loss_value ag arch (fast_weights s) teacher_output label;
           g = loss_grad ag arch (fast_weights s) teacher_output label;
           s' = diffopt_step lr momentum g (fast_weights s, momentum_buffer s)
       in Inr (s\<lparr>in_teacher := T', fast_weights := fst s', momentum_buffer := snd s',
                 snapshots := snapshots s @ [s'],
                 inner_losses := inner_losses s @ [loss]\<rparr>))))"

fun inner_loop ::
  "autograd \<Rightarrow> nat \<times> nat \<Rightarrow> real \<Rightarrow> real \<Rightarrow> tensor \<Rightarrow> nat list \<Rightarrow> inner_state
   \<Rightarrow> error + inner_state" where
  "inner_loop ag arch lr momentum curriculum [] s = Inr s"
| "inner_loop ag arch lr momentum curriculum (step # steps) s =
     bind_err (inner_step ag arch lr momentum curriculum step s)
       (inner_loop ag arch lr momentum curriculum steps)"

section \<open>The outer loop: training the teacher\<close>


record Adam =
  adam_steps :: nat
  exp_avg :: "nat \<Rightarrow> nat \<Rightarrow> real"
  exp_avg_sq :: "nat \<Rightarrow> nat \<Rightarrow> real"




text \<open>What the cells print (the pictures and the plot are left out).\<close>

datatype message =
  Inner_loop_losses "real list"
  | Train_accuracy real
  | Val_accuracy real
  | Final_test_accuracy real
  | Architecture nat nat nat real
  | Best_architecture nat nat real

text \<open>
  The notebook's global state: the teacher, the curriculum, the teacher's optimiser, the
  gradients on \<open>params_to_train\<close> (\<open>None\<close> after \<open>zero_grad()\<close>), what is left of
  \<open>val_iterator\<close>, the functional learner \<open>flearner\<close> of the last \<open>with\<close> block (\<open>None\<close>
  before the first), the search's \<open>best_accuracy\<close> and \<open>filter_counts\<close> (\<open>None\<close> while the
  name is not bound), and the printed output.
\<close>

record notebook =
  teacher :: Teacher
  curriculum :: tensor
  optimizer_teacher :: Adam
  grads :: "(nat \<Rightarrow> nat \<Rightarrow> real) option"
  val_iterator :: "(tensor \<times> tensor) list"
  flearner :: "inner_state option"
  best_accuracy :: real
  filter_counts :: "(nat \<times> nat) option"
  printed :: "message list"

text \<open>
  What the loops need of the global state: a teacher as its constructor shapes it, a
  curriculum of shape \<open>[inner_loop_iterations, inner_loop_batch_size, noise_size]\<close>, and a
  learning rate and a momentum that \<open>optim.SGD\<close> accepts.
\<close>

definition notebook_wf :: "notebook \<Rightarrow> bool" where
  "notebook_wf s \<longleftrightarrow>
     Teacher_wf (teacher s)
     \<and> shape (curriculum s) = [inner_loop_iterations, inner_loop_batch_size, noise_size]
     \<and> wf_tensor (curriculum s)
     \<and> 0 \<le> at1 (learner_optim_params (teacher s)) 0
     \<and> 0 \<le> at1 (learner_optim_params (teacher s)) 1"

text \<open>
  The state the cell before the training loop leaves: the teacher, the curriculum, a
  fresh optimiser and the iterator over the validation batches.
\<close>

definition notebook_init :: "Teacher \<Rightarrow> tensor \<Rightarrow> (tensor \<times> tensor) list \<Rightarrow> notebook" where
  "notebook_init T c val =
     \<lparr>teacher = T, curriculum = c,
      optimizer_teacher = \<lparr>adam_steps = 0, exp_avg = (\<lambda>k i. 0), exp_avg_sq = (\<lambda>k i. 0)\<rparr>,
      grads = None, val_iterator = val, flearner = None, best_accuracy = 0,
      filter_counts = None, printed = []\<rparr>"

text \<open>
  A source of learners that builds the same one every time: the widths 32 and 64, and
  two weights, 1 and 2.
\<close>

definition same_learner :: "nat \<Rightarrow> (nat \<times> nat) \<times> real list" where
  "same_learner i = ((32, 64), [1, 2])"

text \<open>A batch of blank images, all labelled 0, as a loader yields it.\<close>

definition blank_batch :: "tensor \<times> tensor" where
  "blank_batch =
     (full [outer_loop_batch_size, 1, img_size, img_size] 0, full [outer_loop_batch_size] 0)"


text \<open>
  The correct predictions summed over a pass of a loader, and the accuracy
  \<open>correct / (outer_loop_batch_size * len(loader))\<close>, where \<open>len(loader)\<close> is the number of
  batches of the pass.
\<close>

definition count_correct ::
  "autograd \<Rightarrow> nat \<times> nat \<Rightarrow> real list \<Rightarrow> (tensor \<times> tensor) list \<Rightarrow> nat" where
  "count_correct ag arch \<theta> loader =
     fold (\<lambda>(data, target) correct. correct + correct_count ag arch \<theta> data target) loader 0"

definition loader_accuracy ::
  "autograd \<Rightarrow> nat \<times> nat \<Rightarrow> real list \<Rightarrow> (tensor \<times> tensor) list \<Rightarrow> error + real" where
  "loader_accuracy ag arch \<theta> loader =
     (if outer_loop_batch_size * length loader = 0 then Inl ZeroDivisionError
      else Inr (real (count_correct ag arch \<theta> loader)
                / real (outer_loop_batch_size * length loader)))"

datatype 'a flow = Continue 'a | Break 'a

fun flow_state :: "'a flow \<Rightarrow> 'a" where
  "flow_state (Continue s) = s"
| "flow_state (Break s) = s"

text \<open>
  The body of \<open>for it, real_data in enumerate(train_loader)\<close> up to the end of the \<open>with\<close>
  block. \<open>learners it\<close> is the learner \<open>Learner()\<close> builds in iteration \<open>it\<close>: the two widths
  drawn and the initial weights. \<open>budget\<close> is \<open>outer_loop_iterations\<close>.
\<close>

definition outer_body ::
  "autograd \<Rightarrow> (nat \<Rightarrow> (nat \<times> nat) \<times> real list) \<Rightarrow> (tensor \<times> tensor) list \<Rightarrow> nat \<Rightarrow> nat
   \<Rightarrow> tensor \<times> tensor \<Rightarrow> notebook \<Rightarrow> error + notebook flow" where
  "outer_body ag learners test_loader budget it real_data s0 =
     (let s = s0\<lparr>grads := None\<rparr> in
      bind_err (item_at (learner_optim_params (teacher s)) 0) (\<lambda>learner_lr.
      bind_err (item_at (learner_optim_params (teacher s)) 1) (\<lambda>learner_momentum.
      let arch = Learner_filters None None (fst (fst (learners it))) (snd (fst (learners it)));
          \<theta>\<^sub>0 = snd (learners it) in
      bind_err (SGD_init learner_lr learner_momentum) (\<lambda>_.
      bind_err (inner_loop ag arch learner_lr learner_momentum (curriculum s)
                  [0..<inner_loop_iterations] (inner_init (teacher s) \<theta>\<^sub>0)) (\<lambda>fin.
      let s = s\<lparr>teacher := in_teacher fin, flearner := Some fin\<rparr>;
          \<theta> = fast_weights fin;
          correct = correct_count ag arch \<theta> (fst real_data) (snd real_data) in
      (case shape (snd real_data) of
         [] \<Rightarrow> Inl IndexError
       | n # _ \<Rightarrow>
           if n = 0 then Inl ZeroDivisionError
           else
             (let accuracy_train = real correct / real n;
                  s = s\<lparr>printed := printed s @ [Inner_loop_losses (inner_losses fin),
                                                 Train_accuracy accuracy_train]\<rparr> in
              (case val_iterator s of
                 [] \<Rightarrow> Inl StopIteration
               | val_batch # val_rest \<Rightarrow>
                   (let correct = correct_count ag arch \<theta> (fst val_batch) (snd val_batch);
                        accuracy = real correct / real outer_loop_batch_size;
                        s = s\<lparr>val_iterator := val_rest,
                              printed := printed s @ [Val_accuracy accuracy]\<rparr> in
                    if int it = int budget - 1 then
                      bind_err (loader_accuracy ag arch \<theta> test_loader) (\<lambda>accuracy.
                        Inr (Break (s\<lparr>printed := printed s @ [Final_test_accuracy accuracy]\<rparr>)))
                    else
                      Inr (Continue (s\<lparr>grads :=
                             Some (outer_grad ag arch (teacher s0) (curriculum s0) \<theta>\<^sub>0
                                     real_data)\<rparr>)))))))))))"


section \<open>The architecture search\<close>

text \<open>
  The body of \<open>for i in range(num_architectures)\<close>. \<open>learners i\<close> holds the two widths drawn
  with \<open>np.random.randint(1, 64)\<close> and \<open>np.random.randint(1, 128)\<close> and the initial weights
  of \<open>Learner(conv1_filters, conv2_filters)\<close>; \<open>val_loader i\<close> is the pass over the validation
  set of trial \<open>i\<close>. \<open>learner_lr\<close> and \<open>learner_momentum\<close> are the names the training cell left
  bound to the two elements of \<open>teacher.learner_optim_params\<close>.
\<close>

definition num_architectures :: nat where "num_architectures = 10"

definition nas_body ::
  "autograd \<Rightarrow> (nat \<Rightarrow> (nat \<times> nat) \<times> real list) \<Rightarrow> (nat \<Rightarrow> (tensor \<times> tensor) list)
   \<Rightarrow> (tensor \<times> tensor) list \<Rightarrow> nat \<Rightarrow> nat \<Rightarrow> notebook \<Rightarrow> error + notebook" where
  "nas_body ag learners val_loader test_loader trials i s =
     (let conv1_filters = fst (fst (learners i));
          conv2_filters = snd (fst (learners i));
          arch = Learner_filters (Some conv1_filters) (Some conv2_filters) 0 0;
          \<theta>\<^sub>0 = snd (learners i) in
      bind_err (item_at (learner_optim_params (teacher s)) 0) (\<lambda>learner_lr.
      bind_err (item_at (learner_optim_params (teacher s)) 1) (\<lambda>learner_momentum.
      bind_err (SGD_init learner_lr learner_momentum) (\<lambda>_.
      bind_err (inner_loop ag arch learner_lr learner_momentum (curriculum s)
                  [0..<inner_loop_iterations] (inner_init (teacher s) \<theta>\<^sub>0)) (\<lambda>fin.
      let s = s\<lparr>teacher := in_teacher fin, flearner := Some fin\<rparr>;
          \<theta> = fast_weights fin in
      bind_err (loader_accuracy ag arch \<theta> (val_loader i)) (\<lambda>accuracy.
      let s = (if accuracy > best_accuracy s
               then s\<lparr>best_accuracy := accuracy,
                      filter_counts := Some (conv1_filters, conv2_filters)\<rparr>
               else s);
          s = s\<lparr>printed := printed s @ [Architecture (i + 1) conv1_filters conv2_filters
                                          accuracy]\<rparr> in
      if int i = int trials - 1 then
        bind_err (loader_accuracy ag arch \<theta> test_loader) (\<lambda>accuracy.
          case filter_counts s of
            None \<Rightarrow> Inl NameError
          | Some best \<Rightarrow>
              Inr (s\<lparr>printed := printed s @ [Best_architecture (fst best) (snd best)
                                              accuracy]\<rparr>))
      else Inr s))))))"

fun nas_loop ::
  "autograd \<Rightarrow> (nat \<Rightarrow> (nat \<times> nat) \<times> real list) \<Rightarrow> (nat \<Rightarrow> (tensor \<times> tensor) list)
   \<Rightarrow> (tensor \<times> tensor) list \<Rightarrow> nat \<Rightarrow> nat list \<Rightarrow> notebook \<Rightarrow> error + notebook" where
  "nas_loop ag learners val_loader test_loader trials [] s = Inr s"
| "nas_loop ag learners val_loader test_loader trials (i # rest) s =
     bind_err (nas_body ag learners val_loader test_loader trials i s)
       (nas_loop ag learners val_loader test_loader trials rest)"

text \<open>The search cell: \<open>best_accuracy = 0\<close>, then the loop over \<open>range(num_architectures)\<close>.\<close>

definition nas ::
  "autograd \<Rightarrow> (nat \<Rightarrow> (nat \<times> nat) \<times> real list) \<Rightarrow> (nat \<Rightarrow> (tensor \<times> tensor) list)
   \<Rightarrow> (tensor \<times> tensor) list \<Rightarrow> nat \<Rightarrow> notebook \<Rightarrow> error + notebook" where
  "nas ag learners val_loader test_loader trials s =
     nas_loop ag learners val_loader test_loader trials [0..<trials] (s\<lparr>best_accuracy := 0\<rparr>)"

text \<open>
  What the cell prints, read back: the pairs with their validation accuracy from the
  \<open>Architecture\<close> lines, and the pair of the last \<open>Best architecture\<close> line.
\<close>

fun recorded :: "message list \<Rightarrow> ((nat \<times> nat) \<times> real) list" where
  "recorded [] = []"
| "recorded (Architecture n a b acc # ms) = ((a, b), acc) # recorded ms"
| "recorded (m # ms) = recorded ms"

fun reported :: "message list \<Rightarrow> (nat \<times> nat) option" where
  "reported [] = None"
| "reported (m # ms) =
     (case reported ms of
        Some best \<Rightarrow> Some best
      | None \<Rightarrow> (case m of Best_architecture a b t \<Rightarrow> Some (a, b) | _ \<Rightarrow> None))"

section \<open>Facts about tensors\<close>

lemma shape_tabulate [simp]:
  "shape (tabulate1 N f) = [N]"
  "shape (tabulate2 N M g) = [N, M]"
  "shape (tabulate4 N C H W h) = [N, C, H, W]"
  "shape (tabulate5 B N C H W k) = [B, N, C, H, W]"
  by (simp_all add: tabulate1_def tabulate2_def tabulate4_def tabulate5_def)

lemma wf_tabulate [simp]:
  "wf_tensor (tabulate1 N f)"
  "wf_tensor (tabulate2 N M g)"
  "wf_tensor (tabulate4 N C H W h)"
  "wf_tensor (tabulate5 B N C H W k)"
  by (simp_all add: wf_tensor_def tabulate1_def tabulate2_def tabulate4_def tabulate5_def mult.assoc)

lemma at1_tabulate1 [simp]: "i < N \<Longrightarrow> at1 (tabulate1 N f) i = f i"
  by (simp add: at1_def tabulate1_def)

lemma flat2_less: "i < N \<Longrightarrow> j < M \<Longrightarrow> i * M + j < N * (M::nat)"
proof -
  assume a: "i < N" "j < M"
  then have "i * M + j < i * M + M" by simp
  also have "\<dots> = (Suc i) * M" by simp
  also have "\<dots> \<le> N * M" using a(1) by (intro mult_le_mono1) simp
  finally show ?thesis .
qed

lemma at2_tabulate2 [simp]: "i < N \<Longrightarrow> j < M \<Longrightarrow> at2 (tabulate2 N M f) i j = f i j"
  by (simp add: at2_def tabulate2_def flat2_less)

lemma flat4_less:
  "n < N \<Longrightarrow> c < C \<Longrightarrow> y < H \<Longrightarrow> x < W \<Longrightarrow> ((n * C + c) * H + y) * W + x < N * C * H * (W::nat)"
  by (intro flat2_less) 

lemma flat5_less:
  "b < B \<Longrightarrow> n < N \<Longrightarrow> c < C \<Longrightarrow> y < H \<Longrightarrow> x < W
   \<Longrightarrow> (((b * N + n) * C + c) * H + y) * W + x < B * N * C * H * (W::nat)"
  by (intro flat2_less) 

lemma div_flat: "x < W \<Longrightarrow> (a * W + x) div W = (a::nat)" by simp
lemma mod_flat: "x < W \<Longrightarrow> (a * W + x) mod W = (x::nat)" by simp

lemma div_flat2: "y < H \<Longrightarrow> x < W \<Longrightarrow> ((a * H + y) * W + x) div (H * W) = (a::nat)"
proof -
  assume a: "y < H" "x < W"
  have "((a * H + y) * W + x) div (H * W) = ((a * H + y) * W + x) div W div H"
    using div_mult2_eq [of "(a * H + y) * W + x" W H] by (simp add: mult.commute)
  then show ?thesis using a by simp
qed

lemma div_flat3:
  "c < C \<Longrightarrow> y < H \<Longrightarrow> x < W \<Longrightarrow> (((a * C + c) * H + y) * W + x) div (C * H * W) = (a::nat)"
proof -
  assume a: "c < C" "y < H" "x < W"
  have "(((a * C + c) * H + y) * W + x) div (C * H * W)
        = (((a * C + c) * H + y) * W + x) div (H * W) div C"
    using div_mult2_eq [of "((a * C + c) * H + y) * W + x" "H * W" C]
    by (simp add: mult.commute mult.left_commute)
  then show ?thesis using a by (simp add: div_flat2)
qed

lemma div_flat4:
  "n < N \<Longrightarrow> c < C \<Longrightarrow> y < H \<Longrightarrow> x < W
   \<Longrightarrow> ((((a * N + n) * C + c) * H + y) * W + x) div (N * C * H * W) = (a::nat)"
proof -
  assume a: "n < N" "c < C" "y < H" "x < W"
  have "((((a * N + n) * C + c) * H + y) * W + x) div (N * C * H * W)
        = ((((a * N + n) * C + c) * H + y) * W + x) div (C * H * W) div N"
    using div_mult2_eq [of "(((a * N + n) * C + c) * H + y) * W + x" "C * H * W" N]
    by (simp add: mult.commute mult.left_commute)
  then show ?thesis using a by (simp add: div_flat3)
qed

lemma at4_tabulate4 [simp]:
  "n < N \<Longrightarrow> c < C \<Longrightarrow> y < H \<Longrightarrow> x < W \<Longrightarrow> at4 (tabulate4 N C H W f) n c y x = f n c y x"
  by (simp add: at4_def tabulate4_def flat4_less div_flat2 div_flat3)

lemma at5_tabulate5 [simp]:
  "b < B \<Longrightarrow> n < N \<Longrightarrow> c < C \<Longrightarrow> y < H \<Longrightarrow> x < W
   \<Longrightarrow> at5 (tabulate5 B N C H W f) b n c y x = f b n c y x"
  by (simp add: at5_def tabulate5_def flat5_less div_flat2 div_flat3 div_flat4)

lemma bind_err_Inr_iff:
  "bind_err m f = Inr y \<longleftrightarrow> (\<exists>x. m = Inr x \<and> f x = Inr y)"
  by (cases m) simp_all

section \<open>The demodulation denominator\<close>

lemma sum_list_nonneg_real: "(\<And>x. x \<in> set xs \<Longrightarrow> 0 \<le> f x) \<Longrightarrow> 0 \<le> (\<Sum>x\<leftarrow>xs. (f x :: real))"
  by (induction xs) auto

lemma sum_squares_nonneg:
  "0 \<le> (\<Sum>c\<leftarrow>cs. \<Sum>ky\<leftarrow>kys. \<Sum>kx\<leftarrow>kxs. ((f c ky kx)::real)\<^sup>2)"
  by (intro sum_list_nonneg_real) simp

lemma demod_denominator_elements:
  assumes "demod_denominator w_prime = Inr den" and "d \<in> set (data den)"
  shows "eps \<le> d"
proof -
  from assms(1) obtain OC IC KH KW where sh: "shape w_prime = [OC, IC, KH, KW]"
    by (auto simp: demod_denominator_def split: list.splits)
  with assms(1) have den: "den = tabulate1 OC
      (\<lambda>o'. (\<Sum>c\<leftarrow>[0..<IC]. \<Sum>ky\<leftarrow>[0..<KH]. \<Sum>kx\<leftarrow>[0..<KW]. (at4 w_prime o' c ky kx)\<^sup>2) + eps)"
    by (simp add: demod_denominator_def)
  from assms(2) obtain o' where
    "d = (\<Sum>c\<leftarrow>[0..<IC]. \<Sum>ky\<leftarrow>[0..<KH]. \<Sum>kx\<leftarrow>[0..<KW]. (at4 w_prime o' c ky kx)\<^sup>2) + eps"
    unfolding den tabulate1_def by auto
  then show ?thesis using sum_squares_nonneg [of "at4 w_prime o'"] by simp
qed

lemma modulate_shape:
  assumes "modulate cw style_scale = Inr w_prime"
  shows "\<exists>OC IC KH KW. shape w_prime = [OC, IC, KH, KW]"
  using assms by (auto simp: modulate_def split: list.splits if_splits)

text \<open>
  C4. For every \<open>conv_weight\<close> and every style-scale vector the loop of
  \<open>ModulatedConv2d.forward\<close> can multiply, the demodulation denominator
  \<open>(w_prime ** 2).sum([1, 2, 3]) + eps\<close> exists and every element of it is strictly
  positive (at least \<open>eps = 1e-6\<close>), as is its square root, the divisor of \<open>w_prime_prime\<close>.
\<close>

theorem demod_denominator_positive:
  assumes "modulate cw style_scale = Inr w_prime"
  shows "\<exists>den. demod_denominator w_prime = Inr den
           \<and> (\<forall>d \<in> set (data den). 0 < d \<and> 0 < sqrt d \<and> eps \<le> d)
           \<and> eps = 1 / 10 ^ 6"
proof -
  from modulate_shape [OF assms] obtain OC IC KH KW where "shape w_prime = [OC, IC, KH, KW]"
    by blast
  then obtain den where den: "demod_denominator w_prime = Inr den"
    by (simp add: demod_denominator_def)
  have "0 < eps" by (simp add: eps_def)
  then have "\<forall>d \<in> set (data den). 0 < d \<and> 0 < sqrt d \<and> eps \<le> d"
    using demod_denominator_elements [OF den] by fastforce
  with den show ?thesis by (simp add: eps_def)
qed

text \<open>
  The witness: a \<open>1 \<times> 1 \<times> 1 \<times> 1\<close> weight that is zero, where the sum of squares vanishes and
  only \<open>eps\<close> keeps the denominator away from zero.
\<close>

theorem demod_denominator_positive_witness:
  "modulate \<lparr>shape = [1, 1, 1, 1], data = [0]\<rparr> \<lparr>shape = [1], data = [3]\<rparr>
     = Inr (tabulate4 1 1 1 1
         (\<lambda>o' c ky kx. at4 \<lparr>shape = [1, 1, 1, 1], data = [0]\<rparr> o' 0 ky kx
                          * at1 \<lparr>shape = [1], data = [3]\<rparr> 0))
   \<and> (\<exists>den. demod_denominator (tabulate4 1 1 1 1
         (\<lambda>o' c ky kx. at4 \<lparr>shape = [1, 1, 1, 1], data = [0]\<rparr> o' 0 ky kx
                          * at1 \<lparr>shape = [1], data = [3]\<rparr> 0)) = Inr den
        \<and> (\<forall>d \<in> set (data den). 0 < d \<and> 0 < sqrt d \<and> eps \<le> d)
        \<and> eps = 1 / 10 ^ 6)"
proof -
  have m: "modulate \<lparr>shape = [1, 1, 1, 1], data = [0]\<rparr> \<lparr>shape = [1], data = [3]\<rparr>
     = Inr (tabulate4 1 1 1 1
         (\<lambda>o' c ky kx. at4 \<lparr>shape = [1, 1, 1, 1], data = [0]\<rparr> o' 0 ky kx
                          * at1 \<lparr>shape = [1], data = [3]\<rparr> 0))"
    by (simp add: modulate_def)
  from demod_denominator_positive [OF m] m show ?thesis by blast
qed

section \<open>Shapes through the layers\<close>

lemma cat1_ok:
  assumes "shape x = [N, A]" and "shape y = [N, B]"
  obtains z where "cat1 x y = Inr z" and "shape z = [N, A + B]" and "wf_tensor z"
  using assms by (simp add: cat1_def)

lemma linear_ok:
  assumes "shape x = [n, k]" and "shape W = [m, k]" and "shape b = [m]"
  obtains z where "linear x W b = Inr z" and "shape z = [n, m]" and "wf_tensor z"
  using assms by (simp add: linear_def)

lemma linear_vector_ok:
  assumes "shape x = [k]" and "shape W = [m, k]" and "shape b = [m]"
  obtains z where "linear x W b = Inr z" and "shape z = [m]" and "wf_tensor z"
  using assms by (simp add: linear_def)

lemma Linear_forward_ok:
  assumes "Linear_wf k m l" and "shape x = [n, k]"
  obtains z where "Linear_forward l x = Inr z" and "shape z = [n, m]" and "wf_tensor z"
  using assms linear_ok [of x n k "lin_weight l" m "lin_bias l"]
  by (auto simp: Linear_wf_def Linear_forward_def)

lemma leaky_relu_shape [simp]: "shape (leaky_relu x a) = shape x"
  by (simp add: leaky_relu_def)

lemma leaky_relu_wf [simp]: "wf_tensor (leaky_relu x a) = wf_tensor x"
  by (simp add: leaky_relu_def wf_tensor_def)

lemma batch_norm_output_shape [simp]: "shape (batch_norm_output w b x) = shape x"
  by (simp add: batch_norm_output_def)

lemma batch_norm_output_wf [simp]: "wf_tensor (batch_norm_output w b x) = wf_tensor x"
  by (simp add: batch_norm_output_def wf_tensor_def)

lemma batch_norm_ok:
  assumes "BatchNorm_wf C bn" and "shape x = N # C # rest" and "N * prod_list rest \<noteq> 1"
  obtains y bn' where "batch_norm bn x = Inr (y, bn')"
    and "y = batch_norm_output (bn_weight bn) (bn_bias bn) x"
    and "BatchNorm_wf C bn'"
    and "bn_weight bn' = bn_weight bn" and "bn_bias bn' = bn_bias bn"
  using assms by (simp add: batch_norm_def BatchNorm_wf_def)

lemma batch_norm_single_value:
  assumes "shape x = N # C # rest" and "N * prod_list rest = 1"
  shows "batch_norm bn x = Inl ValueError"
  using assms by (simp add: batch_norm_def)

lemma view_infer_ok:
  assumes "prod_list (shape t) = n * prod_list dims" and "0 < prod_list dims"
  obtains z where "view_infer t dims = Inr z" and "shape z = n # dims" and "data z = data t"
proof -
  have "view_infer t dims = Inr (t\<lparr>shape := n # dims\<rparr>)"
    using assms by (simp add: view_infer_def)
  then show thesis by (rule that) simp_all
qed

lemma conv2d_ok:
  assumes "shape x = [N, C, H, W]" and "shape w = [OC, C, KH, KW]" and "shape b = [OC]"
    and "KH \<le> H + 2 * p" and "KW \<le> W + 2 * p"
  obtains z where "conv2d x w (Some b) p 1 = Inr z"
    and "shape z = [N, OC, H + 2 * p - KH + 1, W + 2 * p - KW + 1]" and "wf_tensor z"
  using assms by (simp add: conv2d_def)

lemma Conv2d_forward_ok:
  assumes "Conv2d_wf C OC k c" and "shape x = [N, C, H, W]"
    and "k \<le> H + 2 * p" and "k \<le> W + 2 * p"
  obtains z where "Conv2d_forward c p x = Inr z"
    and "shape z = [N, OC, H + 2 * p - k + 1, W + 2 * p - k + 1]" and "wf_tensor z"
  using assms conv2d_ok [of x N C H W "conv_w c" OC k k "conv_b c" p]
  by (auto simp: Conv2d_wf_def Conv2d_forward_def)

lemma max_pool2d_ok:
  assumes "shape x = [N, C, H, W]" and "0 < k" and "k \<le> H" and "k \<le> W"
  obtains z where "max_pool2d x k = Inr z"
    and "shape z = [N, C, (H - k) div k + 1, (W - k) div k + 1]" and "wf_tensor z"
  using assms by (simp add: max_pool2d_def)

lemma flatten1_ok:
  assumes "shape x = [N, C, H, W]" and "wf_tensor x"
  obtains z where "flatten1 x = Inr z" and "shape z = [N, C * H * W]" and "wf_tensor z"
  using assms by (simp add: flatten1_def wf_tensor_def mult.assoc)

lemma tanh_normalize_shape [simp]: "shape (tanh_normalize x) = shape x"
  by (simp add: tanh_normalize_def)

lemma tanh_normalize_wf [simp]: "wf_tensor (tanh_normalize x) = wf_tensor x"
  by (simp add: tanh_normalize_def wf_tensor_def)


section \<open>The teacher's forward pass\<close>

lemma BatchNorm1d_matrix:
  "shape x = [N, C] \<Longrightarrow> BatchNorm1d bn x = batch_norm bn x"
  by (simp add: BatchNorm1d_def)

lemma BatchNorm2d_images:
  "shape x = [N, C, H, W] \<Longrightarrow> BatchNorm2d bn x = batch_norm bn x"
  by (simp add: BatchNorm2d_def)

lemma images_not_single_value: "2 \<le> b \<Longrightarrow> (b::nat) * prod_list rest \<noteq> 1"
  by simp

text \<open>
  On a well-formed teacher and a batch of at least two noise vectors with their labels,
  the forward pass goes through every layer: it returns a normalised \<open>tanh\<close> image of
  shape \<open>[b, 1, img_size, img_size]\<close> and leaves a well-formed teacher with the same
  parameters.
\<close>

lemma Teacher_forward_ok:
  assumes wf: "Teacher_wf T"
    and x: "shape x = [b, noise_size]"
    and t: "shape target = [b, num_classes]"
    and b: "2 \<le> b"
  obtains y T' where "Teacher_forward T x target = Inr ((tanh_normalize y, target), T')"
    and "shape y = [b, 1, img_size, img_size]" and "wf_tensor y"
    and "Teacher_wf T'" and "Teacher_parameters T' = Teacher_parameters T"
proof -
  from wf have fc1: "Linear_wf (noise_size + num_classes) fc1_size (fc1 T)"
    and bn_fc1: "BatchNorm_wf fc1_size (bn_fc1 T)"
    and fc2: "Linear_wf fc1_size fc2_size (fc2 T)"
    and bn_fc2: "BatchNorm_wf fc2_filters (bn_fc2 T)"
    and conv1: "Conv2d_wf fc2_filters conv1_filters 3 (conv1 T)"
    and bn_conv1: "BatchNorm_wf conv1_filters (bn_conv1 T)"
    and conv2: "Conv2d_wf conv1_filters 1 3 (conv2 T)"
    and bn_conv2: "BatchNorm_wf 1 (bn_conv2 T)"
    and lop: "shape (learner_optim_params T) = [2]" "wf_tensor (learner_optim_params T)"
    by (simp_all add: Teacher_wf_def)
  note single = images_not_single_value [OF b]
  obtain x1 where x1: "cat1 x target = Inr x1" "shape x1 = [b, noise_size + num_classes]"
    using cat1_ok [OF x t] by blast
  obtain x2 where x2: "Linear_forward (fc1 T) x1 = Inr x2" "shape x2 = [b, fc1_size]"
    "wf_tensor x2"
    using Linear_forward_ok [OF fc1 x1(2)] by blast
  have s2: "shape (leaky_relu x2 (1 / 10)) = [b, fc1_size]" by (simp add: x2)
  obtain x3 b1 where x3: "batch_norm (bn_fc1 T) (leaky_relu x2 (1 / 10)) = Inr (x3, b1)"
    "x3 = batch_norm_output (bn_weight (bn_fc1 T)) (bn_bias (bn_fc1 T)) (leaky_relu x2 (1 / 10))"
    "BatchNorm_wf fc1_size b1" "bn_weight b1 = bn_weight (bn_fc1 T)"
    "bn_bias b1 = bn_bias (bn_fc1 T)"
    using batch_norm_ok [OF bn_fc1 s2 single] by blast
  have s3: "shape x3 = [b, fc1_size]" by (simp add: x3(2) x2)
  obtain x4 where x4: "Linear_forward (fc2 T) x3 = Inr x4" "shape x4 = [b, fc2_size]"
    "wf_tensor x4"
    using Linear_forward_ok [OF fc2 s3] by blast
  have "prod_list (shape (leaky_relu x4 (1 / 10)))
          = b * prod_list [fc2_filters, fc2_width, fc2_width]"
    by (simp add: x4 fc2_size_def)
  moreover have "0 < prod_list [fc2_filters, fc2_width, fc2_width]"
    by (simp add: fc2_filters_def fc2_width_def img_size_def)
  ultimately obtain x5 where
    x5: "view_infer (leaky_relu x4 (1 / 10)) [fc2_filters, fc2_width, fc2_width] = Inr x5"
      "shape x5 = [b, fc2_filters, fc2_width, fc2_width]"
      "data x5 = data (leaky_relu x4 (1 / 10))"
    using view_infer_ok by blast
  have w5: "wf_tensor x5"
    using x4 x5 by (simp add: wf_tensor_def leaky_relu_def fc2_size_def mult.assoc)
  obtain x6 b2 where x6: "batch_norm (bn_fc2 T) x5 = Inr (x6, b2)"
    "x6 = batch_norm_output (bn_weight (bn_fc2 T)) (bn_bias (bn_fc2 T)) x5"
    "BatchNorm_wf fc2_filters b2" "bn_weight b2 = bn_weight (bn_fc2 T)"
    "bn_bias b2 = bn_bias (bn_fc2 T)"
    using batch_norm_ok [OF bn_fc2 x5(2) single] by blast
  have s6: "shape x6 = [b, fc2_filters, fc2_width, fc2_width]" by (simp add: x6(2) x5)
  have k: "3 \<le> fc2_width + 2 * (3 div 2)" by (simp add: fc2_width_def img_size_def)
  have same: "fc2_width + 2 * (3 div 2) - 3 + 1 = img_size"
    by (simp add: fc2_width_def img_size_def)
  obtain x7 where x7: "Conv2d_forward (conv1 T) (3 div 2) x6 = Inr x7"
    "shape x7 = [b, conv1_filters, img_size, img_size]" "wf_tensor x7"
    using Conv2d_forward_ok [OF conv1 s6 k k] unfolding same by blast
  obtain x8 b3 where x8: "batch_norm (bn_conv1 T) x7 = Inr (x8, b3)"
    "x8 = batch_norm_output (bn_weight (bn_conv1 T)) (bn_bias (bn_conv1 T)) x7"
    "BatchNorm_wf conv1_filters b3" "bn_weight b3 = bn_weight (bn_conv1 T)"
    "bn_bias b3 = bn_bias (bn_conv1 T)"
    using batch_norm_ok [OF bn_conv1 x7(2) single] by blast
  have s8: "shape (leaky_relu x8 (1 / 10)) = [b, conv1_filters, img_size, img_size]"
    by (simp add: x8(2) x7)
  have k': "3 \<le> img_size + 2 * (3 div 2)" by (simp add: img_size_def)
  have same': "img_size + 2 * (3 div 2) - 3 + 1 = img_size"
    by (simp add: img_size_def)
  obtain x9 where x9: "Conv2d_forward (conv2 T) (3 div 2) (leaky_relu x8 (1 / 10)) = Inr x9"
    "shape x9 = [b, 1, img_size, img_size]" "wf_tensor x9"
    using Conv2d_forward_ok [OF conv2 s8 k' k'] unfolding same' by blast
  obtain x10 b4 where x10: "batch_norm (bn_conv2 T) x9 = Inr (x10, b4)"
    "x10 = batch_norm_output (bn_weight (bn_conv2 T)) (bn_bias (bn_conv2 T)) x9"
    "BatchNorm_wf 1 b4" "bn_weight b4 = bn_weight (bn_conv2 T)"
    "bn_bias b4 = bn_bias (bn_conv2 T)"
    using batch_norm_ok [OF bn_conv2 x9(2) single] by blast
  let ?T' = "T\<lparr>bn_fc1 := b1, bn_fc2 := b2, bn_conv1 := b3, bn_conv2 := b4\<rparr>"
  have pad: "(3::nat) div 2 = Suc 0" by simp
  have "Teacher_forward T x target = Inr ((tanh_normalize x10, target), ?T')"
    by (simp add: Teacher_forward_def x1 x2 x3(1) x4 x5 x6(1) x7(1) [unfolded pad] x8(1)
        x9(1) [unfolded pad] x10(1)
        BatchNorm1d_matrix [OF s2] BatchNorm2d_images [OF x5(2)]
        BatchNorm2d_images [OF x7(2)] BatchNorm2d_images [OF x9(2)])
  moreover have "shape x10 = [b, 1, img_size, img_size]" by (simp add: x10(2) x9)
  moreover have "wf_tensor x10" by (simp add: x10(2) x9)
  moreover have "Teacher_wf ?T'"
    using fc1 fc2 conv1 conv2 lop x3(3) x6(3) x8(3) x10(3) by (simp add: Teacher_wf_def)
  moreover have "Teacher_parameters ?T' = Teacher_parameters T"
    by (simp add: Teacher_parameters_def x3 x6 x8 x10)
  ultimately show thesis by (rule that)
qed

lemma full_shape [simp]: "shape (full sh v) = sh"
  by (simp add: full_def)

lemma full_wf [simp]: "wf_tensor (full sh v)"
  by (simp add: full_def wf_tensor_def)

lemma BatchNorm_init_wf [simp]: "BatchNorm_wf n (BatchNorm_init n)"
  by (simp add: BatchNorm_wf_def BatchNorm_init_def)

lemma zero_teacher_wf: "Teacher_wf zero_teacher"
  by (simp add: Teacher_wf_def zero_teacher_def Teacher_init_def Linear_wf_def Conv2d_wf_def)
      (simp add: wf_tensor_def)





section \<open>The teacher's output is a function of its parameters and its input\<close>

lemma bind_err_same_source:
  assumes "\<And>y. m = Inr y \<Longrightarrow> map_sum id fst (f1 y) = map_sum id fst (f2 y)"
  shows "map_sum id fst (bind_err m f1) = map_sum id fst (bind_err m f2)"
  using assms by (cases m) simp_all

lemma bind_err_same_output:
  assumes "map_sum id fst m1 = map_sum id fst m2"
    and "\<And>y b1 b2. m1 = Inr (y, b1) \<Longrightarrow> m2 = Inr (y, b2)
           \<Longrightarrow> map_sum id fst (f1 (y, b1)) = map_sum id fst (f2 (y, b2))"
  shows "map_sum id fst (bind_err m1 f1) = map_sum id fst (bind_err m2 f2)"
proof (cases m1)
  case (Inl e)
  with assms(1) have "m2 = Inl e" by (cases m2) simp_all
  with Inl show ?thesis by simp
next
  case (Inr r)
  with assms(1) obtain b2 where "m2 = Inr (fst r, b2)"
    by (cases m2) (auto simp: prod_eq_iff)
  with Inr assms(2) [of "fst r" "snd r" b2] show ?thesis by simp
qed

lemma batch_norm_same_output:
  assumes "bn_weight bnA = bn_weight bnB" and "bn_bias bnA = bn_bias bnB"
  shows "map_sum id fst (batch_norm bnA x) = map_sum id fst (batch_norm bnB x)"
  using assms by (auto simp: batch_norm_def split: list.splits)

lemma BatchNorm1d_same_output:
  assumes "bn_weight bnA = bn_weight bnB" and "bn_bias bnA = bn_bias bnB"
  shows "map_sum id fst (BatchNorm1d bnA x) = map_sum id fst (BatchNorm1d bnB x)"
  using batch_norm_same_output [OF assms] by (simp add: BatchNorm1d_def)

lemma BatchNorm2d_same_output:
  assumes "bn_weight bnA = bn_weight bnB" and "bn_bias bnA = bn_bias bnB"
  shows "map_sum id fst (BatchNorm2d bnA x) = map_sum id fst (BatchNorm2d bnB x)"
  using batch_norm_same_output [OF assms] by (simp add: BatchNorm2d_def)

lemma Teacher_forward_same_output:
  assumes "Teacher_parameters T1 = Teacher_parameters T2"
  shows "map_sum id fst (Teacher_forward T1 x target)
         = map_sum id fst (Teacher_forward T2 x target)"
proof -
  from assms have fc1: "Linear_forward (fc1 T1) = Linear_forward (fc1 T2)"
    and fc2: "Linear_forward (fc2 T1) = Linear_forward (fc2 T2)"
    and conv1: "Conv2d_forward (conv1 T1) = Conv2d_forward (conv1 T2)"
    and conv2: "Conv2d_forward (conv2 T1) = Conv2d_forward (conv2 T2)"
    by (simp_all add: Teacher_parameters_def Linear_forward_def Conv2d_forward_def fun_eq_iff)
  from assms have bn_fc1: "bn_weight (bn_fc1 T1) = bn_weight (bn_fc1 T2)"
      "bn_bias (bn_fc1 T1) = bn_bias (bn_fc1 T2)"
    and bn_fc2: "bn_weight (bn_fc2 T1) = bn_weight (bn_fc2 T2)"
      "bn_bias (bn_fc2 T1) = bn_bias (bn_fc2 T2)"
    and bn_conv1: "bn_weight (bn_conv1 T1) = bn_weight (bn_conv1 T2)"
      "bn_bias (bn_conv1 T1) = bn_bias (bn_conv1 T2)"
    and bn_conv2: "bn_weight (bn_conv2 T1) = bn_weight (bn_conv2 T2)"
      "bn_bias (bn_conv2 T1) = bn_bias (bn_conv2 T2)"
    by (simp_all add: Teacher_parameters_def)
  show ?thesis
    unfolding Teacher_forward_def fc1 fc2 conv1 conv2
    apply (rule bind_err_same_source)
    apply (rule bind_err_same_source)
    apply (rule bind_err_same_output [OF BatchNorm1d_same_output [OF bn_fc1]])
    apply (simp only: prod.case)
    apply (rule bind_err_same_source)
    apply (rule bind_err_same_source)
    apply (rule bind_err_same_output [OF BatchNorm2d_same_output [OF bn_fc2]])
    apply (simp only: prod.case)
    apply (rule bind_err_same_source)
    apply (rule bind_err_same_output [OF BatchNorm2d_same_output [OF bn_conv1]])
    apply (simp only: prod.case)
    apply (rule bind_err_same_source)
    apply (rule bind_err_same_output [OF BatchNorm2d_same_output [OF bn_conv2]])
    apply simp
    done
qed

text \<open>
  C8. The image batch \<open>Teacher.forward\<close> returns is a function of the teacher's parameter
  tensors and of its inputs alone: two teachers with the same parameters, whatever their
  running statistics, return the same result (or fail alike) on the same noise and
  labels. The forward pass takes no random input.
\<close>

theorem Teacher_forward_pure:
  assumes "Teacher_parameters T1 = Teacher_parameters T2"
  shows "map_sum id fst (Teacher_forward T1 x target)
         = map_sum id fst (Teacher_forward T2 x target)"
  using assms by (rule Teacher_forward_same_output)

text \<open>
  The witness: the zero teacher before and after a change of a running mean, on two
  noise vectors; both passes succeed.
\<close>

theorem Teacher_forward_pure_witness:
  "Teacher_parameters zero_teacher
     = Teacher_parameters
         (zero_teacher\<lparr>bn_fc1 := (bn_fc1 zero_teacher)\<lparr>running_mean := full [fc1_size] 7\<rparr>\<rparr>)
   \<and> map_sum id fst (Teacher_forward zero_teacher (full [2, noise_size] 0)
                       (full [2, num_classes] 0))
     = map_sum id fst
         (Teacher_forward
            (zero_teacher\<lparr>bn_fc1 := (bn_fc1 zero_teacher)\<lparr>running_mean := full [fc1_size] 7\<rparr>\<rparr>)
            (full [2, noise_size] 0) (full [2, num_classes] 0))
   \<and> (\<exists>r. Teacher_forward zero_teacher (full [2, noise_size] 0) (full [2, num_classes] 0)
            = Inr r)"
proof -
  have p: "Teacher_parameters zero_teacher
     = Teacher_parameters
         (zero_teacher\<lparr>bn_fc1 := (bn_fc1 zero_teacher)\<lparr>running_mean := full [fc1_size] 7\<rparr>\<rparr>)"
    by (simp add: Teacher_parameters_def)
  obtain y T' where
    "Teacher_forward zero_teacher (full [2, noise_size] 0) (full [2, num_classes] 0)
       = Inr ((tanh_normalize y, full [2, num_classes] 0), T')"
    by (rule Teacher_forward_ok [OF zero_teacher_wf, of "full [2, noise_size] 0" 2
          "full [2, num_classes] 0"]) simp_all
  then have "\<exists>r. Teacher_forward zero_teacher (full [2, noise_size] 0)
                 (full [2, num_classes] 0) = Inr r"
    by blast
  with p Teacher_forward_pure [OF p] show ?thesis by blast
qed

section \<open>The learner's forward pass\<close>

lemma c1_size_eq: "c1_size = 13"
  by (simp add: c1_size_def img_size_def)

lemma c2_size_eq: "c2_size = 5"
  by (simp add: c2_size_def c1_size_eq)

lemma feature_maps_not_single_value:
  "(b::nat) * prod_list [26, 26] \<noteq> 1" "(b::nat) * prod_list [11, 11] \<noteq> 1"
  by simp_all

text \<open>
  The convolutional part on \<open>b \<ge> 1\<close> images of \<open>28 \<times> 28\<close> pixels: the second pooled output
  has \<open>c2_size \<times> c2_size\<close> pixels in each of the \<open>conv2_filters\<close> channels, so that its
  flattened width is the input width \<open>__init__\<close> gave the linear layer.
\<close>

lemma Learner_features_ok:
  assumes wf: "Learner_wf filters L"
    and x: "shape x = [b, 1, img_size, img_size]"
    and b: "0 < b"
  obtains feat L' where "Learner_features L x = Inr (feat, L')"
    and "shape feat = [b, snd filters * c2_size * c2_size]" and "wf_tensor feat"
    and "fc L' = fc L" and "bn3 L' = bn3 L"
proof -
  from wf have conv1: "Conv2d_wf 1 (fst filters) 3 (l_conv1 L)"
    and bn1: "BatchNorm_wf (fst filters) (bn1 L)"
    and conv2: "Conv2d_wf (fst filters) (snd filters) 3 (l_conv2 L)"
    and bn2: "BatchNorm_wf (snd filters) (bn2 L)"
    by (simp_all add: Learner_wf_def)
  have k: "3 \<le> img_size + 2 * 0" by (simp add: img_size_def)
  have h1: "img_size + 2 * 0 - 3 + 1 = 26" by (simp add: img_size_def)
  obtain x1 where x1: "Conv2d_forward (l_conv1 L) 0 x = Inr x1"
    "shape x1 = [b, fst filters, 26, 26]" "wf_tensor x1"
    using Conv2d_forward_ok [OF conv1 x k k] unfolding h1 by blast
  have s1: "shape (leaky_relu x1 (1 / 10)) = [b, fst filters, 26, 26]" by (simp add: x1)
  obtain x2 b1 where x2: "batch_norm (bn1 L) (leaky_relu x1 (1 / 10)) = Inr (x2, b1)"
    "x2 = batch_norm_output (bn_weight (bn1 L)) (bn_bias (bn1 L)) (leaky_relu x1 (1 / 10))"
    using batch_norm_ok [OF bn1 s1 feature_maps_not_single_value(1)] by blast
  have s2: "shape x2 = [b, fst filters, 26, 26]" by (simp add: x2(2) x1)
  have h2: "(26 - 2) div 2 + 1 = (13::nat)" by simp
  obtain x3 where x3: "max_pool2d x2 2 = Inr x3" "shape x3 = [b, fst filters, 13, 13]"
    using max_pool2d_ok [OF s2, of 2] unfolding h2 by auto
  have k3: "(3::nat) \<le> 13 + 2 * 0" by simp
  have h3: "13 + 2 * 0 - 3 + 1 = (11::nat)" by simp
  obtain x4 where x4: "Conv2d_forward (l_conv2 L) 0 x3 = Inr x4"
    "shape x4 = [b, snd filters, 11, 11]" "wf_tensor x4"
    using Conv2d_forward_ok [OF conv2 x3(2) k3 k3] unfolding h3 by blast
  have s4: "shape (leaky_relu x4 (1 / 10)) = [b, snd filters, 11, 11]" by (simp add: x4)
  obtain x5 b2 where x5: "batch_norm (bn2 L) (leaky_relu x4 (1 / 10)) = Inr (x5, b2)"
    "x5 = batch_norm_output (bn_weight (bn2 L)) (bn_bias (bn2 L)) (leaky_relu x4 (1 / 10))"
    using batch_norm_ok [OF bn2 s4 feature_maps_not_single_value(2)] by blast
  have s5: "shape x5 = [b, snd filters, 11, 11]" by (simp add: x5(2) x4)
  have h5: "(11 - 2) div 2 + 1 = (5::nat)" by simp
  obtain x6 where x6: "max_pool2d x5 2 = Inr x6" "shape x6 = [b, snd filters, 5, 5]"
    "wf_tensor x6"
    using max_pool2d_ok [OF s5, of 2] unfolding h5 by auto
  obtain x7 where x7: "flatten1 x6 = Inr x7" "shape x7 = [b, snd filters * 5 * 5]"
    "wf_tensor x7"
    using flatten1_ok [OF x6(2,3)] by blast
  let ?L' = "L\<lparr>bn1 := b1, bn2 := b2\<rparr>"
  have "Learner_features L x = Inr (x7, ?L')"
    by (simp add: Learner_features_def x1 x2(1) x3 x4 x5(1) x6 x7
        BatchNorm2d_images [OF s1] BatchNorm2d_images [OF s4])
  moreover have "shape x7 = [b, snd filters * c2_size * c2_size]"
    by (simp add: x7 c2_size_eq)
  moreover have "fc ?L' = fc L" "bn3 ?L' = bn3 L" by simp_all
  ultimately show thesis using x7(3) by (blast intro: that)
qed

lemma Learner_forward_ok:
  assumes wf: "Learner_wf filters L"
    and x: "shape x = [b, 1, img_size, img_size]"
    and b: "2 \<le> b"
  obtains scores L' where "Learner_forward L x = Inr (scores, L')"
    and "shape scores = [b, num_classes]" and "wf_tensor scores"
proof -
  from wf have fc: "Linear_wf (snd filters * c2_size * c2_size) num_classes (fc L)"
    and bn3: "BatchNorm_wf num_classes (bn3 L)"
    by (simp_all add: Learner_wf_def)
  from b have "0 < b" by simp
  then obtain feat L1 where feat: "Learner_features L x = Inr (feat, L1)"
    "shape feat = [b, snd filters * c2_size * c2_size]" "fc L1 = fc L" "bn3 L1 = bn3 L"
    using Learner_features_ok [OF wf x] by metis
  obtain x1 where x1: "Linear_forward (fc L) feat = Inr x1" "shape x1 = [b, num_classes]"
    "wf_tensor x1"
    using Linear_forward_ok [OF fc feat(2)] by blast
  obtain x2 b3 where x2: "batch_norm (bn3 L) x1 = Inr (x2, b3)"
    "x2 = batch_norm_output (bn_weight (bn3 L)) (bn_bias (bn3 L)) x1"
    using batch_norm_ok [OF bn3 x1(2) images_not_single_value [OF b]] by blast
  have "Learner_forward L x = Inr (x2, L1\<lparr>bn3 := b3\<rparr>)"
    by (simp add: Learner_forward_def feat x1 x2(1) BatchNorm1d_matrix [OF x1(2)])
  moreover have "shape x2 = [b, num_classes]" "wf_tensor x2" by (simp_all add: x2(2) x1)
  ultimately show thesis by (rule that)
qed

text \<open>A single image is refused by the last batch normalisation layer.\<close>

lemma Learner_forward_single:
  assumes wf: "Learner_wf filters L"
    and x: "shape x = [1, 1, img_size, img_size]"
  shows "Learner_forward L x = Inl ValueError"
proof -
  from wf have fc: "Linear_wf (snd filters * c2_size * c2_size) num_classes (fc L)"
    by (simp add: Learner_wf_def)
  obtain feat L1 where feat: "Learner_features L x = Inr (feat, L1)"
    "shape feat = [1, snd filters * c2_size * c2_size]" "fc L1 = fc L" "bn3 L1 = bn3 L"
    using Learner_features_ok [OF wf x] by (metis zero_less_one)
  obtain x1 where x1: "Linear_forward (fc L) feat = Inr x1" "shape x1 = 1 # num_classes # []"
    using Linear_forward_ok [OF fc feat(2)] by blast
  have "batch_norm (bn3 L) x1 = Inl ValueError"
    by (rule batch_norm_single_value [OF x1(2)]) simp
  then show ?thesis
    by (simp add: Learner_forward_def feat x1 BatchNorm1d_def)
qed

lemma zero_learner_wf: "Learner_wf filters (zero_learner filters)"
  by (simp add: Learner_wf_def zero_learner_def Learner_init_def Linear_wf_def Conv2d_wf_def)

text \<open>
  C10 (as amended). For all positive widths, given or drawn, the input width of the
  learner's linear layer, \<open>conv2_filters * c2_size * c2_size\<close>, is the flattened width of
  the second pooled convolutional output for \<open>28 \<times> 28\<close> single-channel images; and in
  training mode, as the notebook runs the learner, \<open>Learner.forward\<close> returns scores of
  shape \<open>[b, num_classes]\<close> for every batch of \<open>b \<ge> 2\<close> images.
\<close>

theorem Learner_forward_scores:
  assumes "filters = Learner_filters num_conv1 num_conv2 r1 r2"
    and "0 < fst filters" and "0 < snd filters"
    and "Learner_wf filters L"
    and "shape x = [b, 1, 28, 28]" and "wf_tensor x"
    and "2 \<le> b"
  shows "\<exists>feat L1 scores L2.
           Learner_features L x = Inr (feat, L1)
           \<and> shape feat = [b, snd filters * c2_size * c2_size]
           \<and> shape (lin_weight (fc L)) = [num_classes, snd filters * c2_size * c2_size]
           \<and> c1_size = (28 - 3 + 1) div 2 \<and> c2_size = (c1_size - 3 + 1) div 2
           \<and> Learner_forward L x = Inr (scores, L2)
           \<and> shape scores = [b, num_classes]"
proof -
  have x: "shape x = [b, 1, img_size, img_size]"
    using assms(5) by (simp add: img_size_def)
  from assms(7) have "0 < b" by simp
  then obtain feat L1 where "Learner_features L x = Inr (feat, L1)"
    "shape feat = [b, snd filters * c2_size * c2_size]"
    using Learner_features_ok [OF assms(4) x] by metis
  moreover obtain scores L2 where "Learner_forward L x = Inr (scores, L2)"
    "shape scores = [b, num_classes]"
    using Learner_forward_ok [OF assms(4) x assms(7)] by metis
  moreover have "shape (lin_weight (fc L)) = [num_classes, snd filters * c2_size * c2_size]"
    using assms(4) by (simp add: Learner_wf_def Linear_wf_def)
  moreover have "c1_size = (28 - 3 + 1) div 2" "c2_size = (c1_size - 3 + 1) div 2"
    by (simp_all add: c1_size_def c2_size_def img_size_def)
  ultimately show ?thesis by blast
qed

text \<open>
  The witness: the first width given as 7, the second drawn as 100, a learner with zero
  weights and two blank images.
\<close>

theorem Learner_forward_scores_witness:
  "(7, 100) = Learner_filters (Some 7) None 40 100
   \<and> 0 < fst (7::nat, 100::nat) \<and> 0 < snd (7::nat, 100::nat)
   \<and> Learner_wf (7, 100) (zero_learner (7, 100))
   \<and> shape (full [2, 1, 28, 28] 0) = [2, 1, 28, 28] \<and> wf_tensor (full [2, 1, 28, 28] 0)
   \<and> (2::nat) \<le> 2
   \<and> (\<exists>feat L1 scores L2.
           Learner_features (zero_learner (7, 100)) (full [2, 1, 28, 28] 0) = Inr (feat, L1)
           \<and> shape feat = [2, snd (7::nat, 100::nat) * c2_size * c2_size]
           \<and> shape (lin_weight (fc (zero_learner (7, 100))))
               = [num_classes, snd (7::nat, 100::nat) * c2_size * c2_size]
           \<and> c1_size = (28 - 3 + 1) div 2 \<and> c2_size = (c1_size - 3 + 1) div 2
           \<and> Learner_forward (zero_learner (7, 100)) (full [2, 1, 28, 28] 0)
               = Inr (scores, L2)
           \<and> shape scores = [2, num_classes])"
proof -
  have h: "(7, 100) = Learner_filters (Some 7) None 40 100"
    "0 < fst (7::nat, 100::nat)" "0 < snd (7::nat, 100::nat)"
    "Learner_wf (7, 100) (zero_learner (7, 100))"
    "shape (full [2, 1, 28, 28] 0) = [2, 1, 28, 28]" "wf_tensor (full [2, 1, 28, 28] 0)"
    "(2::nat) \<le> 2"
    by (simp_all add: Learner_filters_def zero_learner_wf)
  from Learner_forward_scores [OF h] h show ?thesis by blast
qed

text \<open>
  The claim as the specification words it, for every batch, fails for a single image:
  the forward pass of a learner with widths 32 and 64 raises \<open>ValueError\<close>.
\<close>

theorem Learner_forward_single_counterexample:
  "Learner_forward (zero_learner (Learner_filters None None 32 64)) (full [1, 1, 28, 28] 0)
     = Inl ValueError"
  by (rule Learner_forward_single [OF zero_learner_wf]) (simp add: img_size_def)

section \<open>The inner loop\<close>

lemma one_hot_label:
  obtains oh where "one_hot label num_classes = Inr oh"
    and "shape oh = [inner_loop_batch_size, num_classes]"
proof -
  have "list_all (\<lambda>v. v < real num_classes) (data label)"
    by (simp add: label_def tabulate1_def list_all_iff num_classes_def)
  then have "one_hot label num_classes
      = Inr (tabulate2 inner_loop_batch_size num_classes
               (\<lambda>i j. if at1 label i = real j then 1 else 0))"
    by (simp add: one_hot_def label_def)
  then show thesis by (rule that) simp
qed

lemma select0_curriculum:
  assumes "shape c = [n, b, z]" and "step < n"
  obtains z_vec where "select0 c step = Inr z_vec" and "shape z_vec = [b, z]"
  using assms by (simp add: select0_def)

lemma batch_size_ge_2: "2 \<le> inner_loop_batch_size"
  by (simp add: inner_loop_batch_size_def)

lemma teacher_output_same:
  assumes "Teacher_parameters T1 = Teacher_parameters T2"
  shows "teacher_output T1 c step = teacher_output T2 c step"
proof -
  have "\<And>z oh. bind_err (Teacher_forward T1 z oh) (\<lambda>r. Inr (fst (fst r)))
              = bind_err (Teacher_forward T2 z oh) (\<lambda>r. Inr (fst (fst r)))"
  proof -
    fix z oh
    from Teacher_forward_same_output [OF assms, of z oh]
    show "bind_err (Teacher_forward T1 z oh) (\<lambda>r. Inr (fst (fst r)))
              = bind_err (Teacher_forward T2 z oh) (\<lambda>r. Inr (fst (fst r)))"
      by (cases "Teacher_forward T1 z oh"; cases "Teacher_forward T2 z oh") auto
  qed
  then show ?thesis by (simp add: teacher_output_def)
qed

text \<open>
  One step on a well-formed teacher: the synthetic batch exists, the fast weights and
  the momentum buffer move by \<open>diffopt_step\<close> on the gradient at that batch, and the
  teacher keeps its parameters.
\<close>

lemma inner_step_ok:
  assumes "Teacher_wf (in_teacher s)"
    and "shape c = [inner_loop_iterations, inner_loop_batch_size, noise_size]"
    and "step < inner_loop_iterations"
  obtains x T' where "teacher_output (in_teacher s) c step = Inr x"
    and "inner_step ag arch lr mom c step s
         = Inr (s\<lparr>in_teacher := T',
                  fast_weights := fst (diffopt_step lr mom
                     (loss_grad ag arch (fast_weights s) x label)
                     (fast_weights s, momentum_buffer s)),
                  momentum_buffer := snd (diffopt_step lr mom
                     (loss_grad ag arch (fast_weights s) x label)
                     (fast_weights s, momentum_buffer s)),
                  snapshots := snapshots s @ [diffopt_step lr mom
                     (loss_grad ag arch (fast_weights s) x label)
                     (fast_weights s, momentum_buffer s)],
                  inner_losses := inner_losses s
                     @ [loss_value ag arch (fast_weights s) x label]\<rparr>)"
    and "Teacher_wf T'" and "Teacher_parameters T' = Teacher_parameters (in_teacher s)"
proof -
  obtain z_vec where z: "select0 c step = Inr z_vec"
    "shape z_vec = [inner_loop_batch_size, noise_size]"
    using select0_curriculum [OF assms(2,3)] by blast
  obtain oh where oh: "one_hot label num_classes = Inr oh"
    "shape oh = [inner_loop_batch_size, num_classes]"
    using one_hot_label by blast
  obtain y T' where y: "Teacher_forward (in_teacher s) z_vec oh = Inr ((tanh_normalize y, oh), T')"
    "Teacher_wf T'" "Teacher_parameters T' = Teacher_parameters (in_teacher s)"
    using Teacher_forward_ok [OF assms(1) z(2) oh(2) batch_size_ge_2] by blast
  have "teacher_output (in_teacher s) c step = Inr (tanh_normalize y)"
    by (simp add: teacher_output_def z oh y)
  moreover have "inner_step ag arch lr mom c step s
         = Inr (s\<lparr>in_teacher := T',
                  fast_weights := fst (diffopt_step lr mom
                     (loss_grad ag arch (fast_weights s) (tanh_normalize y) label)
                     (fast_weights s, momentum_buffer s)),
                  momentum_buffer := snd (diffopt_step lr mom
                     (loss_grad ag arch (fast_weights s) (tanh_normalize y) label)
                     (fast_weights s, momentum_buffer s)),
                  snapshots := snapshots s @ [diffopt_step lr mom
                     (loss_grad ag arch (fast_weights s) (tanh_normalize y) label)
                     (fast_weights s, momentum_buffer s)],
                  inner_losses := inner_losses s
                     @ [loss_value ag arch (fast_weights s) (tanh_normalize y) label]\<rparr>)"
    by (simp add: inner_step_def z oh y Let_def)
  ultimately show thesis using y(2,3) by (rule that)
qed

lemma teacher_output_ok:
  assumes "Teacher_wf T"
    and "shape c = [inner_loop_iterations, inner_loop_batch_size, noise_size]"
    and "step < inner_loop_iterations"
  obtains x where "teacher_output T c step = Inr x"
proof -
  have "Teacher_wf (in_teacher (inner_init T []))"
    using assms(1) by (simp add: inner_init_def)
  from inner_step_ok [OF this assms(2,3)]
  obtain x where "teacher_output (in_teacher (inner_init T [])) c step = Inr x"
    by blast
  then show thesis using that by (simp add: inner_init_def)
qed

lemma inner_loop_append:
  "inner_loop ag arch lr mom c (xs @ ys) s
   = bind_err (inner_loop ag arch lr mom c xs s) (inner_loop ag arch lr mom c ys)"
proof (induction xs arbitrary: s)
  case Nil
  show ?case by simp
next
  case (Cons a xs)
  show ?case
    by (cases "inner_step ag arch lr mom c a s") (simp_all add: Cons.IH)
qed

lemma inner_loop_Suc:
  "inner_loop ag arch lr mom c [0..<Suc n] s
   = bind_err (inner_loop ag arch lr mom c [0..<n] s) (inner_step ag arch lr mom c n)"
proof -
  have "inner_loop ag arch lr mom c [n] = inner_step ag arch lr mom c n"
  proof
    fix s'
    show "inner_loop ag arch lr mom c [n] s' = inner_step ag arch lr mom c n s'"
      by (cases "inner_step ag arch lr mom c n s'") simp_all
  qed
  then show ?thesis using inner_loop_append [of ag arch lr mom c "[0..<n]" "[n]" s] by simp
qed

text \<open>
  The first \<open>n\<close> steps of the loop, from a fresh learner with the weights \<open>\<theta>\<^sub>0\<close>: the loop
  arrives, and every snapshot comes from the one before it by the optimiser's step on
  the gradient at the synthetic batch of that step, which the teacher \<open>T\<close> of the start
  and the curriculum fix.
\<close>

lemma inner_loop_prefix:
  assumes "Teacher_wf T"
    and "shape c = [inner_loop_iterations, inner_loop_batch_size, noise_size]"
    and "n \<le> inner_loop_iterations"
  obtains fin where "inner_loop ag arch lr mom c [0..<n] (inner_init T \<theta>\<^sub>0) = Inr fin"
    and "Teacher_wf (in_teacher fin)"
    and "Teacher_parameters (in_teacher fin) = Teacher_parameters T"
    and "length (snapshots fin) = Suc n"
    and "snapshots fin ! 0 = (\<theta>\<^sub>0, None)"
    and "snapshots fin ! n = (fast_weights fin, momentum_buffer fin)"
    and "\<And>t. t < n \<Longrightarrow>
           \<exists>x. teacher_output T c t = Inr x
               \<and> snapshots fin ! Suc t
                   = diffopt_step lr mom (loss_grad ag arch (fst (snapshots fin ! t)) x label)
                       (snapshots fin ! t)"
  using assms(3)
proof (induction n arbitrary: thesis)
  case 0
  show ?case
    by (rule 0(1) [of "inner_init T \<theta>\<^sub>0"]) (simp_all add: inner_init_def assms(1))
next
  case (Suc n)
  from Suc.prems(2) have n: "n \<le> inner_loop_iterations" "n < inner_loop_iterations"
    by simp_all
  obtain s where s: "inner_loop ag arch lr mom c [0..<n] (inner_init T \<theta>\<^sub>0) = Inr s"
    "Teacher_wf (in_teacher s)"
    "Teacher_parameters (in_teacher s) = Teacher_parameters T"
    "length (snapshots s) = Suc n"
    "snapshots s ! 0 = (\<theta>\<^sub>0, None)"
    "snapshots s ! n = (fast_weights s, momentum_buffer s)"
    and steps: "\<And>t. t < n \<Longrightarrow>
           \<exists>x. teacher_output T c t = Inr x
               \<and> snapshots s ! Suc t
                   = diffopt_step lr mom (loss_grad ag arch (fst (snapshots s ! t)) x label)
                       (snapshots s ! t)"
    using Suc.IH [OF _ n(1)] by blast
  obtain x T' where x: "teacher_output (in_teacher s) c n = Inr x"
    and step: "inner_step ag arch lr mom c n s
         = Inr (s\<lparr>in_teacher := T',
                  fast_weights := fst (diffopt_step lr mom
                     (loss_grad ag arch (fast_weights s) x label)
                     (fast_weights s, momentum_buffer s)),
                  momentum_buffer := snd (diffopt_step lr mom
                     (loss_grad ag arch (fast_weights s) x label)
                     (fast_weights s, momentum_buffer s)),
                  snapshots := snapshots s @ [diffopt_step lr mom
                     (loss_grad ag arch (fast_weights s) x label)
                     (fast_weights s, momentum_buffer s)],
                  inner_losses := inner_losses s
                     @ [loss_value ag arch (fast_weights s) x label]\<rparr>)"
    and T': "Teacher_wf T'" "Teacher_parameters T' = Teacher_parameters (in_teacher s)"
    using inner_step_ok [OF s(2) assms(2) n(2)] by blast
  let ?new = "diffopt_step lr mom (loss_grad ag arch (fast_weights s) x label)
                (fast_weights s, momentum_buffer s)"
  let ?fin = "s\<lparr>in_teacher := T', fast_weights := fst ?new, momentum_buffer := snd ?new,
                snapshots := snapshots s @ [?new],
                inner_losses := inner_losses s @ [loss_value ag arch (fast_weights s) x label]\<rparr>"
  have x': "teacher_output T c n = Inr x"
    using x teacher_output_same [OF s(3)] by simp
  have run: "inner_loop ag arch lr mom c [0..<Suc n] (inner_init T \<theta>\<^sub>0) = Inr ?fin"
    by (simp only: inner_loop_Suc s(1) bind_err.simps step)
  have later: "\<And>t. t < Suc n \<Longrightarrow>
           \<exists>x. teacher_output T c t = Inr x
               \<and> snapshots ?fin ! Suc t
                   = diffopt_step lr mom (loss_grad ag arch (fst (snapshots ?fin ! t)) x label)
                       (snapshots ?fin ! t)"
  proof -
    fix t assume t: "t < Suc n"
    show "\<exists>x. teacher_output T c t = Inr x
               \<and> snapshots ?fin ! Suc t
                   = diffopt_step lr mom (loss_grad ag arch (fst (snapshots ?fin ! t)) x label)
                       (snapshots ?fin ! t)"
    proof (cases "t < n")
      case True
      with steps [OF True] s(4) show ?thesis by (simp add: nth_append)
    next
      case False
      with t have "t = n" by simp
      with x' s(4,6) show ?thesis by (simp add: nth_append)
    qed
  qed
  show ?case
  proof (rule Suc.prems(1) [OF run])
    show "Teacher_wf (in_teacher ?fin)" using T' by simp
    show "Teacher_parameters (in_teacher ?fin) = Teacher_parameters T" using T' s(3) by simp
    show "length (snapshots ?fin) = Suc (Suc n)" using s(4) by simp
    show "snapshots ?fin ! 0 = (\<theta>\<^sub>0, None)" using s(4,5) by (simp add: nth_append)
    show "snapshots ?fin ! Suc n = (fast_weights ?fin, momentum_buffer ?fin)"
      using s(4) by (simp add: nth_append)
  qed (rule later)
qed

section \<open>What the inner loop does to the student\<close>














section \<open>One iteration of the outer loop\<close>

lemma item_at_learner_optim_params:
  assumes "Teacher_wf T"
  shows "item_at (learner_optim_params T) 0 = Inr (at1 (learner_optim_params T) 0)"
    and "item_at (learner_optim_params T) 1 = Inr (at1 (learner_optim_params T) 1)"
  using assms by (simp_all add: Teacher_wf_def item_at_def)

lemma loader_accuracy_ok:
  assumes "loader \<noteq> []"
  shows "loader_accuracy ag arch \<theta> loader
         = Inr (real (count_correct ag arch \<theta> loader)
                / real (outer_loop_batch_size * length loader))"
  using assms by (simp add: loader_accuracy_def outer_loop_batch_size_def)

text \<open>
  On a well-formed state, with a validation batch left, a test loader that is not empty
  and a real batch that is not empty, the body runs through: the inner loop arrives at
  \<open>fin\<close>, and the body either breaks after the test accuracy, without a gradient on the
  teacher, or continues with the gradient of the outer loss.
\<close>

lemma outer_body_ok:
  fixes ag learners it s real_data
  defines "arch \<equiv> Learner_filters None None (fst (fst (learners it))) (snd (fst (learners it)))"
    and "lr \<equiv> at1 (learner_optim_params (teacher s)) 0"
    and "mom \<equiv> at1 (learner_optim_params (teacher s)) 1"
  assumes wf: "notebook_wf s"
    and val: "val_iterator s = val_batch # val_rest"
    and test: "test_loader \<noteq> []"
    and rd: "shape (snd real_data) = m # ms" "0 < m"
  obtains fin s' where
    "inner_loop ag arch lr mom (curriculum s) [0..<inner_loop_iterations]
       (inner_init (teacher s) (snd (learners it))) = Inr fin"
    and "Teacher_wf (in_teacher fin)"
    and "Teacher_parameters (in_teacher fin) = Teacher_parameters (teacher s)"
    and "s' = s\<lparr>teacher := in_teacher fin, val_iterator := val_rest, flearner := Some fin,
                 printed := printed s
                   @ [Inner_loop_losses (inner_losses fin),
                      Train_accuracy (real (correct_count ag arch (fast_weights fin)
                                              (fst real_data) (snd real_data)) / real m),
                      Val_accuracy (real (correct_count ag arch (fast_weights fin)
                                            (fst val_batch) (snd val_batch))
                                    / real outer_loop_batch_size)]\<rparr>"
    and "int it = int budget - 1 \<Longrightarrow>
           outer_body ag learners test_loader budget it real_data s
           = Inr (Break (s'\<lparr>grads := None,
                            printed := printed s'
                              @ [Final_test_accuracy
                                   (real (count_correct ag arch (fast_weights fin) test_loader)
                                    / real (outer_loop_batch_size * length test_loader))]\<rparr>))"
    and "int it \<noteq> int budget - 1 \<Longrightarrow>
           outer_body ag learners test_loader budget it real_data s
           = Inr (Continue (s'\<lparr>grads := Some (outer_grad ag arch (teacher s) (curriculum s)
                                                (snd (learners it)) real_data)\<rparr>))"
proof -
  from wf have T: "Teacher_wf (teacher s)"
    and c: "shape (curriculum s) = [inner_loop_iterations, inner_loop_batch_size, noise_size]"
    and nonneg: "0 \<le> lr" "0 \<le> mom"
    by (simp_all add: notebook_wf_def lr_def mom_def)
  obtain fin where fin: "inner_loop ag arch lr mom (curriculum s) [0..<inner_loop_iterations]
       (inner_init (teacher s) (snd (learners it))) = Inr fin"
    and keeps: "Teacher_wf (in_teacher fin)"
      "Teacher_parameters (in_teacher fin) = Teacher_parameters (teacher s)"
    using inner_loop_prefix [OF T c order_refl] by blast
  have sgd: "SGD_init lr mom = Inr ()" using nonneg by (simp add: SGD_init_def)
  let ?s' = "s\<lparr>teacher := in_teacher fin, val_iterator := val_rest, flearner := Some fin,
                 printed := printed s
                   @ [Inner_loop_losses (inner_losses fin),
                      Train_accuracy (real (correct_count ag arch (fast_weights fin)
                                              (fst real_data) (snd real_data)) / real m),
                      Val_accuracy (real (correct_count ag arch (fast_weights fin)
                                            (fst val_batch) (snd val_batch))
                                    / real outer_loop_batch_size)]\<rparr>"
  have items: "item_at (learner_optim_params (teacher s)) 0 = Inr lr"
    "item_at (learner_optim_params (teacher s)) (Suc 0) = Inr mom"
    using item_at_learner_optim_params [OF T] by (simp_all add: lr_def mom_def)
  have last: "outer_body ag learners test_loader budget it real_data s
           = Inr (Break (?s'\<lparr>grads := None,
                            printed := printed ?s'
                              @ [Final_test_accuracy
                                   (real (count_correct ag arch (fast_weights fin) test_loader)
                                    / real (outer_loop_batch_size * length test_loader))]\<rparr>))"
    if "int it = int budget - 1"
    using that rd(2) fin [unfolded arch_def]
    by (simp add: outer_body_def Let_def items sgd rd(1) val
        loader_accuracy_ok [OF test] arch_def)
  have other: "outer_body ag learners test_loader budget it real_data s
           = Inr (Continue (?s'\<lparr>grads := Some (outer_grad ag arch (teacher s) (curriculum s)
                                                (snd (learners it)) real_data)\<rparr>))"
    if "int it \<noteq> int budget - 1"
    using that rd(2) fin [unfolded arch_def]
    by (simp add: outer_body_def Let_def items sgd rd(1) val arch_def)
  show thesis
    by (rule that [OF fin keeps refl last other])
qed


text \<open>
  The witness: the notebook's budget of 5 iterations, reached at \<open>it = 4\<close> with three
  more batches in the loader, from the state the cell before the loop leaves (the zero
  teacher, a curriculum of zeros, one validation batch).
\<close>

lemma notebook_init_wf:
  "notebook_wf (notebook_init zero_teacher
     (full [inner_loop_iterations, inner_loop_batch_size, noise_size] 0) val)"
  by (simp add: notebook_wf_def notebook_init_def zero_teacher_wf)
     (simp add: zero_teacher_def Teacher_init_def at1_def)


section \<open>The inner trajectory and the real data\<close>

text \<open>
  C1 (as amended). In one outer iteration, every snapshot of the student's parameters
  together with the optimiser's momentum buffer comes from the snapshot and buffer of
  the step before by \<open>diffopt_step\<close>, on the gradient at the synthetic batch the teacher
  generates for that step, with the learning rate and the momentum the iteration read
  from \<open>teacher.learner_optim_params\<close>, the same at every step. The trajectory does not
  depend on the real batch: two runs of the iteration on different real batches leave
  the same functional learner behind.
\<close>

theorem inner_trajectory:
  fixes ag learners it s
  defines "arch \<equiv> Learner_filters None None (fst (fst (learners it))) (snd (fst (learners it)))"
    and "lr \<equiv> at1 (learner_optim_params (teacher s)) 0"
    and "mom \<equiv> at1 (learner_optim_params (teacher s)) 1"
  assumes "notebook_wf s"
    and "val_iterator s \<noteq> []" and "test_loader \<noteq> []"
    and "shape (snd real_data) = m # ms" and "0 < m"
    and "shape (snd real_data') = m' # ms'" and "0 < m'"
  shows "\<exists>r r' fin.
           outer_body ag learners test_loader budget it real_data s = Inr r
           \<and> outer_body ag learners test_loader budget it real_data' s = Inr r'
           \<and> flearner (flow_state r) = Some fin \<and> flearner (flow_state r') = Some fin
           \<and> length (snapshots fin) = inner_loop_iterations + 1
           \<and> snapshots fin ! 0 = (snd (learners it), None)
           \<and> (\<forall>t. 1 \<le> t \<and> t \<le> inner_loop_iterations \<longrightarrow>
                 (\<exists>x. teacher_output (teacher s) (curriculum s) (t - 1) = Inr x
                     \<and> snapshots fin ! t
                         = diffopt_step lr mom
                             (loss_grad ag arch (fst (snapshots fin ! (t - 1))) x label)
                             (snapshots fin ! (t - 1))))"
proof -
  from assms(4) have T: "Teacher_wf (teacher s)"
    and c: "shape (curriculum s) = [inner_loop_iterations, inner_loop_batch_size, noise_size]"
    by (simp_all add: notebook_wf_def)
  from assms(5) obtain val_batch val_rest where val: "val_iterator s = val_batch # val_rest"
    by (cases "val_iterator s") auto
  obtain fin where fin: "inner_loop ag arch lr mom (curriculum s) [0..<inner_loop_iterations]
       (inner_init (teacher s) (snd (learners it))) = Inr fin"
    and len: "length (snapshots fin) = Suc inner_loop_iterations"
    and first: "snapshots fin ! 0 = (snd (learners it), None)"
    and steps: "\<And>t. t < inner_loop_iterations \<Longrightarrow>
           \<exists>x. teacher_output (teacher s) (curriculum s) t = Inr x
               \<and> snapshots fin ! Suc t
                   = diffopt_step lr mom (loss_grad ag arch (fst (snapshots fin ! t)) x label)
                       (snapshots fin ! t)"
    using inner_loop_prefix [OF T c order_refl, of ag arch lr mom "snd (learners it)"] by metis
  have run: "\<exists>r. outer_body ag learners test_loader budget it d s = Inr r
               \<and> flearner (flow_state r) = Some fin"
    if d: "shape (snd d) = k # ks" "0 < k" for d k ks
  proof -
    obtain fin' s' where fin': "inner_loop ag arch lr mom (curriculum s)
         [0..<inner_loop_iterations] (inner_init (teacher s) (snd (learners it))) = Inr fin'"
      and s'_def: "s' = s\<lparr>teacher := in_teacher fin', val_iterator := val_rest,
                 flearner := Some fin',
                 printed := printed s
                   @ [Inner_loop_losses (inner_losses fin'),
                      Train_accuracy (real (correct_count ag arch (fast_weights fin')
                                              (fst d) (snd d)) / real k),
                      Val_accuracy (real (correct_count ag arch (fast_weights fin')
                                            (fst val_batch) (snd val_batch))
                                    / real outer_loop_batch_size)]\<rparr>"
      and last: "int it = int budget - 1 \<Longrightarrow>
           outer_body ag learners test_loader budget it d s
           = Inr (Break (s'\<lparr>grads := None,
                            printed := printed s'
                              @ [Final_test_accuracy
                                   (real (count_correct ag arch (fast_weights fin') test_loader)
                                    / real (outer_loop_batch_size * length test_loader))]\<rparr>))"
      and other: "int it \<noteq> int budget - 1 \<Longrightarrow>
           outer_body ag learners test_loader budget it d s
           = Inr (Continue (s'\<lparr>grads := Some (outer_grad ag arch (teacher s) (curriculum s)
                                                (snd (learners it)) d)\<rparr>))"
      using outer_body_ok [OF assms(4) val assms(6) d, of ag learners it budget]
      unfolding arch_def lr_def mom_def by metis
    have s': "flearner s' = Some fin'" by (simp add: s'_def)
    from fin fin' have "fin' = fin" by simp
    with s' last other show ?thesis
      by (cases "int it = int budget - 1") simp_all
  qed
  from run [OF assms(7,8)] run [OF assms(9,10)]
  obtain r r' where "outer_body ag learners test_loader budget it real_data s = Inr r"
    "outer_body ag learners test_loader budget it real_data' s = Inr r'"
    "flearner (flow_state r) = Some fin" "flearner (flow_state r') = Some fin"
    by blast
  moreover have "\<forall>t. 1 \<le> t \<and> t \<le> inner_loop_iterations \<longrightarrow>
                 (\<exists>x. teacher_output (teacher s) (curriculum s) (t - 1) = Inr x
                     \<and> snapshots fin ! t
                         = diffopt_step lr mom
                             (loss_grad ag arch (fst (snapshots fin ! (t - 1))) x label)
                             (snapshots fin ! (t - 1)))"
  proof (intro allI impI)
    fix t assume "1 \<le> t \<and> t \<le> inner_loop_iterations"
    then have "t - 1 < inner_loop_iterations" and "Suc (t - 1) = t" by arith+
    with steps [of "t - 1"]
    show "\<exists>x. teacher_output (teacher s) (curriculum s) (t - 1) = Inr x
                     \<and> snapshots fin ! t
                         = diffopt_step lr mom
                             (loss_grad ag arch (fst (snapshots fin ! (t - 1))) x label)
                             (snapshots fin ! (t - 1))"
      by simp
  qed
  ultimately show ?thesis using len first by auto
qed

text \<open>
  The witness: the first iteration from the state the cell before the loop leaves, once
  on a batch of blank images labelled 0 and once on a batch of white images labelled 3.
\<close>

theorem inner_trajectory_witness:
  "notebook_wf (notebook_init zero_teacher
      (full [inner_loop_iterations, inner_loop_batch_size, noise_size] 0) [blank_batch])
   \<and> val_iterator (notebook_init zero_teacher
      (full [inner_loop_iterations, inner_loop_batch_size, noise_size] 0) [blank_batch]) \<noteq> []
   \<and> [blank_batch] \<noteq> []
   \<and> shape (snd blank_batch) = outer_loop_batch_size # []
   \<and> 0 < outer_loop_batch_size
   \<and> shape (snd (full [outer_loop_batch_size, 1, img_size, img_size] 1,
                  full [outer_loop_batch_size] 3)) = outer_loop_batch_size # []
   \<and> 0 < outer_loop_batch_size
   \<and> (\<exists>r r' fin.
         outer_body quadratic_student same_learner [blank_batch] outer_loop_iterations 0
           blank_batch
           (notebook_init zero_teacher
              (full [inner_loop_iterations, inner_loop_batch_size, noise_size] 0)
              [blank_batch]) = Inr r
         \<and> outer_body quadratic_student same_learner [blank_batch] outer_loop_iterations 0
             (full [outer_loop_batch_size, 1, img_size, img_size] 1,
              full [outer_loop_batch_size] 3)
             (notebook_init zero_teacher
                (full [inner_loop_iterations, inner_loop_batch_size, noise_size] 0)
                [blank_batch]) = Inr r'
         \<and> flearner (flow_state r) = Some fin \<and> flearner (flow_state r') = Some fin
         \<and> length (snapshots fin) = inner_loop_iterations + 1
         \<and> snapshots fin ! 0 = (snd (same_learner 0), None)
         \<and> (\<forall>t. 1 \<le> t \<and> t \<le> inner_loop_iterations \<longrightarrow>
               (\<exists>x. teacher_output
                      (teacher (notebook_init zero_teacher
                         (full [inner_loop_iterations, inner_loop_batch_size, noise_size] 0)
                         [blank_batch]))
                      (curriculum (notebook_init zero_teacher
                         (full [inner_loop_iterations, inner_loop_batch_size, noise_size] 0)
                         [blank_batch]))
                      (t - 1) = Inr x
                   \<and> snapshots fin ! t
                       = diffopt_step
                           (at1 (learner_optim_params (teacher (notebook_init zero_teacher
                              (full [inner_loop_iterations, inner_loop_batch_size, noise_size] 0)
                              [blank_batch]))) 0)
                           (at1 (learner_optim_params (teacher (notebook_init zero_teacher
                              (full [inner_loop_iterations, inner_loop_batch_size, noise_size] 0)
                              [blank_batch]))) 1)
                           (loss_grad quadratic_student
                              (Learner_filters None None (fst (fst (same_learner 0)))
                                 (snd (fst (same_learner 0))))
                              (fst (snapshots fin ! (t - 1))) x label)
                           (snapshots fin ! (t - 1)))))"
proof -
  note w = notebook_init_wf [of "[blank_batch]"]
  have h: "val_iterator (notebook_init zero_teacher
      (full [inner_loop_iterations, inner_loop_batch_size, noise_size] 0) [blank_batch]) \<noteq> []"
    "[blank_batch] \<noteq> []"
    "shape (snd blank_batch) = outer_loop_batch_size # []"
    "0 < outer_loop_batch_size"
    "shape (snd (full [outer_loop_batch_size, 1, img_size, img_size] 1,
                  full [outer_loop_batch_size] 3)) = outer_loop_batch_size # []"
    "0 < outer_loop_batch_size"
    by (simp_all add: notebook_init_def blank_batch_def outer_loop_batch_size_def)
  show ?thesis
    by (intro conjI w h inner_trajectory [OF w h])
qed

text \<open>
  The claim as the specification words it, that a snapshot is a function of the
  snapshot before it, the synthetic batch, the learning rate and the momentum alone,
  fails from the second step on, since the optimiser keeps a momentum buffer. Two
  students with the loss \<open>25 * |\<theta>|\<^sup>2\<close>, started at 1 and at 2 with the teacher's initial
  learning rate \<open>0.02\<close> and momentum \<open>0.5\<close>, both stand at 0 after the first step and get the
  same synthetic batch at the second, and yet differ after it.
\<close>

lemma quadratic_run:
  obtains fin where
    "inner_loop quadratic_student (32, 64) (2 / 100) (5 / 10)
       (full [inner_loop_iterations, inner_loop_batch_size, noise_size] 0)
       [0..<inner_loop_iterations] (inner_init zero_teacher [a]) = Inr fin"
    and "snapshots fin ! 1 = ([a + - (2 / 100) * (50 * a)], Some [50 * a])"
    and "snapshots fin ! 2
         = ([a + - (2 / 100) * (50 * a)
             + - (2 / 100) * (50 * a * (5 / 10) + 50 * (a + - (2 / 100) * (50 * a)))],
            Some [50 * a * (5 / 10) + 50 * (a + - (2 / 100) * (50 * a))])"
proof -
  have c: "shape (full [inner_loop_iterations, inner_loop_batch_size, noise_size] 0)
       = [inner_loop_iterations, inner_loop_batch_size, noise_size]"
    by simp
  obtain fin where fin: "inner_loop quadratic_student (32, 64) (2 / 100) (5 / 10)
       (full [inner_loop_iterations, inner_loop_batch_size, noise_size] 0)
       [0..<inner_loop_iterations] (inner_init zero_teacher [a]) = Inr fin"
    and first: "snapshots fin ! 0 = ([a], None)"
    and steps: "\<And>t. t < inner_loop_iterations \<Longrightarrow>
           \<exists>x. snapshots fin ! Suc t
                   = diffopt_step (2 / 100) (5 / 10)
                       (loss_grad quadratic_student (32, 64) (fst (snapshots fin ! t)) x label)
                       (snapshots fin ! t)"
    using inner_loop_prefix [OF zero_teacher_wf c order_refl,
        of quadratic_student "(32, 64)" "2 / 100" "5 / 10" "[a]"]
    by metis
  have "0 < inner_loop_iterations" "1 < inner_loop_iterations"
    by (simp_all add: inner_loop_iterations_def)
  from steps [OF this(1)] first
  have one: "snapshots fin ! 1 = ([a + - (2 / 100) * (50 * a)], Some [50 * a])"
    by (auto simp: diffopt_step_def quadratic_student_def)
  from steps [OF \<open>1 < inner_loop_iterations\<close>] one
  have two: "snapshots fin ! 2
         = ([a + - (2 / 100) * (50 * a)
             + - (2 / 100) * (50 * a * (5 / 10) + 50 * (a + - (2 / 100) * (50 * a)))],
            Some [50 * a * (5 / 10) + 50 * (a + - (2 / 100) * (50 * a))])"
    by (auto simp: diffopt_step_def quadratic_student_def numeral_2_eq_2)
  from fin one two show thesis by (rule that)
qed

theorem momentum_buffer_counterexample:
  "\<exists>fin fin' x.
     inner_loop quadratic_student (32, 64) (2 / 100) (5 / 10)
       (full [inner_loop_iterations, inner_loop_batch_size, noise_size] 0)
       [0..<inner_loop_iterations] (inner_init zero_teacher [1]) = Inr fin
     \<and> inner_loop quadratic_student (32, 64) (2 / 100) (5 / 10)
         (full [inner_loop_iterations, inner_loop_batch_size, noise_size] 0)
         [0..<inner_loop_iterations] (inner_init zero_teacher [2]) = Inr fin'
     \<and> teacher_output zero_teacher
         (full [inner_loop_iterations, inner_loop_batch_size, noise_size] 0) 1 = Inr x
     \<and> fst (snapshots fin ! 1) = fst (snapshots fin' ! 1)
     \<and> fst (snapshots fin ! 2) \<noteq> fst (snapshots fin' ! 2)"
proof -
  obtain fin where fin: "inner_loop quadratic_student (32, 64) (2 / 100) (5 / 10)
       (full [inner_loop_iterations, inner_loop_batch_size, noise_size] 0)
       [0..<inner_loop_iterations] (inner_init zero_teacher [1]) = Inr fin"
    "fst (snapshots fin ! 1) = [0]" "fst (snapshots fin ! 2) = [- 1 / 2]"
    using quadratic_run [of 1] by (auto simp: prod_eq_iff)
  obtain fin' where fin': "inner_loop quadratic_student (32, 64) (2 / 100) (5 / 10)
       (full [inner_loop_iterations, inner_loop_batch_size, noise_size] 0)
       [0..<inner_loop_iterations] (inner_init zero_teacher [2]) = Inr fin'"
    "fst (snapshots fin' ! 1) = [0]" "fst (snapshots fin' ! 2) = [- 1]"
    using quadratic_run [of 2] by (auto simp: prod_eq_iff)
  have c: "shape (full [inner_loop_iterations, inner_loop_batch_size, noise_size] 0)
       = [inner_loop_iterations, inner_loop_batch_size, noise_size]"
    by simp
  have "(1::nat) < inner_loop_iterations" by (simp add: inner_loop_iterations_def)
  then obtain x where "teacher_output zero_teacher
         (full [inner_loop_iterations, inner_loop_batch_size, noise_size] 0) 1 = Inr x"
    using teacher_output_ok [OF zero_teacher_wf c] by blast
  with fin fin' show ?thesis by auto
qed

section \<open>The architecture search\<close>

text \<open>
  A forward pass that returns leaves the teacher's parameters alone: it writes the
  running statistics of the four batch normalisation layers and nothing else.
\<close>

lemma batch_norm_keeps_parameters:
  assumes "batch_norm bn x = Inr (y, bn')"
  shows "bn_weight bn' = bn_weight bn \<and> bn_bias bn' = bn_bias bn"
  using assms by (auto simp: batch_norm_def split: list.splits if_splits)

lemma BatchNorm1d_keeps_parameters:
  assumes "BatchNorm1d bn x = Inr (y, bn')"
  shows "bn_weight bn' = bn_weight bn \<and> bn_bias bn' = bn_bias bn"
  using assms batch_norm_keeps_parameters by (auto simp: BatchNorm1d_def split: if_splits)

lemma BatchNorm2d_keeps_parameters:
  assumes "BatchNorm2d bn x = Inr (y, bn')"
  shows "bn_weight bn' = bn_weight bn \<and> bn_bias bn' = bn_bias bn"
  using assms batch_norm_keeps_parameters by (auto simp: BatchNorm2d_def split: if_splits)

lemma bind_err_InrE:
  assumes "bind_err m f = Inr y"
  obtains x where "m = Inr x" and "f x = Inr y"
  using assms by (cases m) simp_all

lemma Teacher_forward_keeps_parameters:
  assumes "Teacher_forward T x target = Inr (r, T')"
  shows "Teacher_parameters T' = Teacher_parameters T"
  using assms unfolding Teacher_forward_def
  by (auto elim!: bind_err_InrE simp: Teacher_parameters_def
      dest!: BatchNorm1d_keeps_parameters BatchNorm2d_keeps_parameters)

lemma inner_step_keeps_parameters:
  assumes "inner_step ag arch lr mom c step s = Inr s'"
  shows "Teacher_parameters (in_teacher s') = Teacher_parameters (in_teacher s)"
proof -
  from assms obtain z oh r T' where "Teacher_forward (in_teacher s) z oh = Inr (r, T')"
    and "in_teacher s' = T'"
    unfolding inner_step_def bind_err_Inr_iff by (auto simp: split_def Let_def)
  then show ?thesis using Teacher_forward_keeps_parameters by simp
qed

lemma inner_loop_keeps_parameters:
  assumes "inner_loop ag arch lr mom c steps s = Inr s'"
  shows "Teacher_parameters (in_teacher s') = Teacher_parameters (in_teacher s)"
  using assms
proof (induction steps arbitrary: s)
  case Nil
  then show ?case by simp
next
  case (Cons step steps)
  from Cons.prems obtain s1 where s1: "inner_step ag arch lr mom c step s = Inr s1"
    "inner_loop ag arch lr mom c steps s1 = Inr s'"
    by (auto simp: bind_err_Inr_iff)
  from Cons.IH [OF s1(2)] inner_step_keeps_parameters [OF s1(1)] show ?case by simp
qed

text \<open>
  One trial of the search, when it returns: the teacher's parameters, the curriculum,
  the teacher's optimiser and the gradients are the ones it found.
\<close>

lemma nas_body_frame:
  assumes "nas_body ag learners val_loader test_loader trials i s = Inr s'"
  shows "Teacher_parameters (teacher s') = Teacher_parameters (teacher s)
         \<and> curriculum s' = curriculum s
         \<and> optimizer_teacher s' = optimizer_teacher s
         \<and> grads s' = grads s"
proof -
  from assms obtain lr mom fin where
    fin: "inner_loop ag
            (Learner_filters (Some (fst (fst (learners i)))) (Some (snd (fst (learners i)))) 0 0)
            lr mom (curriculum s) [0..<inner_loop_iterations]
            (inner_init (teacher s) (snd (learners i))) = Inr fin"
    and s': "teacher s' = in_teacher fin" "curriculum s' = curriculum s"
      "optimizer_teacher s' = optimizer_teacher s" "grads s' = grads s"
    by (auto simp: nas_body_def bind_err_Inr_iff Let_def split: if_splits option.splits)
  from inner_loop_keeps_parameters [OF fin] s' show ?thesis
    by (simp add: inner_init_def)
qed

lemma nas_loop_frame:
  assumes "nas_loop ag learners val_loader test_loader trials is s = Inr s'"
  shows "Teacher_parameters (teacher s') = Teacher_parameters (teacher s)
         \<and> curriculum s' = curriculum s
         \<and> optimizer_teacher s' = optimizer_teacher s
         \<and> grads s' = grads s"
  using assms
proof (induction "is" arbitrary: s)
  case Nil
  then show ?case by simp
next
  case (Cons i rest)
  from Cons.prems obtain s1 where s1: "nas_body ag learners val_loader test_loader trials i s = Inr s1"
    "nas_loop ag learners val_loader test_loader trials rest s1 = Inr s'"
    by (auto simp: bind_err_Inr_iff)
  from Cons.IH [OF s1(2)] nas_body_frame [OF s1(1)] show ?case by simp
qed

text \<open>
  C7. The architecture search leaves the teacher's parameter tensors, among them
  \<open>learner_optim_params\<close>, and the curriculum as it found them, and applies no optimiser
  step: the teacher's optimiser and the gradients are untouched as well. (The running
  statistics of the teacher's batch normalisation layers are buffers, not parameters;
  the forward passes of the search do move them.)
\<close>

theorem nas_keeps_teacher:
  assumes "nas ag learners val_loader test_loader trials s = Inr s'"
  shows "Teacher_parameters (teacher s') = Teacher_parameters (teacher s)
         \<and> learner_optim_params (teacher s') = learner_optim_params (teacher s)
         \<and> curriculum s' = curriculum s
         \<and> optimizer_teacher s' = optimizer_teacher s
         \<and> grads s' = grads s"
proof -
  from assms have "Teacher_parameters (teacher s') = Teacher_parameters (teacher s)
         \<and> curriculum s' = curriculum s
         \<and> optimizer_teacher s' = optimizer_teacher s
         \<and> grads s' = grads s"
    using nas_loop_frame [of ag learners val_loader test_loader trials "[0..<trials]"
        "s\<lparr>best_accuracy := 0\<rparr>" s']
    by (simp add: nas_def)
  then show ?thesis by (simp add: Teacher_parameters_def)
qed

section \<open>The trials of the search on a well-formed state\<close>

lemma notebook_wf_teacher:
  assumes "notebook_wf s" and "Teacher_wf T"
    and "Teacher_parameters T = Teacher_parameters (teacher s)"
  shows "notebook_wf (s\<lparr>teacher := T\<rparr>)"
  using assms by (simp add: notebook_wf_def Teacher_parameters_def)

lemma nas_body_ok:
  fixes ag learners val_loader i s
  defines "c1 \<equiv> fst (fst (learners i))"
    and "c2 \<equiv> snd (fst (learners i))"
  defines "arch \<equiv> Learner_filters (Some c1) (Some c2) 0 0"
  assumes wf: "notebook_wf s"
    and val: "val_loader i \<noteq> []"
    and test: "test_loader \<noteq> []"
  obtains fin acc s1 where
    "acc = real (count_correct ag arch (fast_weights fin) (val_loader i))
           / real (outer_loop_batch_size * length (val_loader i))"
    and "s1 = (if acc > best_accuracy s
               then s\<lparr>teacher := in_teacher fin, flearner := Some fin, best_accuracy := acc,
                      filter_counts := Some (c1, c2)\<rparr>
               else s\<lparr>teacher := in_teacher fin, flearner := Some fin\<rparr>)
              \<lparr>printed := printed s @ [Architecture (i + 1) c1 c2 acc]\<rparr>"
    and "notebook_wf s1"
    and "int i \<noteq> int trials - 1 \<Longrightarrow>
           nas_body ag learners val_loader test_loader trials i s = Inr s1"
    and "int i = int trials - 1 \<Longrightarrow>
           nas_body ag learners val_loader test_loader trials i s
           = (case filter_counts s1 of
                None \<Rightarrow> Inl NameError
              | Some best \<Rightarrow>
                  Inr (s1\<lparr>printed := printed s1
                            @ [Best_architecture (fst best) (snd best)
                                 (real (count_correct ag arch (fast_weights fin) test_loader)
                                  / real (outer_loop_batch_size * length test_loader))]\<rparr>))"
proof -
  let ?lr = "at1 (learner_optim_params (teacher s)) 0"
  let ?mom = "at1 (learner_optim_params (teacher s)) (Suc 0)"
  from wf have T: "Teacher_wf (teacher s)"
    and c: "shape (curriculum s) = [inner_loop_iterations, inner_loop_batch_size, noise_size]"
    and nonneg: "0 \<le> ?lr" "0 \<le> ?mom"
    by (simp_all add: notebook_wf_def)
  obtain fin where fin: "inner_loop ag arch ?lr ?mom (curriculum s) [0..<inner_loop_iterations]
       (inner_init (teacher s) (snd (learners i))) = Inr fin"
    and keeps: "Teacher_wf (in_teacher fin)"
      "Teacher_parameters (in_teacher fin) = Teacher_parameters (teacher s)"
    using inner_loop_prefix [OF T c order_refl] by blast
  have sgd: "SGD_init ?lr ?mom = Inr ()" using nonneg by (simp add: SGD_init_def)
  have items: "item_at (learner_optim_params (teacher s)) 0 = Inr ?lr"
    "item_at (learner_optim_params (teacher s)) (Suc 0) = Inr ?mom"
    using item_at_learner_optim_params [OF T] by simp_all
  let ?acc = "real (count_correct ag arch (fast_weights fin) (val_loader i))
           / real (outer_loop_batch_size * length (val_loader i))"
  let ?s1 = "(if ?acc > best_accuracy s
               then s\<lparr>teacher := in_teacher fin, flearner := Some fin, best_accuracy := ?acc,
                      filter_counts := Some (c1, c2)\<rparr>
               else s\<lparr>teacher := in_teacher fin, flearner := Some fin\<rparr>)
              \<lparr>printed := printed s @ [Architecture (i + 1) c1 c2 ?acc]\<rparr>"
  have wf1: "notebook_wf ?s1"
    using notebook_wf_teacher [OF wf keeps] by (simp add: notebook_wf_def)
  have other: "nas_body ag learners val_loader test_loader trials i s = Inr ?s1"
    if "int i \<noteq> int trials - 1"
    using that fin [unfolded arch_def c1_def c2_def]
    by (simp add: nas_body_def Let_def items sgd loader_accuracy_ok [OF val] arch_def
        c1_def c2_def)
  have last: "nas_body ag learners val_loader test_loader trials i s
           = (case filter_counts ?s1 of
                None \<Rightarrow> Inl NameError
              | Some best \<Rightarrow>
                  Inr (?s1\<lparr>printed := printed ?s1
                            @ [Best_architecture (fst best) (snd best)
                                 (real (count_correct ag arch (fast_weights fin) test_loader)
                                  / real (outer_loop_batch_size * length test_loader))]\<rparr>))"
    if "int i = int trials - 1"
    using that fin [unfolded arch_def c1_def c2_def]
    by (simp add: nas_body_def Let_def items sgd loader_accuracy_ok [OF val]
        loader_accuracy_ok [OF test] arch_def c1_def c2_def
        split: option.splits)
  show thesis
    by (rule that [OF refl refl wf1 other last])
qed




text \<open>
  When every batch has a correct prediction, the first trial binds \<open>filter_counts\<close> and
  the search returns.
\<close>

lemma count_correct_some:
  assumes "\<forall>b\<in>set loader. 0 < correct_count ag arch \<theta> (fst b) (snd b)" and "loader \<noteq> []"
  shows "0 < count_correct ag arch \<theta> loader"
proof -
  let ?f = "\<lambda>(data, target) correct. correct + correct_count ag arch \<theta> data target"
  have mono: "n \<le> fold ?f bs n" for n bs
  proof (induction bs arbitrary: n)
    case Nil
    show ?case by simp
  next
    case (Cons b bs)
    have "n \<le> n + correct_count ag arch \<theta> (fst b) (snd b)" by simp
    also have "\<dots> \<le> fold ?f bs (n + correct_count ag arch \<theta> (fst b) (snd b))"
      by (rule Cons.IH)
    finally show ?case by (simp add: split_def)
  qed
  from assms(2) obtain b rest where loader: "loader = b # rest" by (cases loader) auto
  from assms(1) have "0 < correct_count ag arch \<theta> (fst b) (snd b)" by (simp add: loader)
  also have "\<dots> \<le> fold ?f rest (correct_count ag arch \<theta> (fst b) (snd b))"
    by (rule mono)
  finally show ?thesis by (simp add: count_correct_def loader split_def)
qed

lemma nas_loop_returns:
  assumes "notebook_wf s"
    and "\<forall>i. val_loader i \<noteq> []" and "test_loader \<noteq> []"
    and "\<forall>i arch \<theta>. \<forall>b\<in>set (val_loader i). 0 < correct_count ag arch \<theta> (fst b) (snd b)"
    and "filter_counts s \<noteq> None \<or> best_accuracy s \<le> 0"
  shows "\<exists>s'. nas_loop ag learners val_loader test_loader trials is s = Inr s'"
  using assms(1,5)
proof (induction "is" arbitrary: s)
  case Nil
  then show ?case by simp
next
  case (Cons i rest)
  from assms(2) have val: "val_loader i \<noteq> []" by simp
  obtain fin acc s1 where acc: "acc = real (count_correct ag
        (Learner_filters (Some (fst (fst (learners i)))) (Some (snd (fst (learners i)))) 0 0)
        (fast_weights fin) (val_loader i))
           / real (outer_loop_batch_size * length (val_loader i))"
    and s1: "s1 = (if acc > best_accuracy s
               then s\<lparr>teacher := in_teacher fin, flearner := Some fin, best_accuracy := acc,
                      filter_counts := Some (fst (fst (learners i)), snd (fst (learners i)))\<rparr>
               else s\<lparr>teacher := in_teacher fin, flearner := Some fin\<rparr>)
              \<lparr>printed := printed s @ [Architecture (i + 1) (fst (fst (learners i)))
                                         (snd (fst (learners i))) acc]\<rparr>"
    and wf1: "notebook_wf s1"
    and other: "int i \<noteq> int trials - 1 \<Longrightarrow>
           nas_body ag learners val_loader test_loader trials i s = Inr s1"
    and last: "int i = int trials - 1 \<Longrightarrow>
           nas_body ag learners val_loader test_loader trials i s
           = (case filter_counts s1 of
                None \<Rightarrow> Inl NameError
              | Some best \<Rightarrow>
                  Inr (s1\<lparr>printed := printed s1
                            @ [Best_architecture (fst best) (snd best)
                                 (real (count_correct ag
                                    (Learner_filters (Some (fst (fst (learners i))))
                                       (Some (snd (fst (learners i)))) 0 0)
                                    (fast_weights fin) test_loader)
                                  / real (outer_loop_batch_size * length test_loader))]\<rparr>))"
    by (rule nas_body_ok [where val_loader = val_loader and i = i and ag = ag
          and learners = learners and trials = trials, OF Cons.prems(1) val assms(3)],
        rule that)
  have "0 < acc"
  proof -
    from assms(4) have "\<forall>b\<in>set (val_loader i). 0 < correct_count ag
        (Learner_filters (Some (fst (fst (learners i)))) (Some (snd (fst (learners i)))) 0 0)
        (fast_weights fin) (fst b) (snd b)"
      by blast
    from count_correct_some [OF this val] val show ?thesis
      by (simp add: acc outer_loop_batch_size_def)
  qed
  with s1 Cons.prems(2) have bound: "filter_counts s1 \<noteq> None"
    by (auto split: if_splits)
  then obtain best where best: "filter_counts s1 = Some best" by auto
  let ?s2 = "s1\<lparr>printed := printed s1
                            @ [Best_architecture (fst best) (snd best)
                                 (real (count_correct ag
                                    (Learner_filters (Some (fst (fst (learners i))))
                                       (Some (snd (fst (learners i)))) 0 0)
                                    (fast_weights fin) test_loader)
                                  / real (outer_loop_batch_size * length test_loader))]\<rparr>"
  have wf2: "notebook_wf ?s2" using wf1 by (simp add: notebook_wf_def)
  have bound2: "filter_counts ?s2 \<noteq> None \<or> best_accuracy ?s2 \<le> 0" using bound by simp
  show ?case
  proof (cases "int i = int trials - 1")
    case True
    with last best have "nas_body ag learners val_loader test_loader trials i s = Inr ?s2"
      by simp
    with Cons.IH [OF wf2 bound2] show ?thesis by simp
  next
    case False
    from Cons.IH [OF wf1] bound other [OF False] show ?thesis by simp
  qed
qed

text \<open>
  The witness: the search of 10 trials with a student that gets every input right
  returns, and the theorem applies to its final state.
\<close>

theorem nas_keeps_teacher_witness:
  "\<exists>s'. nas quadratic_student same_learner (\<lambda>i. [blank_batch]) [blank_batch] num_architectures
           (notebook_init zero_teacher
              (full [inner_loop_iterations, inner_loop_batch_size, noise_size] 0)
              [blank_batch]) = Inr s'
        \<and> Teacher_parameters (teacher s') = Teacher_parameters zero_teacher
        \<and> learner_optim_params (teacher s') = learner_optim_params zero_teacher
        \<and> curriculum s' = full [inner_loop_iterations, inner_loop_batch_size, noise_size] 0
        \<and> adam_steps (optimizer_teacher s') = 0
        \<and> grads s' = None"
proof -
  let ?s = "notebook_init zero_teacher
        (full [inner_loop_iterations, inner_loop_batch_size, noise_size] 0) [blank_batch]"
  have wf: "notebook_wf (?s\<lparr>best_accuracy := 0\<rparr>)"
    using notebook_init_wf [of "[blank_batch]"] by (simp add: notebook_wf_def)
  have "\<exists>s'. nas_loop quadratic_student same_learner (\<lambda>i. [blank_batch]) [blank_batch]
          num_architectures [0..<num_architectures] (?s\<lparr>best_accuracy := 0\<rparr>) = Inr s'"
    by (rule nas_loop_returns [OF wf])
       (simp_all add: quadratic_student_def blank_batch_def outer_loop_batch_size_def
          full_def)
  then obtain s' where s': "nas quadratic_student same_learner (\<lambda>i. [blank_batch])
      [blank_batch] num_architectures ?s = Inr s'"
    by (auto simp: nas_def)
  from nas_keeps_teacher [OF s'] s' show ?thesis
    by (auto simp: notebook_init_def)
qed

section \<open>What the search reports\<close>

lemma recorded_append [simp]: "recorded (xs @ ys) = recorded xs @ recorded ys"
  by (induction xs rule: recorded.induct) simp_all

lemma reported_append [simp]:
  "reported (xs @ ys) = (case reported ys of Some best \<Rightarrow> Some best | None \<Rightarrow> reported xs)"
  by (induction xs) (simp_all split: option.splits)

lemma nas_body_record:
  assumes "nas_body ag learners val_loader test_loader trials i s = Inr s'"
  shows "\<exists>acc tail.
      printed s' = printed s @ Architecture (i + 1) (fst (fst (learners i)))
                                  (snd (fst (learners i))) acc # tail
      \<and> best_accuracy s' = max (best_accuracy s) acc
      \<and> filter_counts s' = (if acc > best_accuracy s then Some (fst (learners i))
                            else filter_counts s)
      \<and> (if int i = int trials - 1
         then \<exists>a b t. filter_counts s' = Some (a, b) \<and> tail = [Best_architecture a b t]
         else tail = [])"
proof -
  define arch where "arch = Learner_filters (Some (fst (fst (learners i))))
      (Some (snd (fst (learners i)))) 0 0"
  define S where "S = (\<lambda>fin accuracy.
      let s = s\<lparr>teacher := in_teacher fin, flearner := Some fin\<rparr>;
          s = (if accuracy > best_accuracy s
               then s\<lparr>best_accuracy := accuracy,
                      filter_counts := Some (fst (fst (learners i)), snd (fst (learners i)))\<rparr>
               else s) in
      s\<lparr>printed := printed s @ [Architecture (i + 1) (fst (fst (learners i)))
                                  (snd (fst (learners i))) accuracy]\<rparr>)"
  define G where "G = (\<lambda>fin accuracy.
      if int i = int trials - 1 then
        bind_err (loader_accuracy ag arch (fast_weights fin) test_loader) (\<lambda>t.
          case filter_counts (S fin accuracy) of
            None \<Rightarrow> Inl NameError
          | Some best \<Rightarrow>
              Inr (S fin accuracy\<lparr>printed := printed (S fin accuracy)
                     @ [Best_architecture (fst best) (snd best) t]\<rparr>))
      else Inr (S fin accuracy))"
  have "nas_body ag learners val_loader test_loader trials i s =
     bind_err (item_at (learner_optim_params (teacher s)) 0) (\<lambda>learner_lr.
      bind_err (item_at (learner_optim_params (teacher s)) 1) (\<lambda>learner_momentum.
      bind_err (SGD_init learner_lr learner_momentum) (\<lambda>_.
      bind_err (inner_loop ag arch learner_lr learner_momentum (curriculum s)
                  [0..<inner_loop_iterations] (inner_init (teacher s) (snd (learners i))))
        (\<lambda>fin.
      bind_err (loader_accuracy ag arch (fast_weights fin) (val_loader i)) (G fin)))))"
    by (simp only: nas_body_def Let_def G_def S_def arch_def)
  with assms obtain fin acc where G: "G fin acc = Inr s'"
    by (auto elim!: bind_err_InrE)
  have S: "printed (S fin acc) = printed s @ [Architecture (i + 1) (fst (fst (learners i)))
                                  (snd (fst (learners i))) acc]"
    "best_accuracy (S fin acc) = max (best_accuracy s) acc"
    "filter_counts (S fin acc) = (if acc > best_accuracy s then Some (fst (learners i))
                            else filter_counts s)"
    by (simp_all add: S_def Let_def max_def)
  show ?thesis
  proof (cases "int i = int trials - 1")
    case True
    with G obtain t where t: "(case filter_counts (S fin acc) of
            None \<Rightarrow> Inl NameError
          | Some best \<Rightarrow>
              Inr (S fin acc\<lparr>printed := printed (S fin acc)
                     @ [Best_architecture (fst best) (snd best) t]\<rparr>))
        = Inr s'"
      unfolding G_def by (auto elim!: bind_err_InrE)
    show ?thesis
    proof (cases "filter_counts (S fin acc)")
      case None
      with t show ?thesis by simp
    next
      case (Some best)
      with t have s': "s' = S fin acc\<lparr>printed := printed (S fin acc)
          @ [Best_architecture (fst best) (snd best) t]\<rparr>"
        by simp
      have "filter_counts s' = Some (fst best, snd best)" using Some s' by simp
      with True s' S show ?thesis
        by (intro exI [of _ acc] exI [of _ "[Best_architecture (fst best) (snd best) t]"])
           simp
    qed
  next
    case False
    with G have "s' = S fin acc" by (simp add: G_def)
    with False S show ?thesis
      by (intro exI [of _ acc] exI [of _ "[]"]) simp
  qed
qed


lemma nas_loop_record:
  assumes "nas_loop ag learners val_loader test_loader trials is s = Inr s'"
    and "printed s = pre @ msgs"
    and "\<forall>r\<in>set (recorded msgs). snd r \<le> best_accuracy s"
    and "filter_counts s = None
         \<or> (\<exists>p. filter_counts s = Some p \<and> (p, best_accuracy s) \<in> set (recorded msgs))"
  shows "\<exists>msgs'. printed s' = pre @ msgs'
           \<and> (\<forall>r\<in>set (recorded msgs'). snd r \<le> best_accuracy s')
           \<and> (filter_counts s' = None
               \<or> (\<exists>p. filter_counts s' = Some p
                       \<and> (p, best_accuracy s') \<in> set (recorded msgs')))
           \<and> (is \<noteq> [] \<and> int (last is) = int trials - 1
                \<longrightarrow> filter_counts s' \<noteq> None \<and> reported msgs' = filter_counts s')"
  using assms
proof (induction "is" arbitrary: s msgs)
  case Nil
  then show ?case by auto
next
  case (Cons i rest)
  from Cons.prems(1) obtain s1
    where s1: "nas_body ag learners val_loader test_loader trials i s = Inr s1"
      and loop: "nas_loop ag learners val_loader test_loader trials rest s1 = Inr s'"
    by (auto elim!: bind_err_InrE)
  from nas_body_record [OF s1] obtain acc tail where
    printed: "printed s1 = printed s @ Architecture (i + 1) (fst (fst (learners i)))
                                  (snd (fst (learners i))) acc # tail"
    and best: "best_accuracy s1 = max (best_accuracy s) acc"
    and counts: "filter_counts s1 = (if acc > best_accuracy s then Some (fst (learners i))
                            else filter_counts s)"
    and tail: "if int i = int trials - 1
         then \<exists>a b t. filter_counts s1 = Some (a, b) \<and> tail = [Best_architecture a b t]
         else tail = []"
    by blast
  let ?msgs1 = "msgs @ Architecture (i + 1) (fst (fst (learners i)))
                                  (snd (fst (learners i))) acc # tail"
  from tail have no_record: "recorded tail = []" by (auto split: if_splits)
  then have rec: "recorded ?msgs1 = recorded msgs @ [(fst (learners i), acc)]" by simp
  have p1: "printed s1 = pre @ ?msgs1" using printed Cons.prems(2) by simp
  have le1: "\<forall>r\<in>set (recorded ?msgs1). snd r \<le> best_accuracy s1"
    using Cons.prems(3) unfolding rec best by (auto simp: max_def)
  have f1: "filter_counts s1 = None
         \<or> (\<exists>p. filter_counts s1 = Some p \<and> (p, best_accuracy s1) \<in> set (recorded ?msgs1))"
    using Cons.prems(4) unfolding rec best counts
    by (cases "fst (learners i)") (auto simp: max_def)
  show ?case
  proof (cases "rest = []")
    case True
    with loop have s': "s' = s1" by simp
    have "filter_counts s1 \<noteq> None \<and> reported ?msgs1 = filter_counts s1"
      if "int i = int trials - 1"
      using tail that by auto
    with True s' p1 le1 f1 show ?thesis
      by (intro exI [of _ ?msgs1]) simp
  next
    case False
    from Cons.IH [OF loop p1 le1 f1] False show ?thesis by simp
  qed
qed

text \<open>
  When the search returns, the pair it reports is one of the pairs it recorded, and its
  recorded validation accuracy is the greatest.
\<close>

lemma nas_reports_best:
  assumes "nas ag learners val_loader test_loader trials s = Inr s'"
    and "0 < trials" and "filter_counts s = None"
  shows "\<exists>msgs best acc. printed s' = printed s @ msgs
           \<and> reported msgs = Some best
           \<and> (best, acc) \<in> set (recorded msgs)
           \<and> (\<forall>r\<in>set (recorded msgs). snd r \<le> acc)"
proof -
  from assms(2) have l: "[0..<trials] \<noteq> [] \<and> int (last [0..<trials]) = int trials - 1"
    by (cases trials) simp_all
  from nas_loop_record [of ag learners val_loader test_loader trials "[0..<trials]"
      "s\<lparr>best_accuracy := 0\<rparr>" s' "printed s" "[]"] assms(1,3) l
  obtain msgs where "printed s' = printed s @ msgs"
    and "\<forall>r\<in>set (recorded msgs). snd r \<le> best_accuracy s'"
    and "filter_counts s' = None
               \<or> (\<exists>p. filter_counts s' = Some p
                       \<and> (p, best_accuracy s') \<in> set (recorded msgs))"
    and "filter_counts s' \<noteq> None" and "reported msgs = filter_counts s'"
    by (auto simp: nas_def)
  then show ?thesis by auto
qed

section \<open>The two evaluations of the modulated convolution\<close>

text \<open>
  \<open>ModulatedConv2d.forward\<close> succeeds on every batch the module fits, whatever the
  numbers of channels and the padding, and returns one output image per style vector.
\<close>

lemma forward_loop_ok:
  assumes "ModulatedConv2d_wf w_dim IC OC k M"
    and "shape w = [b, w_dim]" and "shape img = [b, IC, H, W]"
    and "k \<le> H + 2 * padding M" and "k \<le> W + 2 * padding M"
    and "\<forall>i\<in>set is. i < b"
  shows "\<exists>outs. forward_loop M img w is images = Inr (images @ outs)
           \<and> length outs = length is
           \<and> (\<forall>u\<in>set outs. shape u = [1, OC, H + 2 * padding M - k + 1,
                                          W + 2 * padding M - k + 1])"
  using assms(6)
proof (induction "is" arbitrary: images)
  case Nil
  show ?case by simp
next
  case (Cons i rest)
  then have i: "i < b" and rest: "\<forall>i\<in>set rest. i < b" by simp_all
  obtain out where out: "forward_loop M img w (i # rest) images
      = forward_loop M img w rest (images @ [out])"
    and sh: "shape out = [1, OC, H + 2 * padding M - k + 1, W + 2 * padding M - k + 1]"
    using assms(1-5) i
    by (simp add: ModulatedConv2d_wf_def select0_def linear_def modulate_def demodulate_def
        demod_denominator_def unsqueeze0_def conv2d_def)
  from Cons.IH [OF rest, of "images @ [out]"] obtain outs
    where outs: "forward_loop M img w rest (images @ [out]) = Inr ((images @ [out]) @ outs)"
      "length outs = length rest"
      "\<forall>u\<in>set outs. shape u = [1, OC, H + 2 * padding M - k + 1, W + 2 * padding M - k + 1]"
    by blast
  have "forward_loop M img w (i # rest) images = Inr (images @ out # outs)"
    unfolding out outs(1) by simp
  with outs(2,3) sh show ?case
    by (intro exI [of _ "out # outs"]) (simp del: forward_loop.simps)
qed

lemma cat0_ok:
  assumes "ts \<noteq> []" and "\<forall>u\<in>set ts. shape u = 1 # rest"
  shows "\<exists>y. cat0 ts = Inr y \<and> shape y = length ts # rest"
proof -
  from assms(2) have "sum_list (map (\<lambda>u. hd (shape u)) ts) = length ts"
    by (induction ts) simp_all
  moreover from assms(2) have "list_all (\<lambda>u. shape u \<noteq> [] \<and> tl (shape u) = rest) ts"
    by (simp add: list_all_iff)
  ultimately show ?thesis
    using assms by (cases ts) (simp_all add: cat0_def)
qed

lemma ModulatedConv2d_forward_ok:
  assumes "ModulatedConv2d_wf w_dim IC OC k M"
    and "shape w = [b, w_dim]" and "shape img = [b, IC, H, W]"
    and "k \<le> H + 2 * padding M" and "k \<le> W + 2 * padding M" and "0 < b"
  shows "\<exists>y. ModulatedConv2d_forward M img w = Inr y
           \<and> shape y = [b, OC, H + 2 * padding M - k + 1, W + 2 * padding M - k + 1]"
proof -
  from forward_loop_ok [OF assms(1-5), of "[0..<b]" "[]"] obtain outs
    where outs: "forward_loop M img w [0..<b] [] = Inr outs" "length outs = b"
      "\<forall>u\<in>set outs. shape u = [1, OC, H + 2 * padding M - k + 1, W + 2 * padding M - k + 1]"
    by auto
  from outs(2) assms(6) have "outs \<noteq> []" by auto
  from cat0_ok [OF this outs(3)] outs(1,2) assms(2) show ?thesis
    by (simp add: ModulatedConv2d_forward_def)
qed

text \<open>
  \<open>forward_efficient\<close> reads \<open>out_channels\<close> from \<open>w_prime_prime.shape[2]\<close>, which is the
  number of input channels of the filters of shape \<open>[b, OC, IC, k, k]\<close>: with another number
  of output channels the view of the filters is refused.
\<close>

lemma forward_efficient_out_channels:
  assumes "ModulatedConv2d_wf w_dim IC OC k M"
    and "shape w = [b, w_dim]" and "shape img = [b, IC, H, W]"
    and "0 < b" and "0 < IC" and "0 < k" and "IC \<noteq> OC"
  shows "ModulatedConv2d_forward_efficient M img w = Inl RuntimeError"
  using assms
  by (simp add: ModulatedConv2d_forward_efficient_def ModulatedConv2d_wf_def linear_def
      modulate_batch_def demodulate_batch_def demod_denominator_batch_def view_def)


text \<open>
  The last view of \<open>forward_efficient\<close> takes the height and width of the input image:
  it is refused unless the convolution keeps the size, \<open>2 * padding + 1 = kernel_size\<close>.
\<close>

lemma product_differs:
  fixes H W H' W' :: nat
  assumes "0 < H" and "0 < W" and "0 < H'" and "0 < W'"
    and "(H < H' \<and> W < W') \<or> (H' < H \<and> W' < W)"
  shows "H' * W' \<noteq> H * W"
proof -
  have "H * W < H' * W'" if "H < H'" "W < W'"
    using that by (intro mult_strict_mono) simp_all
  moreover have "H' * W' < H * W" if "H' < H" "W' < W"
    using that by (intro mult_strict_mono) simp_all
  ultimately show ?thesis using assms(5) by auto
qed

lemma forward_efficient_padding:
  assumes "ModulatedConv2d_wf w_dim C C k M"
    and "shape w = [b, w_dim]" and "shape img = [b, C, H, W]"
    and "0 < b" and "0 < C" and "0 < H" and "0 < W"
    and "k \<le> H + 2 * padding M" and "k \<le> W + 2 * padding M"
    and "2 * padding M + 1 \<noteq> k"
  shows "ModulatedConv2d_forward_efficient M img w = Inl RuntimeError"
proof -
  define H' where "H' = H + 2 * padding M - k + 1"
  define W' where "W' = W + 2 * padding M - k + 1"
  from assms(8-10) have "(H < H' \<and> W < W') \<or> (H' < H \<and> W' < W)"
    unfolding H'_def W'_def by arith
  moreover from assms(8,9) have "0 < H'" and "0 < W'" by (simp_all add: H'_def W'_def)
  ultimately have "H' * W' \<noteq> H * W"
    using product_differs [OF assms(6,7)] by blast
  with assms(4,5) have "prod_list [b, C, H, W] \<noteq> prod_list [1, b * C, H', W']"
    by (simp add: mult.assoc)
  note ne = this [unfolded H'_def W'_def]
  have ok: "k \<le> H + 2 * padding M \<and> k \<le> W + 2 * padding M" using assms(8,9) by simp
  from ne ok assms(1-5) show ?thesis
    by (simp add: ModulatedConv2d_forward_efficient_def ModulatedConv2d_wf_def linear_def
        modulate_batch_def demodulate_batch_def demod_denominator_batch_def view_def
        conv2d_def)
qed

lemma widening_conv_wf: "ModulatedConv2d_wf 128 3 4 3 widening_conv"
  by (simp add: ModulatedConv2d_wf_def widening_conv_def full_def wf_tensor_def)

text \<open>
  C2. The two evaluations do not agree on every module. With 3 input and 4 output
  channels (kernel size 3, padding 1), two images of 64 by 64 and two style vectors,
  \<open>forward\<close> returns a batch of shape \<open>[2, 4, 64, 64]\<close> and \<open>forward_efficient\<close> raises
  \<open>RuntimeError\<close> at the view of the filters.
\<close>

theorem forward_efficient_diverges:
  "(\<exists>y. ModulatedConv2d_forward widening_conv (full [2, 3, 64, 64] 1) (full [2, 128] 1) = Inr y
        \<and> shape y = [2, 4, 64, 64])
   \<and> ModulatedConv2d_forward_efficient widening_conv (full [2, 3, 64, 64] 1) (full [2, 128] 1)
     = Inl RuntimeError"
proof
  have "padding widening_conv = 1" by (simp add: widening_conv_def)
  with ModulatedConv2d_forward_ok [OF widening_conv_wf, of "full [2, 128] 1" 2
      "full [2, 3, 64, 64] 1" 64 64]
  show "\<exists>y. ModulatedConv2d_forward widening_conv (full [2, 3, 64, 64] 1) (full [2, 128] 1)
          = Inr y \<and> shape y = [2, 4, 64, 64]"
    by (simp add: full_def)
  show "ModulatedConv2d_forward_efficient widening_conv (full [2, 3, 64, 64] 1)
      (full [2, 128] 1) = Inl RuntimeError"
    by (rule forward_efficient_out_channels [OF widening_conv_wf, of _ 2 _ 64 64])
       (simp_all add: full_def)
qed

section \<open>Both evaluations against the modulated convolution\<close>

subsection \<open>Lists and flat indices\<close>

lemma sum_upt_cong:
  "(\<And>x. x < n \<Longrightarrow> f x = g x) \<Longrightarrow> (\<Sum>x\<leftarrow>[0..<n]. f x) = (\<Sum>x\<leftarrow>[0..<n]. (g x :: real))"
  by (rule arg_cong [where f = sum_list]) simp

lemma index_bounds:
  fixes j :: nat
  assumes "j < N * C * H * W"
  shows "j div (C * H * W) < N" and "j div (H * W) mod C < C" and "j div W mod H < H"
    and "j mod W < W"
proof -
  have pos: "0 < C \<and> 0 < H \<and> 0 < W"
  proof (rule ccontr)
    assume "\<not> ?thesis"
    then have "N * C * H * W = 0" by auto
    with assms show False by simp
  qed
  have "j < N * (C * H * W)" using assms by (simp add: mult.assoc)
  then show "j div (C * H * W) < N"
    by (rule less_mult_imp_div_less)
  from pos show "j div (H * W) mod C < C" "j div W mod H < H" "j mod W < W" by simp_all
qed


lemma upt_shift_map:
  "map (\<lambda>j. f (j div m) (j mod m)) [n * m..<n * m + m] = map (f n) [0..<(m::nat)]"
proof (rule nth_equalityI)
  show "length (map (\<lambda>j. f (j div m) (j mod m)) [n * m..<n * m + m]) = length (map (f n) [0..<m])"
    by simp
  fix i assume "i < length (map (\<lambda>j. f (j div m) (j mod m)) [n * m..<n * m + m])"
  then have i: "i < m" by simp
  then have "(n * m + i) div m = n" "(n * m + i) mod m = i" by simp_all
  with i show "map (\<lambda>j. f (j div m) (j mod m)) [n * m..<n * m + m] ! i = map (f n) [0..<m] ! i"
    by simp
qed

lemma concat_map_upt:
  "concat (map (\<lambda>i. map (f i) [0..<m]) [0..<n]) = map (\<lambda>j. f (j div m) (j mod m)) [0..<n * m]"
proof (induction n)
  case 0
  show ?case by simp
next
  case (Suc n)
  have "[0..<Suc n * m] = [0..<n * m] @ [n * m..<n * m + m]"
    using upt_add_eq_append [of 0 "n * m" m] by (simp add: add.commute)
  with Suc upt_shift_map [of f m n] show ?case by simp
qed


lemma tabulate4_cong:
  assumes "\<And>n c y x. n < N \<Longrightarrow> c < C \<Longrightarrow> y < H \<Longrightarrow> x < W \<Longrightarrow> f n c y x = g n c y x"
  shows "tabulate4 N C H W f = tabulate4 N C H W g"
proof -
  have "f (j div (C * H * W)) (j div (H * W) mod C) (j div W mod H) (j mod W)
      = g (j div (C * H * W)) (j div (H * W) mod C) (j div W mod H) (j mod W)"
    if "j < N * C * H * W" for j
    by (intro assms index_bounds [OF that])
  then show ?thesis unfolding tabulate4_def by simp
qed

subsection \<open>One sample of the loop\<close>

lemma tabulate1_cong:
  assumes "\<And>i. i < N \<Longrightarrow> f i = g i"
  shows "tabulate1 N f = tabulate1 N g"
  unfolding tabulate1_def using assms by simp

lemma select0_row:
  assumes "shape w = [b, n]" and "wf_tensor w" and "i < b"
  shows "select0 w i = Inr \<lparr>shape = [n], data = take n (drop (i * n) (data w))\<rparr>"
    and "l < n \<Longrightarrow> at1 \<lparr>shape = [n], data = take n (drop (i * n) (data w))\<rparr> l = at2 w i l"
proof -
  show "select0 w i = Inr \<lparr>shape = [n], data = take n (drop (i * n) (data w))\<rparr>"
    using assms by (simp add: select0_def)
  assume l: "l < n"
  from flat2_less [OF assms(3) l] assms(1,2) have "i * n + l < length (data w)"
    by (simp add: wf_tensor_def)
  with l assms(1) show "at1 \<lparr>shape = [n], data = take n (drop (i * n) (data w))\<rparr> l = at2 w i l"
    by (simp add: at1_def at2_def)
qed

lemma style_scale_row:
  assumes "ModulatedConv2d_wf w_dim IC OC k M"
    and "shape w = [b, w_dim]" and "wf_tensor w" and "i < b"
  shows "bind_err (select0 w i) (\<lambda>w_cur.
           linear w_cur (style_scale_weight M) (style_scale_bias M))
         = Inr (tabulate1 IC (style_scale_at M w i))"
proof -
  let ?wi = "\<lparr>shape = [w_dim], data = take w_dim (drop (i * w_dim) (data w))\<rparr>"
  have "tabulate1 IC (\<lambda>j. (\<Sum>l\<leftarrow>[0..<w_dim]. at1 ?wi l * at2 (style_scale_weight M) j l)
            + at1 (style_scale_bias M) j)
      = tabulate1 IC (style_scale_at M w i)"
  proof (rule tabulate1_cong)
    fix j
    have "(\<Sum>l\<leftarrow>[0..<w_dim]. at1 ?wi l * at2 (style_scale_weight M) j l)
        = (\<Sum>l\<leftarrow>[0..<w_dim]. at2 w i l * at2 (style_scale_weight M) j l)"
      by (rule sum_upt_cong) (simp add: select0_row(2) [OF assms(2-4)])
    with assms(1) show "(\<Sum>l\<leftarrow>[0..<w_dim]. at1 ?wi l * at2 (style_scale_weight M) j l)
            + at1 (style_scale_bias M) j = style_scale_at M w i j"
      by (simp add: style_scale_at_def ModulatedConv2d_wf_def)
  qed
  with assms(1) show ?thesis
    by (simp add: select0_row(1) [OF assms(2-4)] linear_def ModulatedConv2d_wf_def)
qed


lemma modulate_row:
  assumes "ModulatedConv2d_wf w_dim IC OC k M"
  shows "modulate (conv_weight M) (tabulate1 IC (style_scale_at M w i))
         = Inr (tabulate4 OC IC k k (modulated_weight M w i))"
proof -
  have "tabulate4 OC IC k k
          (\<lambda>o' c ky kx. at4 (conv_weight M) o' (if IC = 1 then 0 else c) ky kx
                          * at1 (tabulate1 IC (style_scale_at M w i)) (if IC = 1 then 0 else c))
      = tabulate4 OC IC k k (modulated_weight M w i)"
    by (rule tabulate4_cong) (auto simp: modulated_weight_def)
  with assms show ?thesis
    by (simp add: modulate_def ModulatedConv2d_wf_def)
qed

lemma sum_squares_cong:
  assumes "\<And>c ky kx. c < IC \<Longrightarrow> ky < KH \<Longrightarrow> kx < KW \<Longrightarrow> f c ky kx = g c ky kx"
  shows "(\<Sum>c\<leftarrow>[0..<IC]. \<Sum>ky\<leftarrow>[0..<KH]. \<Sum>kx\<leftarrow>[0..<KW]. f c ky kx)
       = (\<Sum>c\<leftarrow>[0..<IC]. \<Sum>ky\<leftarrow>[0..<KH]. \<Sum>kx\<leftarrow>[0..<KW]. (g c ky kx :: real))"
  by (intro sum_upt_cong assms)

lemma demodulate_row:
  assumes "ModulatedConv2d_wf w_dim IC OC k M"
  shows "demodulate (tabulate4 OC IC k k (modulated_weight M w i))
         = Inr (tabulate4 OC IC k k (demodulated_weight M w i))"
proof -
  let ?w' = "tabulate4 OC IC k k (modulated_weight M w i)"
  have den: "(\<Sum>c\<leftarrow>[0..<IC]. \<Sum>ky\<leftarrow>[0..<k]. \<Sum>kx\<leftarrow>[0..<k]. (at4 ?w' o' c ky kx)\<^sup>2)
      = (\<Sum>c\<leftarrow>[0..<IC]. \<Sum>ky\<leftarrow>[0..<k]. \<Sum>kx\<leftarrow>[0..<k]. (modulated_weight M w i o' c ky kx)\<^sup>2)"
    if "o' < OC" for o'
    by (rule sum_squares_cong) (simp add: that)
  have "tabulate4 OC IC k k
          (\<lambda>o' c ky kx. at4 ?w' o' c ky kx
             / sqrt (at1 (tabulate1 OC
                 (\<lambda>o'. (\<Sum>c\<leftarrow>[0..<IC]. \<Sum>ky\<leftarrow>[0..<k]. \<Sum>kx\<leftarrow>[0..<k]. (at4 ?w' o' c ky kx)\<^sup>2)
                        + eps)) o'))
      = tabulate4 OC IC k k (demodulated_weight M w i)"
    using assms
    by (intro tabulate4_cong) (simp add: den demodulated_weight_def ModulatedConv2d_wf_def)
  then show ?thesis
    by (simp add: demodulate_def demod_denominator_def)
qed


lemma padded_at_eq:
  assumes "shape t = [N, C, H, W]"
  shows "padded_at t p n c y x
      = (if p \<le> y \<and> y < H + p \<and> p \<le> x \<and> x < W + p then at4 t n c (y - p) (x - p) else 0)"
  using assms by (simp add: padded_at_def)

lemma image_row:
  assumes "shape img = [b, IC, H, W]" and "wf_tensor img" and "i < b"
  defines "image_i \<equiv> \<lparr>shape = [IC, H, W],
                        data = take (IC * (H * W)) (drop (i * (IC * (H * W))) (data img))\<rparr>"
  shows "select0 img i = Inr image_i"
    and "c < IC \<Longrightarrow> padded_at (unsqueeze0 image_i) p 0 c y x = padded_at img p i c y x"
proof -
  show "select0 img i = Inr image_i"
    using assms by (simp add: select0_def)
  assume c: "c < IC"
  have "at4 (unsqueeze0 image_i) 0 c y' x' = at4 img i c y' x'" if "y' < H" "x' < W" for y' x'
  proof -
    have inner: "(c * H + y') * W + x' < IC * (H * W)"
      using flat2_less [OF flat2_less [OF c that(1)] that(2)] by (simp add: mult.assoc)
    have "i * (IC * (H * W)) + ((c * H + y') * W + x') < b * (IC * (H * W))"
      by (rule flat2_less [OF assms(3) inner])
    with assms(1,2) have len: "i * (IC * (H * W)) + ((c * H + y') * W + x') < length (data img)"
      by (simp add: wf_tensor_def)
    have eq: "i * (IC * (H * W)) + ((c * H + y') * W + x') = ((i * IC + c) * H + y') * W + x'"
      by (simp add: algebra_simps)
    have "at4 (unsqueeze0 image_i) 0 c y' x'
        = data img ! (i * (IC * (H * W)) + ((c * H + y') * W + x'))"
      using inner len by (simp add: at4_def unsqueeze0_def image_i_def)
    also have "\<dots> = data img ! (((i * IC + c) * H + y') * W + x')"
      by (simp only: eq)
    also have "\<dots> = at4 img i c y' x'"
      using assms(1) by (simp add: at4_def)
    finally show ?thesis .
  qed
  note at = this
  have L: "padded_at (unsqueeze0 image_i) p 0 c y x
      = (if p \<le> y \<and> y < H + p \<and> p \<le> x \<and> x < W + p
         then at4 (unsqueeze0 image_i) 0 c (y - p) (x - p) else 0)"
    by (rule padded_at_eq) (simp add: unsqueeze0_def image_i_def)
  have R: "padded_at img p i c y x
      = (if p \<le> y \<and> y < H + p \<and> p \<le> x \<and> x < W + p
         then at4 img i c (y - p) (x - p) else 0)"
    by (rule padded_at_eq [OF assms(1)])
  show "padded_at (unsqueeze0 image_i) p 0 c y x = padded_at img p i c y x"
  proof (cases "p \<le> y \<and> y < H + p \<and> p \<le> x \<and> x < W + p")
    case True
    then have "y - p < H" and "x - p < W" by arith+
    from at [OF this] show ?thesis unfolding L R by (simp only:)
  next
    case False
    then show ?thesis unfolding L R by (simp only: if_False)
  qed
qed

lemma conv_row:
  assumes "ModulatedConv2d_wf w_dim IC OC k M"
    and "shape img = [b, IC, H, W]" and "wf_tensor img" and "i < b"
    and "k \<le> H + 2 * padding M" and "k \<le> W + 2 * padding M"
  shows "bind_err (select0 img i) (\<lambda>image_i.
           conv2d (unsqueeze0 image_i) (tabulate4 OC IC k k (demodulated_weight M w i)) None
             (padding M) 1)
         = Inr (tabulate4 1 OC (H + 2 * padding M - k + 1) (W + 2 * padding M - k + 1)
                  (\<lambda>n. modulated_conv M img w i))"
proof -
  let ?image_i = "\<lparr>shape = [IC, H, W],
                        data = take (IC * (H * W)) (drop (i * (IC * (H * W))) (data img))\<rparr>"
  let ?w = "tabulate4 OC IC k k (demodulated_weight M w i)"
  have "tabulate4 1 OC (H + 2 * padding M - k + 1) (W + 2 * padding M - k + 1)
          (\<lambda>n o' y x'.
             (\<Sum>c\<leftarrow>[0..<IC]. \<Sum>ky\<leftarrow>[0..<k]. \<Sum>kx\<leftarrow>[0..<k].
                padded_at (unsqueeze0 ?image_i) (padding M) n (o' div (OC div 1) * IC + c)
                  (y + ky) (x' + kx) * at4 ?w o' c ky kx)
             + (case None :: tensor option of None \<Rightarrow> 0 | Some bt \<Rightarrow> at1 bt o'))
      = tabulate4 1 OC (H + 2 * padding M - k + 1) (W + 2 * padding M - k + 1)
                  (\<lambda>n. modulated_conv M img w i)"
  proof (rule tabulate4_cong)
    fix n o' y x'
    assume n: "n < (1::nat)" and o': "o' < OC"
    have "(\<Sum>c\<leftarrow>[0..<IC]. \<Sum>ky\<leftarrow>[0..<k]. \<Sum>kx\<leftarrow>[0..<k].
                padded_at (unsqueeze0 ?image_i) (padding M) n (o' div (OC div 1) * IC + c)
                  (y + ky) (x' + kx) * at4 ?w o' c ky kx)
        = (\<Sum>c\<leftarrow>[0..<IC]. \<Sum>ky\<leftarrow>[0..<k]. \<Sum>kx\<leftarrow>[0..<k].
                padded_at img (padding M) i c (y + ky) (x' + kx)
                  * demodulated_weight M w i o' c ky kx)"
      using n o' by (intro sum_squares_cong) (simp add: image_row(2) [OF assms(2-4)])
    with assms(1) show "(\<Sum>c\<leftarrow>[0..<IC]. \<Sum>ky\<leftarrow>[0..<k]. \<Sum>kx\<leftarrow>[0..<k].
                padded_at (unsqueeze0 ?image_i) (padding M) n (o' div (OC div 1) * IC + c)
                  (y + ky) (x' + kx) * at4 ?w o' c ky kx)
             + (case None :: tensor option of None \<Rightarrow> 0 | Some bt \<Rightarrow> at1 bt o')
        = modulated_conv M img w i o' y x'"
      by (simp add: modulated_conv_def ModulatedConv2d_wf_def)
  qed
  with assms(5,6) show ?thesis
    by (simp add: image_row(1) [OF assms(2-4)] conv2d_def unsqueeze0_def)
qed

subsection \<open>The loop and the concatenation\<close>

lemma forward_loop_closed:
  assumes "ModulatedConv2d_wf w_dim IC OC k M"
    and "shape w = [b, w_dim]" and "wf_tensor w"
    and "shape img = [b, IC, H, W]" and "wf_tensor img"
    and "k \<le> H + 2 * padding M" and "k \<le> W + 2 * padding M"
    and "\<forall>i\<in>set is. i < b"
  shows "forward_loop M img w is images
         = Inr (images @ map (\<lambda>i. tabulate4 1 OC (H + 2 * padding M - k + 1)
                                   (W + 2 * padding M - k + 1) (\<lambda>n. modulated_conv M img w i)) is)"
  using assms(8)
proof (induction "is" arbitrary: images)
  case Nil
  show ?case by simp
next
  case (Cons i rest)
  then have i: "i < b" and rest: "\<forall>i\<in>set rest. i < b" by simp_all
  let ?w_cur = "\<lparr>shape = [w_dim], data = take w_dim (drop (i * w_dim) (data w))\<rparr>"
  let ?image_i = "\<lparr>shape = [IC, H, W],
                        data = take (IC * (H * W)) (drop (i * (IC * (H * W))) (data img))\<rparr>"
  let ?out = "tabulate4 1 OC (H + 2 * padding M - k + 1) (W + 2 * padding M - k + 1)
                (\<lambda>n. modulated_conv M img w i)"
  have a: "select0 w i = Inr ?w_cur"
    by (rule select0_row(1) [OF assms(2,3) i])
  have b: "linear ?w_cur (style_scale_weight M) (style_scale_bias M)
      = Inr (tabulate1 IC (style_scale_at M w i))"
    using style_scale_row [OF assms(1-3) i] by (simp only: a bind_err.simps)
  note c = modulate_row [OF assms(1), of w i]
  note d = demodulate_row [OF assms(1), of w i]
  have e: "select0 img i = Inr ?image_i"
    by (rule image_row(1) [OF assms(4,5) i])
  have f: "conv2d (unsqueeze0 ?image_i) (tabulate4 OC IC k k (demodulated_weight M w i)) None
             (padding M) 1 = Inr ?out"
    using conv_row [OF assms(1,4,5) i assms(6,7), of w] by (simp only: e bind_err.simps)
  have "forward_loop M img w (i # rest) images = forward_loop M img w rest (images @ [?out])"
    by (simp only: forward_loop.simps a b c d e f bind_err.simps)
  also have "\<dots> = Inr ((images @ [?out]) @ map (\<lambda>i. tabulate4 1 OC (H + 2 * padding M - k + 1)
                                   (W + 2 * padding M - k + 1) (\<lambda>n. modulated_conv M img w i)) rest)"
    by (rule Cons.IH [OF rest])
  finally show ?case by simp
qed

lemma mod_div_swap: "(j mod (a * b)) div b = (j div b) mod (a::nat)"
proof (cases "b = 0")
  case True
  then show ?thesis by simp
next
  case False
  have "j mod (b * a) = b * (j div b mod a) + j mod b" by (rule mod_mult2_eq)
  then have "(j mod (b * a)) div b = (b * (j div b mod a) + j mod b) div b" by simp
  also have "\<dots> = j div b mod a" using False by simp
  finally show ?thesis by (simp add: mult.commute)
qed

lemma flat_index_mod:
  fixes j :: nat
  shows "j mod (C * H * W) div (H * W) mod C = j div (H * W) mod C"
    and "j mod (C * H * W) div W mod H = j div W mod H"
    and "j mod (C * H * W) mod W = j mod W"
proof -
  show "j mod (C * H * W) div (H * W) mod C = j div (H * W) mod C"
    using mod_div_swap [of j C "H * W"] by (simp add: mult.assoc)
  have "j mod (C * H * W) div W = j div W mod (C * H)" by (rule mod_div_swap)
  then show "j mod (C * H * W) div W mod H = j div W mod H"
    by (simp add: mod_mod_cancel)
  show "j mod (C * H * W) mod W = j mod W"
    by (simp add: mod_mod_cancel)
qed

lemma concat_tabulate4:
  "concat (map (\<lambda>i. data (tabulate4 1 C H W (\<lambda>n. g i))) [0..<b])
   = data (tabulate4 b C H W g)"
proof -
  have "concat (map (\<lambda>i. data (tabulate4 1 C H W (\<lambda>n. g i))) [0..<b])
      = concat (map (\<lambda>i. map (\<lambda>j. g i (j div (H * W) mod C) (j div W mod H) (j mod W))
                             [0..<C * H * W]) [0..<b])"
    by (simp add: tabulate4_def)
  also have "\<dots> = map (\<lambda>j. g (j div (C * H * W)) (j mod (C * H * W) div (H * W) mod C)
                            (j mod (C * H * W) div W mod H) (j mod (C * H * W) mod W))
                     [0..<b * (C * H * W)]"
    by (rule concat_map_upt)
  also have "\<dots> = data (tabulate4 b C H W g)"
    using flat_index_mod [of _ C H W] by (simp add: tabulate4_def mult.assoc)
  finally show ?thesis .
qed


lemma cat0_rows:
  assumes "ts \<noteq> []" and "\<forall>u\<in>set ts. shape u = 1 # rest"
  shows "cat0 ts = Inr \<lparr>shape = length ts # rest, data = concat (map data ts)\<rparr>"
proof -
  from assms(2) have "sum_list (map (\<lambda>u. hd (shape u)) ts) = length ts"
    by (induction ts) simp_all
  moreover from assms(2) have "list_all (\<lambda>u. shape u \<noteq> [] \<and> tl (shape u) = rest) ts"
    by (simp add: list_all_iff)
  ultimately show ?thesis
    using assms by (cases ts) (simp_all add: cat0_def)
qed

lemma ModulatedConv2d_forward_closed:
  assumes "ModulatedConv2d_wf w_dim IC OC k M"
    and "shape w = [b, w_dim]" and "wf_tensor w"
    and "shape img = [b, IC, H, W]" and "wf_tensor img"
    and "k \<le> H + 2 * padding M" and "k \<le> W + 2 * padding M" and "0 < b"
  shows "ModulatedConv2d_forward M img w
         = Inr (tabulate4 b OC (H + 2 * padding M - k + 1) (W + 2 * padding M - k + 1)
                  (modulated_conv M img w))"
proof -
  define H' where "H' = H + 2 * padding M - k + 1"
  define W' where "W' = W + 2 * padding M - k + 1"
  let ?outs = "map (\<lambda>i. tabulate4 1 OC H' W' (\<lambda>n. modulated_conv M img w i)) [0..<b]"
  have loop: "forward_loop M img w [0..<b] [] = Inr ?outs"
    using forward_loop_closed [OF assms(1-7), of "[0..<b]" "[]"] by (simp add: H'_def W'_def)
  have "?outs \<noteq> []" using assms(8) by simp
  moreover have "\<forall>u\<in>set ?outs. shape u = 1 # [OC, H', W']" by auto
  ultimately have "cat0 ?outs = Inr \<lparr>shape = length ?outs # [OC, H', W'],
      data = concat (map data ?outs)\<rparr>"
    by (rule cat0_rows)
  moreover have "concat (map data ?outs) = data (tabulate4 b OC H' W' (modulated_conv M img w))"
    using concat_tabulate4 [of OC H' W' "modulated_conv M img w" b] by (simp add: comp_def)
  ultimately have "cat0 ?outs = Inr (tabulate4 b OC H' W' (modulated_conv M img w))"
    by (simp add: tabulate4_def)
  with loop assms(2) show ?thesis
    unfolding H'_def W'_def by (simp add: ModulatedConv2d_forward_def)
qed

subsection \<open>The batched weights and the grouped convolution\<close>

lemma tabulate2_cong:
  assumes "\<And>i j. i < N \<Longrightarrow> j < M \<Longrightarrow> f i j = g i j"
  shows "tabulate2 N M f = tabulate2 N M g"
proof -
  have "f (j div M) (j mod M) = g (j div M) (j mod M)" if "j < N * M" for j
  proof -
    from that have "0 < M" by (auto intro: Nat.gr0I)
    moreover from that have "j div M < N" by (rule less_mult_imp_div_less)
    ultimately show ?thesis by (intro assms) simp_all
  qed
  then show ?thesis unfolding tabulate2_def by simp
qed

lemma tabulate5_cong:
  assumes "\<And>b n c y x. b < B \<Longrightarrow> n < N \<Longrightarrow> c < C \<Longrightarrow> y < H \<Longrightarrow> x < W
             \<Longrightarrow> f b n c y x = g b n c y x"
  shows "tabulate5 B N C H W f = tabulate5 B N C H W g"
proof -
  have "f (j div (N * C * H * W)) (j div (C * H * W) mod N) (j div (H * W) mod C)
          (j div W mod H) (j mod W)
      = g (j div (N * C * H * W)) (j div (C * H * W) mod N) (j div (H * W) mod C)
          (j div W mod H) (j mod W)"
    if "j < B * N * C * H * W" for j
  proof -
    have pos: "0 < N \<and> 0 < C \<and> 0 < H \<and> 0 < W"
    proof (rule ccontr)
      assume "\<not> ?thesis"
      then have "B * N * C * H * W = 0" by auto
      with that show False by simp
    qed
    have "j < B * (N * C * H * W)" using that by (simp add: mult.assoc)
    then have "j div (N * C * H * W) < B" by (rule less_mult_imp_div_less)
    with pos show ?thesis by (intro assms) simp_all
  qed
  then show ?thesis unfolding tabulate5_def by simp
qed

lemma style_scale_batch:
  assumes "ModulatedConv2d_wf w_dim IC OC k M" and "shape w = [b, w_dim]"
  shows "linear w (style_scale_weight M) (style_scale_bias M)
         = Inr (tabulate2 b IC (style_scale_at M w))"
  using assms
  by (simp add: linear_def ModulatedConv2d_wf_def style_scale_at_def [abs_def])

lemma modulate_batch_closed:
  assumes "ModulatedConv2d_wf w_dim IC OC k M"
  shows "modulate_batch (conv_weight M) (tabulate2 b IC (style_scale_at M w))
         = Inr (tabulate5 b OC IC k k (modulated_weight M w))"
proof -
  have "tabulate5 b OC IC k k
          (\<lambda>n o' c ky kx. at4 (conv_weight M) o' (if IC = 1 then 0 else c) ky kx
             * at2 (tabulate2 b IC (style_scale_at M w)) n (if IC = 1 then 0 else c))
      = tabulate5 b OC IC k k (modulated_weight M w)"
    by (rule tabulate5_cong) (auto simp: modulated_weight_def)
  with assms show ?thesis
    by (simp add: modulate_batch_def ModulatedConv2d_wf_def)
qed

lemma demodulate_batch_closed:
  assumes "ModulatedConv2d_wf w_dim IC OC k M"
  shows "demodulate_batch (tabulate5 b OC IC k k (modulated_weight M w))
         = Inr (tabulate5 b OC IC k k (demodulated_weight M w))"
proof -
  let ?w' = "tabulate5 b OC IC k k (modulated_weight M w)"
  have den: "(\<Sum>c\<leftarrow>[0..<IC]. \<Sum>ky\<leftarrow>[0..<k]. \<Sum>kx\<leftarrow>[0..<k]. (at5 ?w' n o' c ky kx)\<^sup>2)
      = (\<Sum>c\<leftarrow>[0..<IC]. \<Sum>ky\<leftarrow>[0..<k]. \<Sum>kx\<leftarrow>[0..<k]. (modulated_weight M w n o' c ky kx)\<^sup>2)"
    if "n < b" "o' < OC" for n o'
    by (rule sum_squares_cong) (simp add: that)
  have "tabulate5 b OC IC k k
          (\<lambda>n o' c ky kx. at5 ?w' n o' c ky kx
             / sqrt (at2 (tabulate2 b OC
                 (\<lambda>n o'. (\<Sum>c\<leftarrow>[0..<IC]. \<Sum>ky\<leftarrow>[0..<k]. \<Sum>kx\<leftarrow>[0..<k]. (at5 ?w' n o' c ky kx)\<^sup>2)
                          + eps)) n o'))
      = tabulate5 b OC IC k k (demodulated_weight M w)"
    using assms
    by (intro tabulate5_cong) (simp add: den demodulated_weight_def ModulatedConv2d_wf_def)
  then show ?thesis
    by (simp add: demodulate_batch_def demod_denominator_batch_def)
qed


lemma efficient_filter_at:
  assumes "i < b" and "o' < OC" and "c < IC" and "ky < k" and "kx < k"
  shows "at4 (tabulate5 b OC IC k k f\<lparr>shape := [b * OC, IC, k, k]\<rparr>) (i * OC + o') c ky kx
         = f i o' c ky kx"
proof -
  have "at4 (tabulate5 b OC IC k k f\<lparr>shape := [b * OC, IC, k, k]\<rparr>) (i * OC + o') c ky kx
      = at5 (tabulate5 b OC IC k k f) i o' c ky kx"
    by (simp add: at4_def at5_def)
  with assms show ?thesis by simp
qed

lemma efficient_image_at:
  assumes "shape img = [b, C, H, W]"
  shows "padded_at (img\<lparr>shape := [1, b * C, H, W]\<rparr>) p 0 (i * C + c) y x
         = padded_at img p i c y x"
proof -
  have "at4 (img\<lparr>shape := [1, b * C, H, W]\<rparr>) 0 (i * C + c) y' x' = at4 img i c y' x'"
    for y' x'
    using assms by (simp add: at4_def)
  moreover have "padded_at (img\<lparr>shape := [1, b * C, H, W]\<rparr>) p 0 (i * C + c) y x
      = (if p \<le> y \<and> y < H + p \<and> p \<le> x \<and> x < W + p
         then at4 (img\<lparr>shape := [1, b * C, H, W]\<rparr>) 0 (i * C + c) (y - p) (x - p) else 0)"
    by (rule padded_at_eq) simp
  moreover note padded_at_eq [OF assms, of p i c y x]
  ultimately show ?thesis by (simp only:)
qed

lemma grouped_conv:
  assumes "ModulatedConv2d_wf w_dim C C k M"
    and "shape img = [b, C, H, W]"
    and "k \<le> H + 2 * padding M" and "k \<le> W + 2 * padding M" and "0 < b"
  shows "conv2d (img\<lparr>shape := [1, b * C, H, W]\<rparr>)
           (tabulate5 b C C k k (demodulated_weight M w)\<lparr>shape := [b * C, C, k, k]\<rparr>)
           None (padding M) b
         = Inr (tabulate4 1 (b * C) (H + 2 * padding M - k + 1) (W + 2 * padding M - k + 1)
                  (\<lambda>n o'. modulated_conv M img w (o' div C) (o' mod C)))"
proof -
  let ?x = "img\<lparr>shape := [1, b * C, H, W]\<rparr>"
  let ?f = "tabulate5 b C C k k (demodulated_weight M w)\<lparr>shape := [b * C, C, k, k]\<rparr>"
  have "tabulate4 1 (b * C) (H + 2 * padding M - k + 1) (W + 2 * padding M - k + 1)
          (\<lambda>n o' y x'.
             (\<Sum>c\<leftarrow>[0..<C]. \<Sum>ky\<leftarrow>[0..<k]. \<Sum>kx\<leftarrow>[0..<k].
                padded_at ?x (padding M) n (o' div (b * C div b) * C + c) (y + ky) (x' + kx)
                  * at4 ?f o' c ky kx)
             + (case None :: tensor option of None \<Rightarrow> 0 | Some bt \<Rightarrow> at1 bt o'))
      = tabulate4 1 (b * C) (H + 2 * padding M - k + 1) (W + 2 * padding M - k + 1)
                  (\<lambda>n o'. modulated_conv M img w (o' div C) (o' mod C))"
  proof (rule tabulate4_cong)
    fix n o' y x'
    assume n: "n < (1::nat)" and o': "o' < b * C"
    from o' have C: "0 < C" by (auto intro: Nat.gr0I)
    from o' have i: "o' div C < b" by (rule less_mult_imp_div_less)
    from C have o: "o' mod C < C" by simp
    have split: "o' div C * C + o' mod C = o'" by simp
    have "(\<Sum>c\<leftarrow>[0..<C]. \<Sum>ky\<leftarrow>[0..<k]. \<Sum>kx\<leftarrow>[0..<k].
                padded_at ?x (padding M) n (o' div (b * C div b) * C + c) (y + ky) (x' + kx)
                  * at4 ?f o' c ky kx)
        = (\<Sum>c\<leftarrow>[0..<C]. \<Sum>ky\<leftarrow>[0..<k]. \<Sum>kx\<leftarrow>[0..<k].
                padded_at img (padding M) (o' div C) c (y + ky) (x' + kx)
                  * demodulated_weight M w (o' div C) (o' mod C) c ky kx)"
    proof (rule sum_squares_cong)
      fix c ky kx
      assume c: "c < C" and ky: "ky < k" and kx: "kx < k"
      have "at4 ?f (o' div C * C + o' mod C) c ky kx
          = demodulated_weight M w (o' div C) (o' mod C) c ky kx"
        by (rule efficient_filter_at [OF i o c ky kx])
      then have "at4 ?f o' c ky kx = demodulated_weight M w (o' div C) (o' mod C) c ky kx"
        by (simp only: split)
      moreover have "b * C div b = C" using assms(5) by simp
      moreover from n have "n = 0" by simp
      ultimately show "padded_at ?x (padding M) n (o' div (b * C div b) * C + c) (y + ky) (x' + kx)
                  * at4 ?f o' c ky kx
          = padded_at img (padding M) (o' div C) c (y + ky) (x' + kx)
                  * demodulated_weight M w (o' div C) (o' mod C) c ky kx"
        by (simp only: efficient_image_at [OF assms(2)])
    qed
    with assms(1) show "(\<Sum>c\<leftarrow>[0..<C]. \<Sum>ky\<leftarrow>[0..<k]. \<Sum>kx\<leftarrow>[0..<k].
                padded_at ?x (padding M) n (o' div (b * C div b) * C + c) (y + ky) (x' + kx)
                  * at4 ?f o' c ky kx)
             + (case None :: tensor option of None \<Rightarrow> 0 | Some bt \<Rightarrow> at1 bt o')
        = modulated_conv M img w (o' div C) (o' mod C) y x'"
      by (simp add: modulated_conv_def ModulatedConv2d_wf_def)
  qed
  with assms(3-5) show ?thesis
    by (simp add: conv2d_def)
qed

lemma tabulate4_merge:
  "tabulate4 1 (b * C) H W (\<lambda>n o'. g (o' div C) (o' mod C))\<lparr>shape := [b, C, H, W]\<rparr>
   = tabulate4 b C H W g"
proof -
  have "g (j div (H * W) mod (b * C) div C) (j div (H * W) mod (b * C) mod C)
          (j div W mod H) (j mod W)
      = g (j div (C * H * W)) (j div (H * W) mod C) (j div W mod H) (j mod W)"
    if "j < b * C * H * W" for j
  proof -
    from that have "j < b * C * (H * W)" by (simp add: mult.assoc)
    then have "j div (H * W) < b * C" by (rule less_mult_imp_div_less)
    then have "j div (H * W) mod (b * C) = j div (H * W)" by simp
    moreover have "j div (H * W) div C = j div (C * H * W)"
      by (simp add: div_mult2_eq [symmetric] mult.commute mult.left_commute)
    ultimately show ?thesis by simp
  qed
  then show ?thesis by (simp add: tabulate4_def)
qed

lemma ModulatedConv2d_forward_efficient_closed:
  assumes "ModulatedConv2d_wf w_dim C C k M"
    and "shape w = [b, w_dim]" and "shape img = [b, C, H, W]"
    and "0 < H" and "0 < W" and "0 < b" and "2 * padding M + 1 = k"
  shows "ModulatedConv2d_forward_efficient M img w
         = Inr (tabulate4 b C H W (modulated_conv M img w))"
proof -
  from assms(4,5,7) have k: "k \<le> H + 2 * padding M" "k \<le> W + 2 * padding M"
    and size: "H + 2 * padding M - k + 1 = H" "W + 2 * padding M - k + 1 = W"
    by simp_all
  have conv: "conv2d (img\<lparr>shape := [1, b * C, H, W]\<rparr>)
           (tabulate5 b C C k k (demodulated_weight M w)\<lparr>shape := [b * C, C, k, k]\<rparr>)
           None (padding M) b
         = Inr (tabulate4 1 (b * C) H W (\<lambda>n o'. modulated_conv M img w (o' div C) (o' mod C)))"
    using grouped_conv [OF assms(1,3) k assms(6), of w] by (simp only: size)
  have views: "view img [1, b * C, H, W] = Inr (img\<lparr>shape := [1, b * C, H, W]\<rparr>)"
    "view (tabulate5 b C C k k (demodulated_weight M w)) [b * C, C, k, k]
       = Inr (tabulate5 b C C k k (demodulated_weight M w)\<lparr>shape := [b * C, C, k, k]\<rparr>)"
    "view (tabulate4 1 (b * C) H W (\<lambda>n o'. modulated_conv M img w (o' div C) (o' mod C)))
          [b, C, H, W]
       = Inr (tabulate4 b C H W (modulated_conv M img w))"
    using assms(3)
    by (simp_all add: view_def tabulate4_merge [unfolded One_nat_def] mult.assoc)
  show ?thesis
    by (simp add: ModulatedConv2d_forward_efficient_def
        style_scale_batch [OF assms(1,2)] modulate_batch_closed [OF assms(1)]
        demodulate_batch_closed [OF assms(1)] assms(3) views [unfolded One_nat_def]
        conv [unfolded One_nat_def])
qed

text \<open>
  With as many output as input channels and a convolution that keeps the size of the
  image, \<open>forward_efficient\<close> returns the tensor \<open>forward\<close> returns.
\<close>

lemma forward_efficient_agrees:
  assumes "ModulatedConv2d_wf w_dim C C k M"
    and "shape w = [b, w_dim]" and "wf_tensor w"
    and "shape img = [b, C, H, W]" and "wf_tensor img"
    and "0 < H" and "0 < W" and "0 < b" and "2 * padding M + 1 = k"
  shows "ModulatedConv2d_forward_efficient M img w = ModulatedConv2d_forward M img w"
proof -
  from assms(6,7,9) have k: "k \<le> H + 2 * padding M" "k \<le> W + 2 * padding M"
    and size: "H + 2 * padding M - k + 1 = H" "W + 2 * padding M - k + 1 = W"
    by simp_all
  from ModulatedConv2d_forward_closed [OF assms(1-5) k assms(8)]
    ModulatedConv2d_forward_efficient_closed [OF assms(1,2,4,6-9)]
  show ?thesis by (simp only: size)
qed

end
